theory Spec2Isabelle
  imports Complex_Main
begin

section \<open>Numeric model\<close>

text \<open>
  The program computes with IEEE doubles and floats. The embedding idealises them as
  \<^typ>\<open>real\<close>: every arithmetic operation of the source is the exact operation
  on reals, \<open>M_PI\<close> is \<^term>\<open>pi\<close> and \<open>M_2PI\<close> is \<^term>\<open>2 * pi\<close>.
  Rounding error, infinities and NaN are outside the model.
\<close>

subsection \<open>point2f (utils/vector.h)\<close>

record point2f =
  px :: real
  py :: real

definition point :: "real \<Rightarrow> real \<Rightarrow> point2f" where
  "point a b = \<lparr>px = a, py = b\<rparr>"

definition padd :: "point2f \<Rightarrow> point2f \<Rightarrow> point2f" where
  "padd a b = \<lparr>px = px a + px b, py = py a + py b\<rparr>"

definition psub :: "point2f \<Rightarrow> point2f \<Rightarrow> point2f" where
  "psub a b = \<lparr>px = px a - px b, py = py a - py b\<rparr>"

definition pscale :: "point2f \<Rightarrow> real \<Rightarrow> point2f" where
  "pscale a c = \<lparr>px = px a * c, py = py a * c\<rparr>"

text \<open>
  Modelled from the spec: \<open>point2f::length()\<close> and \<open>point2f::angle()\<close> are declared in
  utils/vector.h, which is not among the sources. The spec speaks of the distance between
  two points and of the bearing from one point toward another, so \<open>length\<close> is the
  Euclidean norm and \<open>angle\<close> is the two-argument arctangent of the components, with
  value in \<open>(-\<pi>, \<pi>]\<close>.
\<close>

definition plength :: "point2f \<Rightarrow> real" where
  "plength a = sqrt (px a * px a + py a * py a)"

definition atan2 :: "real \<Rightarrow> real \<Rightarrow> real" where
  "atan2 b a =
     (if 0 < a then arctan (b / a)
      else if a < 0 then (if 0 \<le> b then arctan (b / a) + pi else arctan (b / a) - pi)
      else if 0 < b then pi / 2
      else if b < 0 then - (pi / 2)
      else 0)"

definition pangle :: "point2f \<Rightarrow> real" where
  "pangle a = atan2 (py a) (px a)"

subsection \<open>rint and anglemod (utils header, template anglemod)\<close>

text \<open>
  \<open>rint\<close> rounds to the nearest integer, a tie going to the even neighbour (the default
  rounding mode).
\<close>

definition rint :: "real \<Rightarrow> real" where
  "rint v =
     (let f = \<lfloor>v\<rfloor>; r = v - of_int f
      in if r < 1 / 2 then of_int f
         else if 1 / 2 < r then of_int (f + 1)
         else if even f then of_int f else of_int (f + 1))"

definition M_2PI :: real where
  "M_2PI = 2 * pi"

definition anglemod :: "real \<Rightarrow> real" where
  "anglemod a = a - M_2PI * rint (a / M_2PI)"

section \<open>BallTools (my_utils/ball_tools.h)\<close>

text \<open>
  The fields of \<open>BallTools\<close> that prediction and the directional predicates read.
  \<open>updateState\<close> refreshes them from the world model's ball position and velocity;
  the history queues, acceleration and control flag are not read by the functions below
  and are left out.
\<close>

record BallTools =
  position :: point2f
  velocity :: point2f
  speed :: real
  direction :: real

definition updateState :: "point2f \<Rightarrow> point2f \<Rightarrow> BallTools" where
  "updateState ball_pos ball_vel =
     \<lparr>position = ball_pos, velocity = ball_vel,
      speed = plength ball_vel, direction = pangle ball_vel\<rparr>"

text \<open>
  \<open>predictPosition\<close>, with the local constant \<open>friction_coef\<close> taken as a parameter so that
  statements can range over the coefficient; the program's function is the instance at
  \<open>0.03\<close>.
\<close>

definition predictPositionK :: "real \<Rightarrow> BallTools \<Rightarrow> real \<Rightarrow> point2f" where
  "predictPositionK friction_coef b time =
     (if speed b < 1.0 then position b
      else
        let dir_vector = point (cos (direction b)) (sin (direction b));
            stopping_time = speed b / friction_coef
        in if time \<ge> stopping_time
           then (let distance = 0.5 * speed b * stopping_time
                 in padd (position b) (pscale dir_vector distance))
           else (let distance = speed b * time - 0.5 * friction_coef * time * time
                 in padd (position b) (pscale dir_vector distance)))"

definition predictPosition :: "BallTools \<Rightarrow> real \<Rightarrow> point2f" where
  "predictPosition b time = predictPositionK 0.03 b time"

definition predictTimeToPositionK :: "real \<Rightarrow> BallTools \<Rightarrow> point2f \<Rightarrow> real" where
  "predictTimeToPositionK friction_coef b target =
     (if speed b < 1.0 then - 1
      else
        let distance = plength (psub target (position b));
            max_distance = 0.5 * speed b * speed b / friction_coef
        in if distance > max_distance then - 1
           else
             let qa = 0.5 * friction_coef;
                 qb = - speed b;
                 qc = distance;
                 delta = qb * qb - 4 * qa * qc
             in if delta < 0 then - 1
                else
                  let t1 = (- qb + sqrt delta) / (2 * qa);
                      t2 = (- qb - sqrt delta) / (2 * qa)
                  in if t1 > 0 \<and> t2 > 0 then min t1 t2
                     else if t1 > 0 then t1
                     else if t2 > 0 then t2
                     else - 1)"

definition predictTimeToPosition :: "BallTools \<Rightarrow> point2f \<Rightarrow> real" where
  "predictTimeToPosition b target = predictTimeToPositionK 0.03 b target"

definition isMoving :: "BallTools \<Rightarrow> real \<Rightarrow> bool" where
  "isMoving b speed_threshold = (speed b > speed_threshold)"

definition directionTo :: "BallTools \<Rightarrow> point2f \<Rightarrow> real" where
  "directionTo b target = pangle (psub target (position b))"

text \<open>
  In \<open>isMovingTowards\<close> the parameter is named \<open>direction\<close> and hides the member of the
  same name: both operands of the subtraction are the parameter.
\<close>

definition isMovingTowards :: "BallTools \<Rightarrow> real \<Rightarrow> real \<Rightarrow> bool" where
  "isMovingTowards b direction_param tolerance =
     (if \<not> isMoving b 10.0 then False
      else
        let angle_diff = \<bar>anglemod (direction_param - direction_param)\<bar>
        in angle_diff < tolerance)"

definition isMovingTowardsTarget :: "BallTools \<Rightarrow> point2f \<Rightarrow> real \<Rightarrow> bool" where
  "isMovingTowardsTarget b target tolerance =
     (if \<not> isMoving b 10.0 then False
      else
        let target_direction = directionTo b target
        in isMovingTowards b target_direction tolerance)"

definition isMovingAwayFromTarget :: "BallTools \<Rightarrow> point2f \<Rightarrow> real \<Rightarrow> bool" where
  "isMovingAwayFromTarget b target tolerance =
     (if \<not> isMoving b 10.0 then False
      else
        let target_direction = directionTo b target;
            angle_diff = \<bar>anglemod (direction b - target_direction)\<bar>
        in angle_diff > pi - tolerance)"

text \<open>
  The displacement of the predicted point from the current position, measured along the
  current heading.
\<close>

definition displacementK :: "real \<Rightarrow> BallTools \<Rightarrow> real \<Rightarrow> real" where
  "displacementK k b t =
     (px (predictPositionK k b t) - px (position b)) * cos (direction b)
     + (py (predictPositionK k b t) - py (position b)) * sin (direction b)"

section \<open>Ball (1/ball.h)\<close>

record Ball =
  current_pos :: point2f
  ball_velocity :: point2f
  ball_speed :: real

definition Ball_update :: "point2f \<Rightarrow> point2f \<Rightarrow> Ball" where
  "Ball_update ball_pos ball_vel =
     \<lparr>current_pos = ball_pos, ball_velocity = ball_vel, ball_speed = plength ball_vel\<rparr>"

definition getDirection :: "Ball \<Rightarrow> real" where
  "getDirection b = (if ball_speed b > 0.1 then pangle (ball_velocity b) else 0.0)"

definition isStationary :: "Ball \<Rightarrow> real \<Rightarrow> bool" where
  "isStationary b threshold = (ball_speed b < threshold)"

definition isMovingToward :: "Ball \<Rightarrow> point2f \<Rightarrow> real \<Rightarrow> bool" where
  "isMovingToward b target angle_tolerance =
     (if isStationary b 5.0 then False
      else
        let ball_dir = getDirection b;
            target_dir = pangle (psub target (current_pos b))
        in \<bar>anglemod (ball_dir - target_dir)\<bar> < angle_tolerance)"


section \<open>Possession test (my_utils/opp_players.h, my_utils/players.h)\<close>

text \<open>
  The possession test that \<open>OppPlayers::updateState\<close> runs for each existing opponent and
  \<open>Players::updateState\<close> for each field player, as a function of the ball position and of
  the entity's position and orientation. \<open>get_ball_threshold\<close> is a constant of
  utils/constants.h, which is not among the sources: it is a parameter.
\<close>

definition OPP_BALL_CONTROL_THRESHOLD :: real where
  "OPP_BALL_CONTROL_THRESHOLD = 50.0"

definition OppPlayers_hasBall :: "point2f \<Rightarrow> point2f \<Rightarrow> real \<Rightarrow> bool" where
  "OppPlayers_hasBall ball_position opponent_position opponent_orientation =
     (let dist = plength (psub ball_position opponent_position);
          angle_diff = \<bar>anglemod (pangle (psub ball_position opponent_position)
                          - opponent_orientation)\<bar>
      in dist < OPP_BALL_CONTROL_THRESHOLD \<and> angle_diff < pi / 4)"

definition Players_hasBall :: "real \<Rightarrow> point2f \<Rightarrow> point2f \<Rightarrow> real \<Rightarrow> bool" where
  "Players_hasBall get_ball_threshold ball_position player_position player_orientation =
     (let dist = plength (psub ball_position player_position);
          angle_diff = \<bar>anglemod (pangle (psub ball_position player_position)
                          - player_orientation)\<bar>
      in dist < get_ball_threshold \<and> angle_diff < pi / 4)"

section \<open>Tactics (my_utils/tactics.h)\<close>

datatype TacticType = ATTACK | DEFENSE | TRANSITION | SPECIAL_SITUATION

record TacticEvaluation =
  score :: real
  description :: string

text \<open>
  Modelled from the spec: \<open>PlayerTask\<close> is declared in utils/PlayerTask.h, which is not among
  the sources. The spec's Command carries a target pose, a kick request with power and
  chip flag, a pass flag and a dribble flag; the fields below are the ones the sources
  assign, under the names they use.
\<close>

record PlayerTask =
  target_pos :: point2f
  orientate :: real
  needKick :: bool
  kickPower :: real
  isChipKick :: bool
  isPass :: bool
  needCb :: bool

text \<open>
  What a C++ call can throw: an object of a class derived from \<open>std::exception\<close> (with its
  \<open>what()\<close> text) or an object of any other type.
\<close>

datatype thrown = StdException string | OtherThrow

text \<open>
  A registered tactic, seen within one cycle: its name and type, the outcome of
  \<open>evaluate()\<close> for the current world state and the outcome of \<open>execute(robot_id)\<close>. Both
  virtual calls either return or throw.
\<close>

record Tactic =
  getName :: string
  getType :: TacticType
  evaluate :: "thrown + TacticEvaluation"
  execute :: "int \<Rightarrow> thrown + PlayerTask"

text \<open>
  \<open>TacticFactory::registerTactic\<close> appends to the vector; \<open>selectBestTactic\<close> walks it from
  the front with the running \<open>best_score\<close> and \<open>best_tactic\<close> (\<open>None\<close> is the null pointer).
  An exception thrown by \<open>evaluate()\<close> leaves the loop.
\<close>

definition registerTactic :: "Tactic list \<Rightarrow> Tactic \<Rightarrow> Tactic list" where
  "registerTactic tactics tactic = tactics @ [tactic]"

fun selectLoop :: "Tactic list \<Rightarrow> TacticType \<Rightarrow> real \<Rightarrow> Tactic option
    \<Rightarrow> thrown + Tactic option" where
  "selectLoop [] ty best_score best_tactic = Inr best_tactic"
| "selectLoop (tactic # rest) ty best_score best_tactic =
     (if getType tactic \<noteq> ty then selectLoop rest ty best_score best_tactic
      else
        case evaluate tactic of
          Inl e \<Rightarrow> Inl e
        | Inr eval \<Rightarrow>
            if score eval > best_score then selectLoop rest ty (score eval) (Some tactic)
            else selectLoop rest ty best_score best_tactic)"

definition selectBestTactic :: "Tactic list \<Rightarrow> TacticType \<Rightarrow> thrown + Tactic option" where
  "selectBestTactic tactics ty = selectLoop tactics ty (- 1.0) None"

fun getTacticByName :: "Tactic list \<Rightarrow> string \<Rightarrow> Tactic option" where
  "getTacticByName [] name = None"
| "getTacticByName (tactic # rest) name =
     (if getName tactic = name then Some tactic else getTacticByName rest name)"

text \<open>The score a tactic's evaluation returns, if it returns.\<close>

definition tactic_score :: "Tactic \<Rightarrow> real option" where
  "tactic_score t = (case evaluate t of Inl e \<Rightarrow> None | Inr eval \<Rightarrow> Some (score eval))"

text \<open>
  Position \<open>i\<close> holds the winner among the tactics of type \<open>ty\<close>: its score exceeds the
  initial \<open>bs\<close>, no candidate scores higher and every earlier candidate scores lower.
\<close>

definition first_best :: "Tactic list \<Rightarrow> TacticType \<Rightarrow> real \<Rightarrow> nat \<Rightarrow> bool" where
  "first_best tactics ty bs i \<longleftrightarrow>
     i < length tactics \<and> getType (tactics ! i) = ty
     \<and> bs < the (tactic_score (tactics ! i))
     \<and> (\<forall>j < length tactics. getType (tactics ! j) = ty \<longrightarrow>
           the (tactic_score (tactics ! j)) \<le> the (tactic_score (tactics ! i)))
     \<and> (\<forall>j < i. getType (tactics ! j) = ty \<longrightarrow>
           the (tactic_score (tactics ! j)) < the (tactic_score (tactics ! i)))"

text \<open>What the loop returns, in terms of the incoming \<open>best_score\<close> and \<open>best_tactic\<close>.\<close>

definition loop_post :: "Tactic list \<Rightarrow> TacticType \<Rightarrow> real \<Rightarrow> Tactic option \<Rightarrow> Tactic option \<Rightarrow> bool" where
  "loop_post tactics ty bs bt r \<longleftrightarrow>
     (r = bt \<and> (\<forall>t \<in> set tactics. getType t = ty \<longrightarrow> the (tactic_score t) \<le> bs))
     \<or> (\<exists>i. first_best tactics ty bs i \<and> r = Some (tactics ! i))"

section \<open>Tactic scoring (attack, defense, special and transition tactics)\<close>

text \<open>
  What the \<open>evaluate()\<close> functions read in one cycle. The helper classes are used through
  an interface (\<open>getClosestPlayerToBall()\<close> returning an id, \<open>distanceToBall(id)\<close>,
  \<open>getPlayerIds()\<close>, \<open>getPosition(id)\<close>, \<open>getThreatPlayers()\<close>,
  \<open>evaluateDefensivePosition()\<close>, \<open>get_game_state()\<close>, \<open>BallTools::getPosition()\<close>) whose
  definitions are not among the sources, and the field constants come from
  utils/constants.h, which is absent too: the values they return are fields of this record.
  \<open>BallTools::getPosition()\<close> is read as the member \<open>position\<close>.
\<close>

record TacticView =
  ball_tools :: BallTools
  FIELD_LENGTH_H :: real
  FIELD_WIDTH_H :: real
  PENALTY_AREA_R :: real
  MAX_TEAM_ROBOTS :: nat
  getClosestPlayerToBall :: int
  distanceToBall :: "int \<Rightarrow> real"
  our_getPlayerIds :: "int list"
  our_getPosition :: "int \<Rightarrow> point2f"
  our_isInOpponentHalf :: "int \<Rightarrow> bool"
  opp_getPlayerIds :: "int list"
  opp_getPosition :: "int \<Rightarrow> point2f"
  getThreatPlayers :: "int list"
  evaluateDefensivePosition :: real
  get_game_state :: int
  get_ball_pos :: point2f
  get_ball_vel :: point2f
  get_our_exist_id :: "nat \<Rightarrow> bool"
  get_opp_exist_id :: "nat \<Rightarrow> bool"
  get_our_player_pos :: "nat \<Rightarrow> point2f"
  get_opp_player_pos :: "nat \<Rightarrow> point2f"

definition isInOurHalf :: "BallTools \<Rightarrow> bool" where
  "isInOurHalf b = (px (position b) < 0)"

definition isInOpponentHalf :: "BallTools \<Rightarrow> bool" where
  "isInOpponentHalf b = (px (position b) > 0)"

definition isInPenaltyArea :: "TacticView \<Rightarrow> BallTools \<Rightarrow> bool \<Rightarrow> bool" where
  "isInPenaltyArea w b our_side =
     (let penalty_center = (if our_side then point (- FIELD_LENGTH_H w) 0
                            else point (FIELD_LENGTH_H w) 0);
          distance = plength (psub (position b) penalty_center)
      in distance < PENALTY_AREA_R w)"

text \<open>
  Each \<open>evaluate()\<close> accumulates the local \<open>score\<close> and returns \<open>score / 10.0\<close> with a
  description text. The functions \<open>\<dots>_raw\<close> are the value of \<open>score\<close> before the division
  and \<open>\<dots>_evaluate\<close> the returned score; the description text is not modelled.
\<close>

definition DirectAttackTactic_raw :: "TacticView \<Rightarrow> real" where
  "DirectAttackTactic_raw w =
     (let score0 = 0.0;
          score1 = (if isInOpponentHalf (ball_tools w) then score0 + 3.0 else score0);
          closest_id = getClosestPlayerToBall w;
          score2 = (if closest_id \<ge> 0 then
                      (let dist = distanceToBall w closest_id
                       in if dist < 50 then score1 + 2.0
                          else if dist < 100 then score1 + 1.0
                          else score1)
                    else score1);
          ball_pos = position (ball_tools w);
          goal_pos = point (FIELD_LENGTH_H w) 0;
          dist_to_goal = plength (psub ball_pos goal_pos);
          score3 = (if dist_to_goal < 200 then score2 + 3.0
                    else if dist_to_goal < 400 then score2 + 1.5
                    else score2);
          goalie_score = evaluateDefensivePosition w;
          score4 = (if goalie_score < 5.0 then score3 + 2.0 else score3)
      in score4)"

definition DirectAttackTactic_evaluate :: "TacticView \<Rightarrow> real" where
  "DirectAttackTactic_evaluate w = DirectAttackTactic_raw w / 10.0"

text \<open>
  Modelled from the spec: \<open>point2f::operator*\<close> between two points (utils/vector.h, absent)
  is taken to be the dot product, as the projection in \<open>distanceToLine\<close> needs.
\<close>

definition pdot :: "point2f \<Rightarrow> point2f \<Rightarrow> real" where
  "pdot a b = px a * px b + py a * py b"

definition distanceToLine :: "point2f \<Rightarrow> point2f \<Rightarrow> point2f \<Rightarrow> real" where
  "distanceToLine p a b =
     (let len = plength (psub b a)
      in if len < 0.0001 then plength (psub p a)
         else
           let t0 = pdot (psub p a) (psub b a) / (len * len);
               t = max 0.0 (min 1.0 t0);
               projection = padd a (pscale (psub b a) t)
           in plength (psub p projection))"

text \<open>The inner loop over the opponents: \<open>clear_path\<close> stays true until one is within 20.\<close>

fun clear_path_loop :: "TacticView \<Rightarrow> point2f \<Rightarrow> point2f \<Rightarrow> int list \<Rightarrow> bool" where
  "clear_path_loop w pos1 pos2 [] = True"
| "clear_path_loop w pos1 pos2 (opp_id # rest) =
     (let opp_pos = opp_getPosition w opp_id;
          dist = distanceToLine opp_pos pos1 pos2
      in if dist < 20 then False else clear_path_loop w pos1 pos2 rest)"

text \<open>The loop over our players: the first clear lane adds 2.5 and leaves the loop.\<close>

fun passing_lane_loop :: "TacticView \<Rightarrow> int \<Rightarrow> int list \<Rightarrow> real \<Rightarrow> real" where
  "passing_lane_loop w closest_id [] score_in = score_in"
| "passing_lane_loop w closest_id (pid # rest) score_in =
     (if pid \<noteq> closest_id then
        (let pos1 = our_getPosition w closest_id;
             pos2 = our_getPosition w pid;
             clear_path = clear_path_loop w pos1 pos2 (opp_getPlayerIds w)
         in if clear_path then score_in + 2.5
            else passing_lane_loop w closest_id rest score_in)
      else passing_lane_loop w closest_id rest score_in)"

fun count_in_opponent_half :: "TacticView \<Rightarrow> int list \<Rightarrow> int \<Rightarrow> int" where
  "count_in_opponent_half w [] n = n"
| "count_in_opponent_half w (pid # rest) n =
     (if our_isInOpponentHalf w pid then count_in_opponent_half w rest (n + 1)
      else count_in_opponent_half w rest n)"

definition PassAndShootTactic_raw :: "TacticView \<Rightarrow> real" where
  "PassAndShootTactic_raw w =
     (let score0 = 0.0;
          score1 = (if isInOpponentHalf (ball_tools w) then score0 + 2.0 else score0);
          player_ids = our_getPlayerIds w;
          players_in_opponent_half = count_in_opponent_half w player_ids 0;
          score2 = (if players_in_opponent_half \<ge> 2 then score1 + 3.0
                    else if players_in_opponent_half = 1 then score1 + 1.0
                    else score1);
          closest_id = getClosestPlayerToBall w;
          score3 = (if closest_id \<ge> 0 then passing_lane_loop w closest_id player_ids score2
                    else score2);
          threats = int (length (getThreatPlayers w));
          score4 = (if threats < 2 then score3 + 1.5 else score3)
      in score4)"

definition PassAndShootTactic_evaluate :: "TacticView \<Rightarrow> real" where
  "PassAndShootTactic_evaluate w = PassAndShootTactic_raw w / 10.0"

fun forward_player_loop :: "TacticView \<Rightarrow> int list \<Rightarrow> bool" where
  "forward_player_loop w [] = False"
| "forward_player_loop w (pid # rest) =
     (let pos = our_getPosition w pid
      in if px pos > 0 \<and> px pos < FIELD_LENGTH_H w - 100 then True
         else forward_player_loop w rest)"

fun center_defenders_loop :: "TacticView \<Rightarrow> int list \<Rightarrow> int \<Rightarrow> int" where
  "center_defenders_loop w [] n = n"
| "center_defenders_loop w (pid # rest) n =
     (let pos = opp_getPosition w pid
      in if px pos > 0 \<and> \<bar>py pos\<bar> < 100 then center_defenders_loop w rest (n + 1)
         else center_defenders_loop w rest n)"

definition WingAttackTactic_raw :: "TacticView \<Rightarrow> real" where
  "WingAttackTactic_raw w =
     (let score0 = 0.0;
          ball_pos = position (ball_tools w);
          score1 = (if \<bar>py ball_pos\<bar> > FIELD_WIDTH_H w / 2 then score0 + 3.0 else score0);
          forward_player = forward_player_loop w (our_getPlayerIds w);
          score2 = (if forward_player then score1 + 2.0 else score1);
          center_defenders = center_defenders_loop w (opp_getPlayerIds w) 0;
          score3 = (if center_defenders \<ge> 2 then score2 + 2.0 else score2)
      in score3)"

definition WingAttackTactic_evaluate :: "TacticView \<Rightarrow> real" where
  "WingAttackTactic_evaluate w = WingAttackTactic_raw w / 10.0"

definition ManMarkingTactic_raw :: "TacticView \<Rightarrow> real" where
  "ManMarkingTactic_raw w =
     (let score0 = 0.0;
          score1 = (if isInOurHalf (ball_tools w) then score0 + 2.0 else score0);
          threats = getThreatPlayers w;
          score2 = (if threats \<noteq> [] then score1 + 3.0 else score1);
          score3 = (if length threats \<le> 2 then score2 + 2.0 else score2)
      in score3)"

definition ManMarkingTactic_evaluate :: "TacticView \<Rightarrow> real" where
  "ManMarkingTactic_evaluate w = ManMarkingTactic_raw w / 10.0"

definition ZoneDefenseTactic_raw :: "TacticView \<Rightarrow> real" where
  "ZoneDefenseTactic_raw w =
     (let score0 = 0.0;
          score1 = (if isInOurHalf (ball_tools w) then score0 + 2.0 else score0);
          threats = getThreatPlayers w;
          score2 = (if length threats \<ge> 2 then score1 + 3.0 else score1);
          score3 = (if isInPenaltyArea w (ball_tools w) True
                       \<or> (px (position (ball_tools w)) < - FIELD_LENGTH_H w / 2
                           \<and> isInOurHalf (ball_tools w))
                    then score2 + 2.5 else score2)
      in score3)"

definition ZoneDefenseTactic_evaluate :: "TacticView \<Rightarrow> real" where
  "ZoneDefenseTactic_evaluate w = ZoneDefenseTactic_raw w / 10.0"

fun exist_count_loop :: "(nat \<Rightarrow> bool) \<Rightarrow> nat list \<Rightarrow> int \<Rightarrow> int" where
  "exist_count_loop exist [] n = n"
| "exist_count_loop exist (i # rest) n =
     (if exist i then exist_count_loop exist rest (n + 1) else exist_count_loop exist rest n)"

fun opp_attacking_loop :: "TacticView \<Rightarrow> int list \<Rightarrow> int \<Rightarrow> int" where
  "opp_attacking_loop w [] n = n"
| "opp_attacking_loop w (pid # rest) n =
     (let pos = opp_getPosition w pid
      in if px pos < 0 then opp_attacking_loop w rest (n + 1)
         else opp_attacking_loop w rest n)"

definition RetreatDefenseTactic_raw :: "TacticView \<Rightarrow> real" where
  "RetreatDefenseTactic_raw w =
     (let score0 = 0.0;
          our_count = exist_count_loop (get_our_exist_id w) [0..<MAX_TEAM_ROBOTS w] 0;
          opp_count = exist_count_loop (get_opp_exist_id w) [0..<MAX_TEAM_ROBOTS w] 0;
          score1 = (if our_count < opp_count then score0 + 3.0 else score0);
          ball_pos = position (ball_tools w);
          score2 = (if px ball_pos > 0 then
                      (let opp_attacking_players = opp_attacking_loop w (opp_getPlayerIds w) 0
                       in if opp_attacking_players \<ge> 2 then score1 + 2.0 else score1)
                    else
                      (if px ball_pos < - FIELD_LENGTH_H w / 2 then score1 + 3.0 else score1))
      in score2)"

definition RetreatDefenseTactic_evaluate :: "TacticView \<Rightarrow> real" where
  "RetreatDefenseTactic_evaluate w = RetreatDefenseTactic_raw w / 10.0"

definition PM_OurKickOff :: int where "PM_OurKickOff = 1"
definition PM_OppKickOff :: int where "PM_OppKickOff = 2"
definition PM_OurCornerKick :: int where "PM_OurCornerKick = 7"
definition PM_OppCornerKick :: int where "PM_OppCornerKick = 8"
definition PM_OurFreeKick :: int where "PM_OurFreeKick = 9"
definition PM_OppFreeKick :: int where "PM_OppFreeKick = 10"

definition KickoffTactic_evaluate :: "TacticView \<Rightarrow> real" where
  "KickoffTactic_evaluate w =
     (let play_mode = get_game_state w
      in if play_mode = PM_OurKickOff then 1.0
         else if play_mode = PM_OppKickOff then 0.8
         else 0.0)"

definition FreeKickTactic_evaluate :: "TacticView \<Rightarrow> real" where
  "FreeKickTactic_evaluate w =
     (let play_mode = get_game_state w
      in if play_mode = PM_OurFreeKick then 1.0
         else if play_mode = PM_OppFreeKick then 0.8
         else 0.0)"

definition CornerKickTactic_evaluate :: "TacticView \<Rightarrow> real" where
  "CornerKickTactic_evaluate w =
     (let play_mode = get_game_state w
      in if play_mode = PM_OurCornerKick then 1.0
         else if play_mode = PM_OppCornerKick then 0.8
         else 0.0)"

text \<open>Loops of the transition tactics over the robot indices \<open>0 \<dots> MAX_TEAM_ROBOTS - 1\<close>.\<close>

fun near_ball_loop :: "(nat \<Rightarrow> bool) \<Rightarrow> (nat \<Rightarrow> point2f) \<Rightarrow> point2f \<Rightarrow> nat list \<Rightarrow> bool" where
  "near_ball_loop exist pos ball_pos [] = False"
| "near_ball_loop exist pos ball_pos (i # rest) =
     (if exist i then
        (if plength (psub (pos i) ball_pos) < 30 then True
         else near_ball_loop exist pos ball_pos rest)
      else near_ball_loop exist pos ball_pos rest)"

fun opp_in_path_loop :: "TacticView \<Rightarrow> point2f \<Rightarrow> nat list \<Rightarrow> int \<Rightarrow> int" where
  "opp_in_path_loop w ball_pos [] n = n"
| "opp_in_path_loop w ball_pos (i # rest) n =
     (if get_opp_exist_id w i then
        (let opp_pos = get_opp_player_pos w i
         in if px opp_pos > px ball_pos \<and> px opp_pos < FIELD_LENGTH_H w
            then opp_in_path_loop w ball_pos rest (n + 1)
            else opp_in_path_loop w ball_pos rest n)
      else opp_in_path_loop w ball_pos rest n)"

definition CounterAttackTactic_evaluate :: "TacticView \<Rightarrow> real" where
  "CounterAttackTactic_evaluate w =
     (let ball_pos = get_ball_pos w;
          ball_vel = get_ball_vel w
      in if px ball_pos < 0 \<and> px ball_vel > 50 then
           (let our_ball_possession =
                  near_ball_loop (get_our_exist_id w) (get_our_player_pos w) ball_pos
                    [0..<MAX_TEAM_ROBOTS w]
            in if our_ball_possession then
                 (let opp_in_path = opp_in_path_loop w ball_pos [0..<MAX_TEAM_ROBOTS w] 0
                  in if opp_in_path < 3 then 0.8 else 0.4)
               else 0.0)
         else 0.0)"

fun defenders_count_loop :: "TacticView \<Rightarrow> nat list \<Rightarrow> int \<Rightarrow> int" where
  "defenders_count_loop w [] n = n"
| "defenders_count_loop w (i # rest) n =
     (if get_our_exist_id w i then
        (let player_pos = get_our_player_pos w i
         in if px player_pos < 0 then defenders_count_loop w rest (n + 1)
            else defenders_count_loop w rest n)
      else defenders_count_loop w rest n)"

definition QuickDefenseTactic_evaluate :: "TacticView \<Rightarrow> real" where
  "QuickDefenseTactic_evaluate w =
     (let ball_pos = get_ball_pos w;
          ball_vel = get_ball_vel w
      in if px ball_pos > 0 \<and> px ball_vel < - 50 then
           (let opp_ball_possession =
                  near_ball_loop (get_opp_exist_id w) (get_opp_player_pos w) ball_pos
                    [0..<MAX_TEAM_ROBOTS w]
            in if opp_ball_possession then
                 (let defenders_count = defenders_count_loop w [0..<MAX_TEAM_ROBOTS w] 0
                  in if defenders_count < 3 then 0.9 else 0.5)
               else 0.0)
         else 0.0)"

section \<open>Communication (my_utils/communication.h)\<close>

datatype MessageType =
  NONE | BALL_POSSESSION | PASS_INTENTION | PASS_EXECUTION
  | POSITION_EXCHANGE | ATTACK_STRATEGY | DEFENSE_STRATEGY | EMERGENCY

text \<open>
  \<open>Message\<close> and \<open>SharedMemoryMessage\<close> have the same fields; the slot keeps the text in a
  \<open>char[256]\<close> and the message in a \<open>std::string\<close>. One record stands for both, its
  \<open>data\<close> being the text up to the terminating NUL, so that the field-by-field copy in
  \<open>receiveMessage\<close> is the slot's value. The fields \<open>type\<close>, \<open>position\<close> and \<open>orientation\<close>
  are named \<open>msg_type\<close>, \<open>msg_position\<close> and \<open>msg_orientation\<close> here.

  \<open>int\<close> is the 32-bit signed integer of the target. Its values are the integers from
  \<open>INT_MIN\<close> to \<open>INT_MAX\<close>; the only arithmetic on them is \<open>current_cycle - 10\<close> in
  \<open>sendMessage\<close>, which is written \<open>int_wrap (current_cycle - 10)\<close>: below \<open>INT_MIN + 10\<close>
  the subtraction leaves the range and the compiled code wraps around.
\<close>

definition INT_MIN :: int where
  "INT_MIN = - 2147483648"

definition INT_MAX :: int where
  "INT_MAX = 2147483647"

definition int_wrap :: "int \<Rightarrow> int" where
  "int_wrap x = (x + 2147483648) mod 4294967296 - 2147483648"

record Message =
  sender_id :: int
  receiver_id :: int
  msg_type :: MessageType
  timestamp :: int
  msg_position :: point2f
  msg_orientation :: real
  data :: string

text \<open>The default constructor of \<open>Message\<close>: the NONE sentinel.\<close>

definition Message_default :: Message where
  "Message_default =
     \<lparr>sender_id = - 1, receiver_id = - 1, msg_type = NONE, timestamp = 0,
      msg_position = point 0 0, msg_orientation = 0, data = []\<rparr>"

text \<open>A slot after \<open>memset(shared_memory, 0, sizeof(SharedMemory))\<close>.\<close>

definition zero_slot :: Message where
  "zero_slot =
     \<lparr>sender_id = 0, receiver_id = 0, msg_type = NONE, timestamp = 0,
      msg_position = point 0 0, msg_orientation = 0, data = []\<rparr>"

definition MAX_MESSAGES :: nat where
  "MAX_MESSAGES = 20"

definition MAX_DATA_LENGTH :: nat where
  "MAX_DATA_LENGTH = 256"

text \<open>
  The members of the \<open>Communication\<close> singleton of one process. The slot table lives in
  shared memory and is passed to and returned by the operations; \<open>shared_memory_mapped\<close>
  says that the pointer \<open>shared_memory\<close> is not null. Whether \<open>WaitForSingleObject\<close> obtains
  the mutex within its timeout is an input (\<open>acquired\<close>) of each operation.
\<close>

record Communication =
  robot_id :: int
  current_cycle :: int
  is_initialized :: bool
  shared_memory_mapped :: bool

definition Communication_new :: Communication where
  "Communication_new =
     \<lparr>robot_id = - 1, current_cycle = 0, is_initialized = False, shared_memory_mapped = False\<rparr>"

text \<open>
  \<open>initialize\<close>: \<open>os_ok\<close> says that the file mapping, the view and the mutex were created;
  the table is zeroed when the mutex is obtained.
\<close>

definition initialize :: "Communication \<Rightarrow> int \<Rightarrow> bool \<Rightarrow> bool \<Rightarrow> Message list
    \<Rightarrow> bool \<times> Communication \<times> Message list" where
  "initialize c rid os_ok acquired shm =
     (if \<not> os_ok then (False, c\<lparr>robot_id := rid\<rparr>, shm)
      else (True,
            c\<lparr>robot_id := rid, is_initialized := True, shared_memory_mapped := True\<rparr>,
            if acquired then replicate MAX_MESSAGES zero_slot else shm))"

definition setCycle :: "Communication \<Rightarrow> int \<Rightarrow> Communication" where
  "setCycle c cycle = c\<lparr>current_cycle := cycle\<rparr>"

text \<open>The text that reaches the slot: at most 255 characters, cut at the first NUL.\<close>

definition stored_data :: "string \<Rightarrow> string" where
  "stored_data dat = takeWhile (\<lambda>ch. ch \<noteq> CHR 0x00) (take (MAX_DATA_LENGTH - 1) dat)"

definition sendMessage :: "Communication \<Rightarrow> bool \<Rightarrow> Message list \<Rightarrow> int \<Rightarrow> MessageType
    \<Rightarrow> point2f \<Rightarrow> real \<Rightarrow> string \<Rightarrow> bool \<times> Message list" where
  "sendMessage c acquired shm receiver ty pos ori dat =
     (if \<not> is_initialized c \<or> \<not> shared_memory_mapped c then (False, shm)
      else if acquired then
        (case find (\<lambda>i. msg_type (shm ! i) = NONE
                       \<or> timestamp (shm ! i) < int_wrap (current_cycle c - 10))
                [0..<MAX_MESSAGES] of
           Some i \<Rightarrow>
             (True, shm[i := \<lparr>sender_id = robot_id c, receiver_id = receiver, msg_type = ty,
                              timestamp = current_cycle c, msg_position = pos,
                              msg_orientation = ori, data = stored_data dat\<rparr>])
         | None \<Rightarrow> (False, shm))
      else (False, shm))"

text \<open>
  The test of the loop of \<open>sendMessage\<close>: the slot is free for the process \<open>c\<close>; and the
  message that \<open>sendMessage\<close> writes into the slot it takes.
\<close>

definition slot_free :: "Communication \<Rightarrow> Message \<Rightarrow> bool" where
  "slot_free c m \<longleftrightarrow> msg_type m = NONE \<or> timestamp m < int_wrap (current_cycle c - 10)"

definition sent_message :: "Communication \<Rightarrow> int \<Rightarrow> MessageType \<Rightarrow> point2f \<Rightarrow> real
    \<Rightarrow> string \<Rightarrow> Message" where
  "sent_message c receiver ty pos ori dat =
     \<lparr>sender_id = robot_id c, receiver_id = receiver, msg_type = ty,
      timestamp = current_cycle c, msg_position = pos, msg_orientation = ori,
      data = stored_data dat\<rparr>"

text \<open>One round of the loop of \<open>receiveMessage\<close> on \<open>(latest_timestamp, result)\<close>.\<close>

definition receive_step :: "int \<Rightarrow> MessageType \<Rightarrow> Message list \<Rightarrow> nat
    \<Rightarrow> int \<times> Message \<Rightarrow> int \<times> Message" where
  "receive_step rid ty shm i acc =
     (if receiver_id (shm ! i) = rid
         \<and> (ty = NONE \<or> msg_type (shm ! i) = ty)
         \<and> timestamp (shm ! i) > fst acc
      then (timestamp (shm ! i), shm ! i)
      else acc)"

definition receiveMessage :: "Communication \<Rightarrow> bool \<Rightarrow> Message list \<Rightarrow> MessageType
    \<Rightarrow> Message" where
  "receiveMessage c acquired shm ty =
     (if \<not> is_initialized c \<or> \<not> shared_memory_mapped c then Message_default
      else if acquired then
        snd (fold (receive_step (robot_id c) ty shm) [0..<MAX_MESSAGES] (- 1, Message_default))
      else Message_default)"

text \<open>
  A slot is addressed to \<open>rid\<close> and passes the filter; and slot \<open>i\<close> is the one a scan of
  the first \<open>n\<close> slots ends with: the lowest-indexed among the matching slots of greatest
  timestamp, that timestamp being above \<open>-1\<close>.
\<close>

definition matches :: "int \<Rightarrow> MessageType \<Rightarrow> Message \<Rightarrow> bool" where
  "matches rid ty m \<longleftrightarrow> receiver_id m = rid \<and> (ty = NONE \<or> msg_type m = ty)"

definition freshest :: "int \<Rightarrow> MessageType \<Rightarrow> Message list \<Rightarrow> nat \<Rightarrow> nat \<Rightarrow> bool" where
  "freshest rid ty shm n i \<longleftrightarrow>
     i < n \<and> matches rid ty (shm ! i) \<and> - 1 < timestamp (shm ! i)
     \<and> (\<forall>j < n. matches rid ty (shm ! j) \<longrightarrow> timestamp (shm ! j) \<le> timestamp (shm ! i))
     \<and> (\<forall>j < i. matches rid ty (shm ! j) \<longrightarrow> timestamp (shm ! j) < timestamp (shm ! i))"

text \<open>The state of the scan after the first \<open>n\<close> slots.\<close>

definition scan_post :: "int \<Rightarrow> MessageType \<Rightarrow> Message list \<Rightarrow> nat \<Rightarrow> int \<times> Message \<Rightarrow> bool" where
  "scan_post rid ty shm n acc \<longleftrightarrow>
     (acc = (- 1, Message_default)
        \<and> (\<forall>j < n. matches rid ty (shm ! j) \<longrightarrow> timestamp (shm ! j) \<le> - 1))
     \<or> (\<exists>i. freshest rid ty shm n i \<and> acc = (timestamp (shm ! i), shm ! i))"

text \<open>
  A call of \<open>sendMessage\<close> by some process, and the slot table after a sequence of such
  calls made one after the other (the mutex serialises them; \<open>receiveMessage\<close> does not
  write to the table).
\<close>

record SendCall =
  caller :: Communication
  lock_acquired :: bool
  to_receiver :: int
  of_type :: MessageType
  at_position :: point2f
  at_orientation :: real
  with_data :: string

definition do_send :: "SendCall \<Rightarrow> Message list \<Rightarrow> Message list" where
  "do_send s shm =
     snd (sendMessage (caller s) (lock_acquired s) shm (to_receiver s) (of_type s)
            (at_position s) (at_orientation s) (with_data s))"

definition run_sends :: "SendCall list \<Rightarrow> Message list \<Rightarrow> Message list" where
  "run_sends calls shm = fold do_send calls shm"

section \<open>Decision loop (robot1.cpp and robot2.cpp)\<close>

text \<open>
  \<open>broadcastBallPossession\<close> sends to every robot index but the caller's and stops at the
  first failed send. \<open>lock n\<close> tells whether the \<open>n\<close>-th wait for the mutex in this cycle
  succeeds; the loop returns the success flag, the number of waits so far and the table.
\<close>

fun broadcast_loop :: "Communication \<Rightarrow> (nat \<Rightarrow> bool) \<Rightarrow> bool \<Rightarrow> point2f \<Rightarrow> nat list
    \<Rightarrow> nat \<Rightarrow> Message list \<Rightarrow> bool \<times> nat \<times> Message list" where
  "broadcast_loop c lock has_ball ball_pos [] n shm = (True, n, shm)"
| "broadcast_loop c lock has_ball ball_pos (i # rest) n shm =
     (if int i \<noteq> robot_id c then
        (let dat = (if has_ball then ''1'' else ''0'');
             sent = sendMessage c (lock n) shm (int i) BALL_POSSESSION ball_pos 0 dat
         in if \<not> fst sent then (False, Suc n, snd sent)
            else broadcast_loop c lock has_ball ball_pos rest (Suc n) (snd sent))
      else broadcast_loop c lock has_ball ball_pos rest n shm)"

definition broadcastBallPossession :: "Communication \<Rightarrow> (nat \<Rightarrow> bool) \<Rightarrow> nat \<Rightarrow> bool
    \<Rightarrow> point2f \<Rightarrow> nat \<Rightarrow> Message list \<Rightarrow> bool \<times> nat \<times> Message list" where
  "broadcastBallPossession c lock max_team_robots has_ball ball_pos n shm =
     broadcast_loop c lock has_ball ball_pos [0..<max_team_robots] n shm"

text \<open>
  What \<open>player_plan\<close> reads in one cycle, beyond what the tactics read: the play mode
  \<open>getPlayMode(model)\<close>, the default-constructed \<open>PlayerTask task\<close>, and the results of the
  calls into \<open>Players\<close> and \<open>OppGoalie\<close> (\<open>getOrientation\<close>, \<open>canHoldBall\<close>, the task
  constructors, the shot evaluation). \<open>player_plan\<close> calls \<open>getPosition\<close>,
  \<open>getPlayerIds\<close>, \<open>isInOpponentHalf\<close> and \<open>getClosestPlayerToBall\<close> on the same helper
  classes as the tactics do; those are the fields of \<open>TacticView\<close>.
\<close>

record PlanView = TacticView +
  play_mode :: int
  default_task :: PlayerTask
  getOrientation :: "int \<Rightarrow> real"
  canHoldBall :: "int \<Rightarrow> bool"
  createMoveTask :: "int \<Rightarrow> point2f \<Rightarrow> PlayerTask"
  createShootTask :: "int \<Rightarrow> PlayerTask"
  createPassTask :: "int \<Rightarrow> int \<Rightarrow> PlayerTask"
  createDribbleTask :: "int \<Rightarrow> point2f \<Rightarrow> PlayerTask"
  evaluateShootingDifficulty :: "point2f \<Rightarrow> real"
  findBestShootingAngle :: "point2f \<Rightarrow> real"

definition PM_STOP :: int where
  "PM_STOP = 0"

text \<open>
  The parameter \<open>robot_id\<close> of \<open>player_plan\<close> and of the functions it calls is written
  \<open>self_id\<close>, \<open>robot_id\<close> being the member of \<open>Communication\<close>.

  The command of the stopped game and of the exception handler: stay where you are.
\<close>

definition hold_position :: "PlanView \<Rightarrow> int \<Rightarrow> PlayerTask" where
  "hold_position v self_id =
     (default_task v)\<lparr>target_pos := our_getPosition v self_id,
                      orientate := getOrientation v self_id\<rparr>"

text \<open>
  The test \<open>t && t->evaluate().score > threshold\<close>: the tactic when it is not null and
  scores above the threshold, null otherwise; \<open>evaluate()\<close> may throw.
\<close>

definition above_threshold :: "Tactic option \<Rightarrow> real \<Rightarrow> thrown + Tactic option" where
  "above_threshold t threshold =
     (case t of
        None \<Rightarrow> Inr None
      | Some tactic \<Rightarrow>
          (case evaluate tactic of
             Inl e \<Rightarrow> Inl e
           | Inr eval \<Rightarrow> Inr (if score eval > threshold then Some tactic else None)))"

text \<open>
  \<open>t = selectBestTactic(type)\<close> followed by the test \<open>t && t->evaluate().score > threshold\<close>.
\<close>

definition select_above :: "Tactic list \<Rightarrow> TacticType \<Rightarrow> real \<Rightarrow> thrown + Tactic option" where
  "select_above tactics ty threshold =
     (case selectBestTactic tactics ty of
        Inl e \<Rightarrow> Inl e
      | Inr best \<Rightarrow> above_threshold best threshold)"

text \<open>
  The exchange at the start of the \<open>try\<close> block: broadcast the possession flag, then
  read the freshest pass intention. It yields the message read and the slot table left.
\<close>

definition exchange_state :: "PlanView \<Rightarrow> Communication \<Rightarrow> (nat \<Rightarrow> bool) \<Rightarrow> Message list
    \<Rightarrow> int \<Rightarrow> Message \<times> Message list" where
  "exchange_state v comm lock shm self_id =
     (let ball_pos = position (ball_tools v);
          has_ball = canHoldBall v self_id;
          sent = broadcastBallPossession comm lock (MAX_TEAM_ROBOTS v) has_ball ball_pos 0 shm;
          shm1 = snd (snd sent);
          pass_msg = receiveMessage comm (lock (fst (snd sent))) shm1 PASS_INTENTION
      in (pass_msg, shm1))"

subsection \<open>robot2.cpp\<close>

fun find_pass_target :: "PlanView \<Rightarrow> int \<Rightarrow> int list \<Rightarrow> int" where
  "find_pass_target v self_id [] = - 1"
| "find_pass_target v self_id (pid # rest) =
     (if pid \<noteq> self_id \<and> our_isInOpponentHalf v pid then pid
      else find_pass_target v self_id rest)"

definition clamp_y :: "PlanView \<Rightarrow> point2f \<Rightarrow> point2f" where
  "clamp_y v p =
     (if py p < - FIELD_WIDTH_H v + 30.0 then p\<lparr>py := - FIELD_WIDTH_H v + 30.0\<rparr>
      else if py p > FIELD_WIDTH_H v - 30.0 then p\<lparr>py := FIELD_WIDTH_H v - 30.0\<rparr>
      else p)"

definition default_behavior2 :: "PlanView \<Rightarrow> int \<Rightarrow> point2f \<Rightarrow> point2f \<Rightarrow> PlayerTask" where
  "default_behavior2 v self_id ball_pos player_pos =
     (if self_id = getClosestPlayerToBall v then
        (if canHoldBall v self_id then
           (let goal_pos = point (FIELD_LENGTH_H v) 0;
                dist_to_goal = plength (psub player_pos goal_pos)
            in if dist_to_goal < 200 then createShootTask v self_id
               else
                 (let teammates = our_getPlayerIds v;
                      pass_target = find_pass_target v self_id teammates
                  in if pass_target \<ge> 0 then createPassTask v self_id pass_target
                     else
                       (let target0 = player_pos\<lparr>px := px player_pos + 100\<rparr>;
                            target = (if px target0 > FIELD_LENGTH_H v - 30.0
                                      then target0\<lparr>px := FIELD_LENGTH_H v - 30.0\<rparr>
                                      else target0)
                        in createDribbleTask v self_id target)))
         else createMoveTask v self_id ball_pos)
      else
        (let strategic_pos0 =
               (if \<not> isInOurHalf (ball_tools v) then
                  (let p = point (px ball_pos + 50) (py ball_pos * 0.7)
                   in if px p > FIELD_LENGTH_H v - 30.0
                      then p\<lparr>px := FIELD_LENGTH_H v - 30.0\<rparr> else p)
                else point (- FIELD_LENGTH_H v / 2 + 100) (py ball_pos * 0.5));
             strategic_pos = clamp_y v strategic_pos0
         in createMoveTask v self_id strategic_pos))"

text \<open>
  The tactic stages of the \<open>try\<close> block: special situation, transition, then attack or
  defense by the ball's half, each result null-checked; with no tactic, the default
  behaviour.
\<close>

definition plan_tactics2 :: "PlanView \<Rightarrow> Tactic list \<Rightarrow> int \<Rightarrow> point2f \<Rightarrow> point2f
    \<Rightarrow> thrown + PlayerTask" where
  "plan_tactics2 v tactics self_id ball_pos player_pos =
     (case select_above tactics SPECIAL_SITUATION 0.5 of
        Inl e \<Rightarrow> Inl e
      | Inr (Some special_tactic) \<Rightarrow> execute special_tactic self_id
      | Inr None \<Rightarrow>
     (case select_above tactics TRANSITION 0.7 of
        Inl e \<Rightarrow> Inl e
      | Inr (Some transition_tactic) \<Rightarrow> execute transition_tactic self_id
      | Inr None \<Rightarrow>
     (let tactic_type = (if isInOurHalf (ball_tools v) then DEFENSE else ATTACK)
      in case selectBestTactic tactics tactic_type of
           Inl e \<Rightarrow> Inl e
         | Inr (Some best_tactic) \<Rightarrow> execute best_tactic self_id
         | Inr None \<Rightarrow> Inr (default_behavior2 v self_id ball_pos player_pos))))"

text \<open>
  The \<open>try\<close> block: its outcome (a task, or what was thrown) and the slot table it leaves.
\<close>

definition plan_try2 :: "PlanView \<Rightarrow> Tactic list \<Rightarrow> Communication \<Rightarrow> (nat \<Rightarrow> bool)
    \<Rightarrow> Message list \<Rightarrow> int \<Rightarrow> (thrown + PlayerTask) \<times> Message list" where
  "plan_try2 v tactics comm lock shm self_id =
     (if play_mode v = PM_STOP then (Inr (hold_position v self_id), shm)
      else
        (let ball_pos = position (ball_tools v);
             player_pos = our_getPosition v self_id;
             exchanged = exchange_state v comm lock shm self_id;
             pass_msg = fst exchanged;
             shm1 = snd exchanged
         in if receiver_id pass_msg = self_id
            then (Inr (createMoveTask v self_id (msg_position pass_msg)), shm1)
            else (plan_tactics2 v tactics self_id ball_pos player_pos, shm1)))"

text \<open>
  \<open>player_plan\<close> of an initialised process: the \<open>try\<close> block under
  \<open>catch (const std::exception& e)\<close>. The handler stores the current position and
  orientation in \<open>task\<close>, which still is the default-constructed task because every
  assignment of a tactic's result to it follows the call that threw. A thrown object of
  another type passes the handler.
\<close>

definition player_plan2 :: "PlanView \<Rightarrow> Tactic list \<Rightarrow> Communication \<Rightarrow> (nat \<Rightarrow> bool)
    \<Rightarrow> Message list \<Rightarrow> int \<Rightarrow> (thrown + PlayerTask) \<times> Message list" where
  "player_plan2 v tactics comm lock shm self_id =
     (let tried = plan_try2 v tactics comm lock shm self_id
      in case fst tried of
           Inr task \<Rightarrow> (Inr task, snd tried)
         | Inl (StdException what) \<Rightarrow> (Inr (hold_position v self_id), snd tried)
         | Inl OtherThrow \<Rightarrow> (Inl OtherThrow, snd tried))"

subsection \<open>robot1.cpp\<close>

definition lookForShotOpportunity :: "PlanView \<Rightarrow> int \<Rightarrow> PlayerTask option" where
  "lookForShotOpportunity v self_id =
     (let player_pos = our_getPosition v self_id;
          goal_pos = point (FIELD_LENGTH_H v) 0;
          dist_to_goal = plength (psub player_pos goal_pos)
      in if dist_to_goal < 250 \<and> canHoldBall v self_id then
           (let shot_difficulty = evaluateShootingDifficulty v player_pos
            in if shot_difficulty < 6.0 then Some (createShootTask v self_id)
               else
                 (let best_angle = findBestShootingAngle v player_pos
                  in if best_angle \<noteq> 0.0 then
                       (let adjust_pos = padd player_pos
                                           (point 10 (if best_angle > 0 then 20 else - 20))
                        in Some (createDribbleTask v self_id adjust_pos))
                     else None))
         else None)"

text \<open>\<open>distanceToLine\<close> of robot1.cpp; for \<open>a = b\<close> the quotient is \<open>0 / 0\<close>.\<close>

definition distanceToLine1 :: "point2f \<Rightarrow> point2f \<Rightarrow> point2f \<Rightarrow> real" where
  "distanceToLine1 p a b =
     (let AB = psub b a;
          AP = psub p a;
          ab2 = px AB * px AB + py AB * py AB;
          ap_dot_ab = px AP * px AB + py AP * py AB;
          t = max 0.0 (min 1.0 (ap_dot_ab / ab2));
          closest = padd a (pscale AB t)
      in plength (psub p closest))"

fun clear_path_loop1 :: "PlanView \<Rightarrow> point2f \<Rightarrow> point2f \<Rightarrow> int list \<Rightarrow> bool" where
  "clear_path_loop1 v player_pos teammate_pos [] = True"
| "clear_path_loop1 v player_pos teammate_pos (opp_id # rest) =
     (let opp_pos = opp_getPosition v opp_id;
          dist_to_line = distanceToLine1 opp_pos player_pos teammate_pos
      in if dist_to_line < 25 then False
         else clear_path_loop1 v player_pos teammate_pos rest)"

definition pass_score_of :: "PlanView \<Rightarrow> point2f \<Rightarrow> int \<Rightarrow> real" where
  "pass_score_of v player_pos pid =
     (let teammate_pos = our_getPosition v pid;
          pass_score0 = 0.0;
          dist = plength (psub teammate_pos player_pos);
          pass_score1 = (if dist > 50 \<and> dist < 300 then pass_score0 + 3.0 else pass_score0 + 1.0);
          pass_score2 = (if our_isInOpponentHalf v pid then pass_score1 + 2.0 else pass_score1);
          goal_pos = point (FIELD_LENGTH_H v) 0;
          teammate_to_goal = plength (psub teammate_pos goal_pos);
          self_to_goal = plength (psub player_pos goal_pos);
          pass_score3 = (if teammate_to_goal < self_to_goal then pass_score2 + 2.0 else pass_score2);
          clear_path = clear_path_loop1 v player_pos teammate_pos (opp_getPlayerIds v);
          pass_score4 = (if clear_path then pass_score3 + 3.0 else pass_score3 - 2.0)
      in pass_score4)"

fun best_pass_loop :: "PlanView \<Rightarrow> int \<Rightarrow> point2f \<Rightarrow> int list \<Rightarrow> int \<times> real \<Rightarrow> int \<times> real" where
  "best_pass_loop v self_id player_pos [] best = best"
| "best_pass_loop v self_id player_pos (pid # rest) best =
     (if pid = self_id then best_pass_loop v self_id player_pos rest best
      else
        (let pass_score = pass_score_of v player_pos pid
         in if pass_score > snd best
            then best_pass_loop v self_id player_pos rest (pid, pass_score)
            else best_pass_loop v self_id player_pos rest best))"

definition lookForPassOpportunity :: "PlanView \<Rightarrow> int \<Rightarrow> PlayerTask option" where
  "lookForPassOpportunity v self_id =
     (let player_pos = our_getPosition v self_id
      in if canHoldBall v self_id then
           (let teammates = our_getPlayerIds v;
                best = best_pass_loop v self_id player_pos teammates (- 1, - 1);
                best_target = fst best;
                best_score = snd best
            in if best_target \<ge> 0 \<and> best_score > 5.0
               then Some (createPassTask v self_id best_target)
               else None)
         else None)"

fun avoid_opponents_loop :: "PlanView \<Rightarrow> int list \<Rightarrow> point2f \<Rightarrow> point2f" where
  "avoid_opponents_loop v [] target = target"
| "avoid_opponents_loop v (opp_id # rest) target =
     (let opp_pos = opp_getPosition v opp_id
      in if plength (psub opp_pos target) < 50 then
           (if py opp_pos > py target
            then avoid_opponents_loop v rest (target\<lparr>py := py target - 30\<rparr>)
            else avoid_opponents_loop v rest (target\<lparr>py := py target + 30\<rparr>))
         else avoid_opponents_loop v rest target)"

fun avoid_teammates_loop :: "PlanView \<Rightarrow> int \<Rightarrow> int list \<Rightarrow> point2f \<Rightarrow> point2f" where
  "avoid_teammates_loop v self_id [] strategic_pos = strategic_pos"
| "avoid_teammates_loop v self_id (pid # rest) strategic_pos =
     (if pid \<noteq> self_id then
        (let other_pos = our_getPosition v pid
         in if plength (psub other_pos strategic_pos) < 70 then
              (if py other_pos > py strategic_pos
               then avoid_teammates_loop v self_id rest
                      (strategic_pos\<lparr>py := py strategic_pos - 40\<rparr>)
               else avoid_teammates_loop v self_id rest
                      (strategic_pos\<lparr>py := py strategic_pos + 40\<rparr>))
            else avoid_teammates_loop v self_id rest strategic_pos)
      else avoid_teammates_loop v self_id rest strategic_pos)"

definition basic_behavior1 :: "PlanView \<Rightarrow> int \<Rightarrow> point2f \<Rightarrow> point2f \<Rightarrow> PlayerTask" where
  "basic_behavior1 v self_id ball_pos player_pos =
     (if self_id = getClosestPlayerToBall v then
        (if canHoldBall v self_id then
           (case lookForShotOpportunity v self_id of
              Some task \<Rightarrow> task
            | None \<Rightarrow>
           (case lookForPassOpportunity v self_id of
              Some task \<Rightarrow> task
            | None \<Rightarrow>
              (let target0 = player_pos\<lparr>px := px player_pos + 100\<rparr>;
                   target1 = (if px target0 > FIELD_LENGTH_H v - 30.0
                              then target0\<lparr>px := FIELD_LENGTH_H v - 30.0\<rparr>
                              else target0);
                   target = avoid_opponents_loop v (opp_getPlayerIds v) target1
               in createDribbleTask v self_id target)))
         else createMoveTask v self_id ball_pos)
      else
        (let strategic_pos0 =
               (if isInOpponentHalf (ball_tools v) then
                  (let p = point (px ball_pos + 80) (py ball_pos * 0.5);
                       q = (if px p > FIELD_LENGTH_H v - 50.0
                            then p\<lparr>px := FIELD_LENGTH_H v - 50.0\<rparr> else p)
                   in avoid_teammates_loop v self_id (our_getPlayerIds v) q)
                else point 0 (py ball_pos * 0.7));
             strategic_pos = clamp_y v strategic_pos0
         in createMoveTask v self_id strategic_pos))"

definition plan_tactics1 :: "PlanView \<Rightarrow> Tactic list \<Rightarrow> int \<Rightarrow> point2f \<Rightarrow> point2f
    \<Rightarrow> thrown + PlayerTask" where
  "plan_tactics1 v tactics self_id ball_pos player_pos =
     (case (if isInOurHalf (ball_tools v) \<and> px (velocity (ball_tools v)) > 50
            then above_threshold (getTacticByName tactics ''Counter Attack Tactic'') 0.6
            else Inr None) of
        Inl e \<Rightarrow> Inl e
      | Inr (Some counter_tactic) \<Rightarrow> execute counter_tactic self_id
      | Inr None \<Rightarrow>
     (case (if isInOpponentHalf (ball_tools v) then select_above tactics ATTACK 0.5
            else Inr None) of
        Inl e \<Rightarrow> Inl e
      | Inr (Some best_attack) \<Rightarrow> execute best_attack self_id
      | Inr None \<Rightarrow> Inr (basic_behavior1 v self_id ball_pos player_pos)))"

definition plan_try1 :: "PlanView \<Rightarrow> Tactic list \<Rightarrow> Communication \<Rightarrow> (nat \<Rightarrow> bool)
    \<Rightarrow> Message list \<Rightarrow> int \<Rightarrow> (thrown + PlayerTask) \<times> Message list" where
  "plan_try1 v tactics comm lock shm self_id =
     (if play_mode v = PM_STOP then (Inr (hold_position v self_id), shm)
      else
        (let ball_pos = position (ball_tools v);
             player_pos = our_getPosition v self_id;
             exchanged = exchange_state v comm lock shm self_id;
             pass_msg = fst exchanged;
             shm1 = snd exchanged
         in if receiver_id pass_msg = self_id
            then (Inr (createMoveTask v self_id (msg_position pass_msg)), shm1)
            else (plan_tactics1 v tactics self_id ball_pos player_pos, shm1)))"

definition player_plan1 :: "PlanView \<Rightarrow> Tactic list \<Rightarrow> Communication \<Rightarrow> (nat \<Rightarrow> bool)
    \<Rightarrow> Message list \<Rightarrow> int \<Rightarrow> (thrown + PlayerTask) \<times> Message list" where
  "player_plan1 v tactics comm lock shm self_id =
     (let tried = plan_try1 v tactics comm lock shm self_id
      in case fst tried of
           Inr task \<Rightarrow> (Inr task, snd tried)
         | Inl (StdException what) \<Rightarrow> (Inr (hold_position v self_id), snd tried)
         | Inl OtherThrow \<Rightarrow> (Inl OtherThrow, snd tried))"

text \<open>Whatever leaves the tactic stages was thrown by a registered tactic.\<close>

definition thrown_by :: "Tactic list \<Rightarrow> int \<Rightarrow> thrown \<Rightarrow> bool" where
  "thrown_by tactics self_id e \<longleftrightarrow>
     (\<exists>t \<in> set tactics. evaluate t = Inl e \<or> execute t self_id = Inl e)"

text \<open>
  A call that ends by throwing. And the condition under which the decision loop is
  studied below: what the registered tactics throw are \<open>std::exception\<close> objects. The
  tactics contain no \<open>throw\<close> statement; what their \<open>evaluate()\<close> and \<open>execute()\<close> can raise
  comes from the standard library (the description strings, the containers), whose
  exceptions all derive from \<open>std::exception\<close>.
\<close>

definition raises :: "thrown + 'a \<Rightarrow> bool" where
  "raises r = (case r of Inl e \<Rightarrow> True | Inr x \<Rightarrow> False)"

definition throws_only_std :: "Tactic list \<Rightarrow> int \<Rightarrow> bool" where
  "throws_only_std tactics self_id \<longleftrightarrow>
     (\<forall>t \<in> set tactics. evaluate t \<noteq> Inl OtherThrow \<and> execute t self_id \<noteq> Inl OtherThrow)"

section \<open>Concrete scenarios\<close>

text \<open>Values used by the worked examples below.\<close>

definition scenario_task :: PlayerTask where
  "scenario_task = \<lparr>target_pos = point 0 0, orientate = 0, needKick = False, kickPower = 0,
     isChipKick = False, isPass = False, needCb = False\<rparr>"

definition scenario_tactic :: "string \<Rightarrow> TacticType \<Rightarrow> real \<Rightarrow> Tactic" where
  "scenario_tactic name ty s =
     \<lparr>getName = name, getType = ty,
      evaluate = Inr \<lparr>score = s, description = []\<rparr>,
      execute = (\<lambda>robot_id. Inr (scenario_task\<lparr>orientate := s\<rparr>))\<rparr>"

text \<open>
  A view in which the ball is 125 in front of the opponent goal, our player 1 is 30 from
  the ball, both our players are in the opponent half, no opponent is tracked and the
  opponent goalie stands badly.
\<close>

definition scenario_view :: TacticView where
  "scenario_view =
     \<lparr>ball_tools = updateState (point 2900 0) (point 0 0),
      FIELD_LENGTH_H = 3025, FIELD_WIDTH_H = 2025, PENALTY_AREA_R = 800,
      MAX_TEAM_ROBOTS = 6,
      getClosestPlayerToBall = 1,
      distanceToBall = (\<lambda>pid. 30),
      our_getPlayerIds = [1, 2],
      our_getPosition = (\<lambda>pid. if pid = 1 then point 2870 0 else point 2000 500),
      our_isInOpponentHalf = (\<lambda>pid. True),
      opp_getPlayerIds = [],
      opp_getPosition = (\<lambda>pid. point 0 0),
      getThreatPlayers = [],
      evaluateDefensivePosition = 3,
      get_game_state = 99,
      get_ball_pos = point 2900 0,
      get_ball_vel = point 0 0,
      get_our_exist_id = (\<lambda>i. i = 1 \<or> i = 2),
      get_opp_exist_id = (\<lambda>i. False),
      get_our_player_pos = (\<lambda>i. if i = 1 then point 2870 0 else point 2000 500),
      get_opp_player_pos = (\<lambda>i. point 0 0)\<rparr>"

text \<open>
  An initialised process \<open>rid\<close> in cycle \<open>cycle\<close>, the zeroed table, and the table after
  robot 1 sent a pass intention to robot 3 in cycle 5 and robot 2 sent another one to
  robot 3 in cycle 6.
\<close>

definition scenario_comm :: "int \<Rightarrow> int \<Rightarrow> Communication" where
  "scenario_comm rid cycle =
     \<lparr>robot_id = rid, current_cycle = cycle, is_initialized = True,
      shared_memory_mapped = True\<rparr>"

definition scenario_empty_table :: "Message list" where
  "scenario_empty_table = replicate MAX_MESSAGES zero_slot"

definition scenario_first :: Message where
  "scenario_first =
     \<lparr>sender_id = 1, receiver_id = 3, msg_type = PASS_INTENTION, timestamp = 5,
      msg_position = point 50 50, msg_orientation = 0, data = []\<rparr>"

definition scenario_second :: Message where
  "scenario_second =
     \<lparr>sender_id = 2, receiver_id = 3, msg_type = PASS_INTENTION, timestamp = 6,
      msg_position = point 60 60, msg_orientation = 0, data = []\<rparr>"

definition scenario_table1 :: "Message list" where
  "scenario_table1 =
     snd (sendMessage (scenario_comm 1 5) True scenario_empty_table 3 PASS_INTENTION
            (point 50 50) 0 [])"

definition scenario_table2 :: "Message list" where
  "scenario_table2 =
     snd (sendMessage (scenario_comm 2 6) True scenario_table1 3 PASS_INTENTION
            (point 60 60) 0 [])"

text \<open>A later call: robot 2 reports ball possession to robot 4 in cycle 6.\<close>

definition scenario_later_call :: SendCall where
  "scenario_later_call =
     \<lparr>caller = scenario_comm 2 6, lock_acquired = True, to_receiver = 4,
      of_type = BALL_POSSESSION, at_position = point 10 10, at_orientation = 0,
      with_data = []\<rparr>"

text \<open>
  A tactic whose \<open>execute\<close> throws; a view for the decision loop with the ball at a given
  position, in normal play, in which player 1 is closest to the ball and does not hold
  it; and the catalog robot1.cpp registers, with some scores.
\<close>

definition scenario_throwing_tactic :: "string \<Rightarrow> TacticType \<Rightarrow> real \<Rightarrow> thrown \<Rightarrow> Tactic" where
  "scenario_throwing_tactic name ty s e =
     \<lparr>getName = name, getType = ty,
      evaluate = Inr \<lparr>score = s, description = []\<rparr>,
      execute = (\<lambda>self_id. Inl e)\<rparr>"

text \<open>A tactic whose \<open>evaluate\<close> throws.\<close>

definition scenario_unevaluable_tactic :: "string \<Rightarrow> TacticType \<Rightarrow> thrown \<Rightarrow> Tactic" where
  "scenario_unevaluable_tactic name ty e =
     \<lparr>getName = name, getType = ty,
      evaluate = Inl e,
      execute = (\<lambda>self_id. Inr scenario_task)\<rparr>"

definition scenario_plan_view :: "point2f \<Rightarrow> PlanView" where
  "scenario_plan_view ball_pos =
     \<lparr>ball_tools = updateState ball_pos (point 0 0),
      FIELD_LENGTH_H = 3025, FIELD_WIDTH_H = 2025, PENALTY_AREA_R = 800,
      MAX_TEAM_ROBOTS = 6,
      getClosestPlayerToBall = 1,
      distanceToBall = (\<lambda>pid. 300),
      our_getPlayerIds = [1, 2],
      our_getPosition = (\<lambda>pid. if pid = 1 then point 2870 0 else point 2000 500),
      our_isInOpponentHalf = (\<lambda>pid. True),
      opp_getPlayerIds = [],
      opp_getPosition = (\<lambda>pid. point 0 0),
      getThreatPlayers = [],
      evaluateDefensivePosition = 3,
      get_game_state = 99,
      get_ball_pos = ball_pos,
      get_ball_vel = point 0 0,
      get_our_exist_id = (\<lambda>i. i = 1 \<or> i = 2),
      get_opp_exist_id = (\<lambda>i. False),
      get_our_player_pos = (\<lambda>i. if i = 1 then point 2870 0 else point 2000 500),
      get_opp_player_pos = (\<lambda>i. point 0 0),
      play_mode = 99,
      default_task = scenario_task,
      getOrientation = (\<lambda>pid. 0),
      canHoldBall = (\<lambda>pid. False),
      createMoveTask = (\<lambda>pid p. scenario_task\<lparr>target_pos := p\<rparr>),
      createShootTask = (\<lambda>pid. scenario_task\<lparr>needKick := True\<rparr>),
      createPassTask = (\<lambda>pid target. scenario_task\<lparr>needKick := True, isPass := True\<rparr>),
      createDribbleTask = (\<lambda>pid p. scenario_task\<lparr>target_pos := p, needCb := True\<rparr>),
      evaluateShootingDifficulty = (\<lambda>p. 10),
      findBestShootingAngle = (\<lambda>p. 0)\<rparr>"

definition scenario_robot1_catalog :: "Tactic list" where
  "scenario_robot1_catalog =
     registerTactic (registerTactic (registerTactic (registerTactic []
       (scenario_tactic ''DirectAttack'' ATTACK 0.9))
       (scenario_tactic ''PassAndShoot'' ATTACK 0.5))
       (scenario_tactic ''WingAttack'' ATTACK 0.3))
       (scenario_tactic ''Counter Attack Tactic'' TRANSITION 0.4)"

section \<open>Facts about rounding and angles\<close>

lemma rint_unique:
  assumes "\<bar>v - of_int n\<bar> < 1 / 2"
  shows "rint v = of_int n"
proof (cases "of_int n \<le> v")
  case True
  with assms have "\<lfloor>v\<rfloor> = n" by (intro floor_unique) auto
  with assms True show ?thesis by (simp add: rint_def Let_def)
next
  case False
  with assms have "\<lfloor>v\<rfloor> = n - 1" by (intro floor_unique) auto
  with assms False show ?thesis by (simp add: rint_def Let_def)
qed

lemma rint_cases: "rint v = of_int \<lfloor>v\<rfloor> \<or> rint v = of_int (\<lfloor>v\<rfloor> + 1)"
  by (simp add: rint_def Let_def)

lemma rint_is_int: "\<exists>n::int. rint v = of_int n"
  using rint_cases [of v] by blast

lemma rint_near: "\<bar>v - rint v\<bar> \<le> 1 / 2"
proof -
  have "of_int \<lfloor>v\<rfloor> \<le> v" "v < of_int \<lfloor>v\<rfloor> + 1" by linarith+
  then show ?thesis by (auto simp: rint_def Let_def)
qed

lemma anglemod_small:
  assumes "\<bar>a\<bar> < pi"
  shows "anglemod a = a"
proof -
  have "\<bar>a / (2 * pi) - of_int 0\<bar> < 1 / 2"
    using assms pi_gt_zero by (simp add: field_simps abs_if split: if_splits)
  then have "rint (a / (2 * pi)) = of_int 0" by (rule rint_unique)
  then show ?thesis by (simp add: anglemod_def M_2PI_def)
qed

lemma anglemod_bound: "\<bar>anglemod a\<bar> \<le> pi"
proof -
  have "\<bar>a / (2 * pi) - rint (a / (2 * pi))\<bar> \<le> 1 / 2" by (rule rint_near)
  then have "\<bar>a / (2 * pi) - rint (a / (2 * pi))\<bar> * (2 * pi) \<le> 1 / 2 * (2 * pi)"
    using pi_gt_zero by (intro mult_right_mono) auto
  moreover have "\<bar>a / (2 * pi) - rint (a / (2 * pi))\<bar> * (2 * pi) = \<bar>a - 2 * pi * rint (a / (2 * pi))\<bar>"
    using pi_gt_zero by (simp add: abs_mult_pos' field_simps flip: abs_mult_pos)
  ultimately show ?thesis by (simp add: anglemod_def M_2PI_def)
qed

lemma dir_unit: "cos t * cos t + sin t * sin t = (1::real)"
  using sin_cos_squared_add2 [of t] by (simp add: power2_eq_square)

section \<open>Ball prediction\<close>

lemma predictPositionK_moving:
  assumes "1 \<le> speed b"
  shows "predictPositionK k b t =
     padd (position b) (pscale (point (cos (direction b)) (sin (direction b)))
       (if t \<ge> speed b / k then 0.5 * speed b * (speed b / k)
        else speed b * t - 0.5 * k * t * t))"
  using assms by (simp add: predictPositionK_def Let_def)

lemma predictPositionK_still:
  assumes "speed b < 1"
  shows "predictPositionK k b t = position b"
  using assms by (simp add: predictPositionK_def)

lemma displacementK_moving:
  assumes "1 \<le> speed b"
  shows "displacementK k b t =
     (if t \<ge> speed b / k then 0.5 * speed b * (speed b / k)
      else speed b * t - 0.5 * k * t * t)"
proof -
  define d where "d = (if t \<ge> speed b / k then 0.5 * speed b * (speed b / k)
      else speed b * t - 0.5 * k * t * t)"
  have "predictPositionK k b t =
      padd (position b) (pscale (point (cos (direction b)) (sin (direction b))) d)"
    unfolding d_def by (rule predictPositionK_moving [OF assms])
  then have "displacementK k b t =
      cos (direction b) * d * cos (direction b) + sin (direction b) * d * sin (direction b)"
    by (simp add: displacementK_def padd_def pscale_def point_def)
  also have "\<dots> = (cos (direction b) * cos (direction b) + sin (direction b) * sin (direction b)) * d"
    by (simp only: distrib_left distrib_right mult_ac)
  also have "\<dots> = d" by (simp only: dir_unit mult_1)
  finally show ?thesis by (simp only: d_def)
qed

lemma displacementK_still:
  assumes "speed b < 1"
  shows "displacementK k b t = 0"
  using assms by (simp add: displacementK_def predictPositionK_still)

lemma displacementK_min:
  assumes "1 \<le> speed b" "0 < k"
  shows "displacementK k b t =
     speed b * min t (speed b / k) - 0.5 * k * min t (speed b / k) * min t (speed b / k)"
proof (cases "t \<ge> speed b / k")
  case True
  then have "min t (speed b / k) = speed b / k" by simp
  with True assms show ?thesis
    by (simp add: displacementK_moving field_simps)
next
  case False
  then have "min t (speed b / k) = t" by simp
  with False assms show ?thesis
    by (simp add: displacementK_moving)
qed

lemma displacementK_cont:
  assumes "0 < k"
  shows "isCont (displacementK k b) a"
proof (cases "speed b < 1")
  case True
  then have "displacementK k b = (\<lambda>t. 0)"
    by (auto simp: displacementK_still)
  then show ?thesis by simp
next
  case False
  then have "displacementK k b =
      (\<lambda>t. speed b * min t (speed b / k) - 0.5 * k * min t (speed b / k) * min t (speed b / k))"
    using assms by (auto simp: displacementK_min)
  then show ?thesis by (simp only:) (intro continuous_intros)
qed

lemma displacementK_mono:
  assumes "0 < k" "t1 \<le> t2" "t2 \<le> speed b / k"
  shows "displacementK k b t1 \<le> displacementK k b t2"
proof (cases "speed b < 1")
  case True
  then show ?thesis by (simp add: displacementK_still)
next
  case False
  then have s: "1 \<le> speed b" by simp
  have m1: "min t1 (speed b / k) = t1" and m2: "min t2 (speed b / k) = t2"
    using assms by auto
  have "k * t2 \<le> speed b"
    using assms by (simp add: field_simps)
  moreover have "k * t1 \<le> k * t2"
    using assms by (intro mult_left_mono) auto
  ultimately have "k * t1 \<le> speed b" "k * t2 \<le> speed b" by auto
  then have "0 \<le> speed b - 0.5 * k * (t1 + t2)" by (simp add: algebra_simps)
  then have "0 \<le> (t2 - t1) * (speed b - 0.5 * k * (t1 + t2))"
    using assms(2) by (intro mult_nonneg_nonneg) auto
  also have "\<dots> = (speed b * t2 - 0.5 * k * t2 * t2) - (speed b * t1 - 0.5 * k * t1 * t1)"
    by (simp add: field_simps)
  finally show ?thesis
    by (simp add: displacementK_min [OF s assms(1)] m1 m2)
qed

lemma displacementK_const:
  assumes "0 < k" "speed b / k \<le> t"
  shows "displacementK k b t = displacementK k b (speed b / k)"
proof (cases "speed b < 1")
  case True
  then show ?thesis by (simp add: displacementK_still)
next
  case False
  then have s: "1 \<le> speed b" by simp
  show ?thesis using assms by (simp add: displacementK_moving [OF s])
qed

text \<open>
  Claim C1. For a ball whose speed is at least the stationary threshold 1.0,
  \<open>predictPosition\<close> returns the current position moved along the current heading by
  \<open>speed * t - 0.5 * k * t\<^sup>2\<close> when \<open>t\<close> is below the stopping time \<open>speed / k\<close> and by the
  resting displacement \<open>0.5 * speed * (speed / k)\<close> from the stopping time on, with
  \<open>k = 0.03\<close>; below the threshold it returns the current position. For a ball at the
  origin with velocity \<open>(100, 0)\<close> the prediction for one second is \<open>(99.985, 0)\<close>.
\<close>

theorem C1_predictPosition_closed_form:
  "(1 \<le> speed b \<longrightarrow> t < speed b / 0.03 \<longrightarrow>
      predictPosition b t =
        padd (position b) (pscale (point (cos (direction b)) (sin (direction b)))
          (speed b * t - 0.5 * 0.03 * t\<^sup>2)))
   \<and> (1 \<le> speed b \<longrightarrow> speed b / 0.03 \<le> t \<longrightarrow>
      predictPosition b t =
        padd (position b) (pscale (point (cos (direction b)) (sin (direction b)))
          (0.5 * speed b * (speed b / 0.03))))
   \<and> (speed b < 1 \<longrightarrow> predictPosition b t = position b)
   \<and> predictPosition (updateState (point 0 0) (point 100 0)) 1 = point 99.985 0"
proof (intro conjI impI)
  assume "1 \<le> speed b" "t < speed b / 0.03"
  then show "predictPosition b t =
        padd (position b) (pscale (point (cos (direction b)) (sin (direction b)))
          (speed b * t - 0.5 * 0.03 * t\<^sup>2))"
    by (simp add: predictPosition_def predictPositionK_moving power2_eq_square mult.assoc)
next
  assume "1 \<le> speed b" "speed b / 0.03 \<le> t"
  then show "predictPosition b t =
        padd (position b) (pscale (point (cos (direction b)) (sin (direction b)))
          (0.5 * speed b * (speed b / 0.03)))"
    by (simp add: predictPosition_def predictPositionK_moving)
next
  assume "speed b < 1"
  then show "predictPosition b t = position b"
    by (simp add: predictPosition_def predictPositionK_still)
next
  show "predictPosition (updateState (point 0 0) (point 100 0)) 1 = point 99.985 0"
    by (simp add: predictPosition_def predictPositionK_def updateState_def point_def
        plength_def pangle_def atan2_def padd_def pscale_def)
qed

theorem C1_predictPosition_witness:
  "1 \<le> speed (updateState (point 0 0) (point 100 0))
   \<and> (1::real) < speed (updateState (point 0 0) (point 100 0)) / 0.03
   \<and> predictPosition (updateState (point 0 0) (point 100 0)) 1 =
        padd (point 0 0) (pscale (point 1 0) 99.985)"
  using C1_predictPosition_closed_form [of "updateState (point 0 0) (point 100 0)" 1]
  by (simp add: updateState_def point_def plength_def pangle_def atan2_def)

text \<open>
  Claim C7. For every speed \<open>s \<ge> 0\<close> and every coefficient \<open>k > 0\<close> the displacement
  computed by the prediction is continuous at the stopping time \<open>s / k\<close>, does not
  decrease in \<open>t\<close> up to the stopping time and is constant from the stopping time on.
\<close>

theorem C7_displacement_shape:
  assumes "0 \<le> speed b" and "0 < k"
  shows "isCont (displacementK k b) (speed b / k)
    \<and> (\<forall>t1 t2. t1 \<le> t2 \<and> t2 \<le> speed b / k \<longrightarrow> displacementK k b t1 \<le> displacementK k b t2)
    \<and> (\<forall>t. speed b / k \<le> t \<longrightarrow> displacementK k b t = displacementK k b (speed b / k))"
  using assms(2) displacementK_cont displacementK_mono displacementK_const by blast

theorem C7_displacement_shape_witness:
  "0 \<le> speed (updateState (point 0 0) (point 3 0)) \<and> (0::real) < 3 / 100
   \<and> isCont (displacementK (3 / 100) (updateState (point 0 0) (point 3 0))) 100
   \<and> displacementK (3 / 100) (updateState (point 0 0) (point 3 0)) 10
        \<le> displacementK (3 / 100) (updateState (point 0 0) (point 3 0)) 20
   \<and> displacementK (3 / 100) (updateState (point 0 0) (point 3 0)) 500
        = displacementK (3 / 100) (updateState (point 0 0) (point 3 0)) 100"
proof -
  let ?b = "updateState (point 0 0) (point 3 0)"
  have s: "speed ?b = 3" by (simp add: updateState_def point_def plength_def)
  have h1: "0 \<le> speed ?b" and h2: "(0::real) < 3 / 100" by (simp_all add: s)
  note w = C7_displacement_shape [OF h1 h2]
  have sk: "speed ?b / (3 / 100) = 100" by (simp add: s)
  from w have "isCont (displacementK (3 / 100) ?b) 100" by (simp only: sk)
  moreover from w have "displacementK (3 / 100) ?b 10 \<le> displacementK (3 / 100) ?b 20"
    unfolding sk by (elim conjE allE [of _ 10] allE [of _ 20]) simp
  moreover from w have "displacementK (3 / 100) ?b 500 = displacementK (3 / 100) ?b 100"
    unfolding sk by (elim conjE allE [of _ 500]) simp
  ultimately show ?thesis using h1 h2 by blast
qed

section \<open>Time to reach a target\<close>

lemma predictTimeToPositionK_still:
  assumes "speed b < 1"
  shows "predictTimeToPositionK k b target = - 1"
  using assms by (simp add: predictTimeToPositionK_def)

lemma predictTimeToPositionK_far:
  assumes "plength (psub target (position b)) > 0.5 * speed b * speed b / k"
  shows "predictTimeToPositionK k b target = - 1"
  using assms by (simp add: predictTimeToPositionK_def Let_def)

lemma plength_nonneg: "0 \<le> plength a"
  by (simp add: plength_def)

text \<open>
  Within the maximum travel distance the discriminant is not negative, the root
  \<open>t1\<close> is positive, and the root \<open>t2\<close> is positive exactly when the target is not the
  ball's own position.
\<close>

lemma reach_roots:
  fixes s k d :: real
  assumes s: "1 \<le> s" and k: "0 < k" and d0: "0 \<le> d" and dmax: "d \<le> 0.5 * s * s / k"
  defines "delta \<equiv> (- s) * (- s) - 4 * (0.5 * k) * d"
  shows "0 \<le> delta" and "sqrt delta \<le> s"
    and "0 < (- (- s) + sqrt delta) / (2 * (0.5 * k))"
    and "0 < d \<Longrightarrow> sqrt delta < s"
    and "d = 0 \<Longrightarrow> sqrt delta = s"
proof -
  have "2 * k * d \<le> s * s"
    using dmax k by (simp add: field_simps)
  then show d1: "0 \<le> delta" by (simp add: delta_def)
  have "delta \<le> s * s" using k d0 by (simp add: delta_def)
  then have "sqrt delta \<le> sqrt (s * s)" by (rule real_sqrt_le_mono)
  then show d2: "sqrt delta \<le> s" using s by simp
  have "0 \<le> sqrt delta" using d1 by simp
  with s have "0 < s + sqrt delta" by linarith
  then show "0 < (- (- s) + sqrt delta) / (2 * (0.5 * k))"
    using k by (simp add: field_simps)
  {
    assume "0 < d"
    then have "delta < s * s" using k by (simp add: delta_def)
    then have "sqrt delta < sqrt (s * s)" by (rule real_sqrt_less_mono)
    then show "sqrt delta < s" using s by simp
  }
  {
    assume "d = 0"
    then have "delta = s * s" by (simp add: delta_def)
    then show "sqrt delta = s" using s by simp
  }
qed

lemma predictTimeToPositionK_near:
  assumes s: "1 \<le> speed b" and k: "0 < k"
    and d0: "0 < plength (psub target (position b))"
    and dmax: "plength (psub target (position b)) \<le> 0.5 * speed b * speed b / k"
  shows "predictTimeToPositionK k b target =
     (speed b - sqrt (speed b * speed b - 2 * k * plength (psub target (position b)))) / k"
proof -
  define d where "d = plength (psub target (position b))"
  define delta where "delta = (- speed b) * (- speed b) - 4 * (0.5 * k) * d"
  have dd: "0 \<le> d" "0 < d" "d \<le> 0.5 * speed b * speed b / k"
    using d0 dmax by (simp_all add: d_def)
  note r = reach_roots [OF s k dd(1) dd(3), folded delta_def]
  have lt: "sqrt delta < speed b" using r(4) dd(2) by simp
  have t1: "0 < (- (- speed b) + sqrt delta) / (2 * (0.5 * k))" by (rule r(3))
  have t2: "0 < (- (- speed b) - sqrt delta) / (2 * (0.5 * k))"
    using lt k by (simp add: field_simps)
  have le: "(- (- speed b) - sqrt delta) / (2 * (0.5 * k)) \<le> (- (- speed b) + sqrt delta) / (2 * (0.5 * k))"
    using r(1) k by (simp add: field_simps)
  have "predictTimeToPositionK k b target = (- (- speed b) - sqrt delta) / (2 * (0.5 * k))"
    using s dd(3) r(1) t1 t2 le
    unfolding predictTimeToPositionK_def Let_def d_def [symmetric] delta_def [symmetric]
    by (simp add: min_def)
  also have "\<dots> = (speed b - sqrt (speed b * speed b - 2 * k * d)) / k"
    by (simp add: delta_def)
  finally show ?thesis by (simp only: d_def)
qed

lemma predictTimeToPositionK_at_ball:
  assumes s: "1 \<le> speed b" and k: "0 < k"
    and d0: "plength (psub target (position b)) = 0"
  shows "predictTimeToPositionK k b target = 2 * speed b / k"
proof -
  define d where "d = plength (psub target (position b))"
  define delta where "delta = (- speed b) * (- speed b) - 4 * (0.5 * k) * d"
  have dd: "0 \<le> d" "d = 0" "d \<le> 0.5 * speed b * speed b / k"
    using d0 s k by (simp_all add: d_def)
  note r = reach_roots [OF s k dd(1) dd(3), folded delta_def]
  have eq: "sqrt delta = speed b" using r(5) dd(2) by simp
  have "predictTimeToPositionK k b target = (- (- speed b) + sqrt delta) / (2 * (0.5 * k))"
    using s dd(3) r(1) k
    unfolding predictTimeToPositionK_def Let_def d_def [symmetric] delta_def [symmetric]
    by (simp add: eq)
  then show ?thesis by (simp add: eq)
qed

lemma quadratic_roots:
  fixes s k d r u :: real
  assumes k: "0 < k" and r: "r * r = s * s - 2 * k * d"
    and u: "0.5 * k * u * u - s * u + d = 0"
  shows "u = (s - r) / k \<or> u = (s + r) / k"
proof -
  have "(u * k - (s - r)) * (u * k - (s + r)) = 2 * k * (0.5 * k * u * u - s * u + d) + (s * s - r * r - 2 * k * d)"
    by (simp add: algebra_simps)
  also have "\<dots> = 0"
  proof -
    have e1: "s * s - r * r - 2 * k * d = 0" using r by simp
    have e2: "2 * k * (0.5 * k * u * u - s * u + d) = 0" by (simp only: u mult_zero_right)
    show ?thesis by (simp only: e1 e2 add_0)
  qed
  finally have "u * k = s - r \<or> u * k = s + r" by auto
  then show ?thesis using k by (auto simp: field_simps)
qed

lemma quadratic_at_root:
  fixes s k d r :: real
  assumes k: "0 < k" and r: "r * r = s * s - 2 * k * d"
  shows "0.5 * k * ((s - r) / k) * ((s - r) / k) - s * ((s - r) / k) + d = 0"
proof -
  have "0.5 * k * ((s - r) / k) * ((s - r) / k) - s * ((s - r) / k) + d
      = (0.5 * (s - r) * (s - r) - s * (s - r) + k * d) / k"
    using k by (simp add: field_simps)
  also have "0.5 * (s - r) * (s - r) - s * (s - r) + k * d = 0.5 * (r * r - s * s + 2 * k * d)"
    by (simp add: field_simps)
  also have "\<dots> = 0" using r by simp
  finally show ?thesis by simp
qed

lemma reach_time_properties:
  assumes s: "1 \<le> speed b" and k: "0 < k"
    and d0: "0 < plength (psub target (position b))"
    and dmax: "plength (psub target (position b)) \<le> 0.5 * speed b * speed b / k"
  defines "d \<equiv> plength (psub target (position b))"
  defines "t \<equiv> predictTimeToPositionK k b target"
  shows "0 < t" and "t \<le> speed b / k"
    and "0.5 * k * t * t - speed b * t + d = 0"
    and "\<And>u. 0 < u \<Longrightarrow> 0.5 * k * u * u - speed b * u + d = 0 \<Longrightarrow> t \<le> u"
    and "displacementK k b t = d"
proof -
  define r where "r = sqrt (speed b * speed b - 2 * k * d)"
  have dd: "0 \<le> d" "0 < d" "d \<le> 0.5 * speed b * speed b / k"
    using d0 dmax by (simp_all add: d_def)
  have delta: "(- speed b) * (- speed b) - 4 * (0.5 * k) * d = speed b * speed b - 2 * k * d"
    by simp
  note rr = reach_roots [OF s k dd(1) dd(3), unfolded delta, folded r_def]
  have r0: "0 \<le> r" using rr(1) by (simp add: r_def)
  have rsq: "r * r = speed b * speed b - 2 * k * d"
    using rr(1) by (simp add: r_def)
  have rlt: "r < speed b" using rr(4) dd(2) by simp
  have t: "t = (speed b - r) / k"
    unfolding t_def r_def d_def by (rule predictTimeToPositionK_near [OF s k d0 dmax])
  show tpos: "0 < t" using rlt k by (simp add: t)
  show tle: "t \<le> speed b / k" using r0 k by (simp add: t field_simps)
  show q: "0.5 * k * t * t - speed b * t + d = 0"
    unfolding t by (rule quadratic_at_root [OF k rsq])
  {
    fix u assume "0 < u" and "0.5 * k * u * u - speed b * u + d = 0"
    then have "u = (speed b - r) / k \<or> u = (speed b + r) / k"
      using quadratic_roots [OF k rsq] by blast
    moreover have "(speed b - r) / k \<le> (speed b + r) / k"
      using r0 k by (simp add: field_simps)
    ultimately show "t \<le> u" by (auto simp: t)
  }
  show "displacementK k b t = d"
  proof (cases "t \<ge> speed b / k")
    case True
    with tle have "t = speed b / k" by simp
    then have "r = 0" using k by (simp add: t field_simps)
    then have "2 * k * d = speed b * speed b" using rsq by simp
    then have "d = 0.5 * speed b * (speed b / k)" using k by (simp add: field_simps)
    then show ?thesis using True by (simp add: displacementK_moving [OF s])
  next
    case False
    then show ?thesis using q by (simp add: displacementK_moving [OF s])
  qed
qed

text \<open>
  Claim C2, as stated, fails: a ball below the stationary threshold gets the sentinel for
  every target, also for one within \<open>0.5 * speed\<^sup>2 / k\<close>; and for a moving ball whose
  target is its own position the returned time is \<open>2 * speed / k\<close>, where the predicted
  displacement is the resting displacement and not the distance \<open>0\<close>.
\<close>

theorem C2_sentinel_counterexample:
  "predictTimeToPosition (updateState (point 0 0) (point (1 / 2) 0)) (point 1 0) = - 1
   \<and> \<not> (plength (psub (point 1 0) (position (updateState (point 0 0) (point (1 / 2) 0))))
         > 0.5 * (speed (updateState (point 0 0) (point (1 / 2) 0)))\<^sup>2 / 0.03)
   \<and> predictTimeToPosition (updateState (point 0 0) (point 3 0)) (point 0 0) = 200
   \<and> displacementK 0.03 (updateState (point 0 0) (point 3 0)) 200 = 150"
proof (intro conjI)
  show "predictTimeToPosition (updateState (point 0 0) (point (1 / 2) 0)) (point 1 0) = - 1"
    by (simp add: predictTimeToPosition_def predictTimeToPositionK_def updateState_def
        point_def plength_def)
  show "\<not> (plength (psub (point 1 0) (position (updateState (point 0 0) (point (1 / 2) 0))))
         > 0.5 * (speed (updateState (point 0 0) (point (1 / 2) 0)))\<^sup>2 / 0.03)"
    by (simp add: updateState_def point_def plength_def psub_def power2_eq_square)
  have s: "speed (updateState (point 0 0) (point 3 0)) = 3"
    by (simp add: updateState_def point_def plength_def)
  have "plength (psub (point 0 0) (position (updateState (point 0 0) (point 3 0)))) = 0"
    by (simp add: updateState_def point_def plength_def psub_def)
  then show "predictTimeToPosition (updateState (point 0 0) (point 3 0)) (point 0 0) = 200"
    unfolding predictTimeToPosition_def
    by (subst predictTimeToPositionK_at_ball) (simp_all add: s)
  show "displacementK 0.03 (updateState (point 0 0) (point 3 0)) 200 = 150"
    by (subst displacementK_moving) (simp_all add: s)
qed

text \<open>
  Claim C2, amended. A ball below the stationary threshold 1.0 gets the sentinel \<open>-1\<close>
  for every target. For a ball at or above the threshold the sentinel is returned exactly
  when the distance to the target exceeds \<open>0.5 * speed\<^sup>2 / k\<close>; and when the distance is
  positive and within that bound the result is a positive time, at most the stopping time,
  that solves \<open>0.5 * k * t\<^sup>2 - speed * t + distance = 0\<close>, is the smallest positive
  solution, and at which the predicted displacement equals the distance (\<open>k = 0.03\<close>).
\<close>

theorem C2_predictTimeToPosition_amended:
  "(speed b < 1 \<longrightarrow> predictTimeToPosition b target = - 1)
   \<and> (1 \<le> speed b \<longrightarrow>
        (predictTimeToPosition b target = - 1
          \<longleftrightarrow> plength (psub target (position b)) > 0.5 * (speed b)\<^sup>2 / 0.03))
   \<and> (1 \<le> speed b \<and> 0 < plength (psub target (position b))
        \<and> plength (psub target (position b)) \<le> 0.5 * (speed b)\<^sup>2 / 0.03 \<longrightarrow>
        0 < predictTimeToPosition b target
        \<and> predictTimeToPosition b target \<le> speed b / 0.03
        \<and> 0.5 * 0.03 * (predictTimeToPosition b target)\<^sup>2
            - speed b * predictTimeToPosition b target
            + plength (psub target (position b)) = 0
        \<and> (\<forall>u. 0 < u \<and> 0.5 * 0.03 * u\<^sup>2 - speed b * u + plength (psub target (position b)) = 0
              \<longrightarrow> predictTimeToPosition b target \<le> u)
        \<and> displacementK 0.03 b (predictTimeToPosition b target)
            = plength (psub target (position b))
        \<and> predictPosition b (predictTimeToPosition b target)
            = padd (position b) (pscale (point (cos (direction b)) (sin (direction b)))
                (plength (psub target (position b)))))"
proof (intro conjI impI)
  assume "speed b < 1"
  then show "predictTimeToPosition b target = - 1"
    by (simp add: predictTimeToPosition_def predictTimeToPositionK_still)
next
  assume s: "1 \<le> speed b"
  show "predictTimeToPosition b target = - 1
          \<longleftrightarrow> plength (psub target (position b)) > 0.5 * (speed b)\<^sup>2 / 0.03"
  proof
    assume far: "plength (psub target (position b)) > 0.5 * (speed b)\<^sup>2 / 0.03"
    then show "predictTimeToPosition b target = - 1"
      unfolding predictTimeToPosition_def
      by (intro predictTimeToPositionK_far) (simp add: power2_eq_square)
  next
    assume m: "predictTimeToPosition b target = - 1"
    show "plength (psub target (position b)) > 0.5 * (speed b)\<^sup>2 / 0.03"
    proof (rule ccontr)
      assume "\<not> plength (psub target (position b)) > 0.5 * (speed b)\<^sup>2 / 0.03"
      then have dmax: "plength (psub target (position b)) \<le> 0.5 * speed b * speed b / 0.03"
        by (simp add: power2_eq_square)
      have "0 < predictTimeToPosition b target"
      proof (cases "plength (psub target (position b)) = 0")
        case True
        then show ?thesis
          unfolding predictTimeToPosition_def
          using s by (simp add: predictTimeToPositionK_at_ball)
      next
        case False
        then have "0 < plength (psub target (position b))"
          using plength_nonneg [of "psub target (position b)"] by simp
        then show ?thesis
          unfolding predictTimeToPosition_def
          using reach_time_properties(1) [OF s _ _ dmax] by simp
      qed
      with m show False by simp
    qed
  qed
next
  assume a: "1 \<le> speed b \<and> 0 < plength (psub target (position b))
        \<and> plength (psub target (position b)) \<le> 0.5 * (speed b)\<^sup>2 / 0.03"
  then have s: "1 \<le> speed b" and d0: "0 < plength (psub target (position b))"
    and dmax: "plength (psub target (position b)) \<le> 0.5 * speed b * speed b / 0.03"
    by (simp_all add: power2_eq_square)
  have k: "(0::real) < 0.03" by simp
  note p = reach_time_properties [OF s k d0 dmax, folded predictTimeToPosition_def]
  show "0 < predictTimeToPosition b target" by (rule p(1))
  show "predictTimeToPosition b target \<le> speed b / 0.03" by (rule p(2))
  show "0.5 * 0.03 * (predictTimeToPosition b target)\<^sup>2
            - speed b * predictTimeToPosition b target
            + plength (psub target (position b)) = 0"
    using p(3) by (simp add: power2_eq_square mult.assoc)
  show "\<forall>u. 0 < u \<and> 0.5 * 0.03 * u\<^sup>2 - speed b * u + plength (psub target (position b)) = 0
              \<longrightarrow> predictTimeToPosition b target \<le> u"
  proof (intro allI impI)
    fix u :: real
    assume "0 < u \<and> 0.5 * 0.03 * u\<^sup>2 - speed b * u + plength (psub target (position b)) = 0"
    then have "0 < u" and "0.5 * 0.03 * u * u - speed b * u + plength (psub target (position b)) = 0"
      by (simp_all add: power2_eq_square mult.assoc)
    then show "predictTimeToPosition b target \<le> u" by (rule p(4))
  qed
  show disp: "displacementK 0.03 b (predictTimeToPosition b target)
            = plength (psub target (position b))" by (rule p(5))
  have "predictPosition b (predictTimeToPosition b target) =
      padd (position b) (pscale (point (cos (direction b)) (sin (direction b)))
        (displacementK 0.03 b (predictTimeToPosition b target)))"
    unfolding predictPosition_def
    by (simp only: predictPositionK_moving [OF s] displacementK_moving [OF s])
  then show "predictPosition b (predictTimeToPosition b target)
            = padd (position b) (pscale (point (cos (direction b)) (sin (direction b)))
                (plength (psub target (position b))))"
    by (simp only: disp)
qed

theorem C2_predictTimeToPosition_witness:
  "1 \<le> speed (updateState (point 0 0) (point 3 0))
   \<and> 0 < plength (psub (point 150 0) (position (updateState (point 0 0) (point 3 0))))
   \<and> plength (psub (point 150 0) (position (updateState (point 0 0) (point 3 0))))
        \<le> 0.5 * (speed (updateState (point 0 0) (point 3 0)))\<^sup>2 / 0.03
   \<and> 0 < predictTimeToPosition (updateState (point 0 0) (point 3 0)) (point 150 0)
   \<and> displacementK 0.03 (updateState (point 0 0) (point 3 0))
        (predictTimeToPosition (updateState (point 0 0) (point 3 0)) (point 150 0)) = 150"
proof -
  let ?b = "updateState (point 0 0) (point 3 0)"
  have s: "speed ?b = 3" by (simp add: updateState_def point_def plength_def)
  have d: "plength (psub (point 150 0) (position ?b)) = 150"
    by (simp add: updateState_def point_def plength_def psub_def)
  have h: "1 \<le> speed ?b \<and> 0 < plength (psub (point 150 0) (position ?b))
      \<and> plength (psub (point 150 0) (position ?b)) \<le> 0.5 * (speed ?b)\<^sup>2 / 0.03"
    by (simp add: s d)
  from C2_predictTimeToPosition_amended [of ?b "point 150 0"] h
  have "0 < predictTimeToPosition ?b (point 150 0)
      \<and> displacementK 0.03 ?b (predictTimeToPosition ?b (point 150 0))
          = plength (psub (point 150 0) (position ?b))"
    by blast
  with h show ?thesis by (simp only: d)
qed

section \<open>Directional predicates\<close>

lemma isMovingTowards_code:
  "isMovingTowards b d tolerance \<longleftrightarrow> speed b > 10 \<and> 0 < tolerance"
proof -
  have "anglemod (d - d) = 0"
    using anglemod_small [of 0] by simp
  then show ?thesis by (simp add: isMovingTowards_def isMoving_def)
qed

lemma isMovingTowardsTarget_code:
  "isMovingTowardsTarget b target tolerance \<longleftrightarrow> speed b > 10 \<and> 0 < tolerance"
  by (auto simp: isMovingTowardsTarget_def isMovingTowards_code isMoving_def Let_def)

text \<open>
  The sibling predicate of 1/ball.h compares the ball's heading with the bearing of the
  target, as the documentation of both says.
\<close>

lemma isMovingToward_Ball:
  "isMovingToward b target tol \<longleftrightarrow>
     \<not> ball_speed b < 5 \<and>
     \<bar>anglemod (pangle (ball_velocity b) - pangle (psub target (current_pos b)))\<bar> < tol"
  by (auto simp: isMovingToward_def isStationary_def getDirection_def Let_def)

lemma isMovingToward_Ball_stationary:
  "ball_speed b < 5 \<Longrightarrow> \<not> isMovingToward b target tol"
  by (simp add: isMovingToward_Ball)

text \<open>
  Claim C9 holds of \<open>Ball::isMovingToward\<close> and fails on \<open>BallTools::isMovingTowardsTarget\<close>:
  a ball at the origin moving along the x axis at speed 100 is reported as moving toward
  the target \<open>(0, 100)\<close> with tolerance \<open>\<pi>/8\<close>, although the difference between its heading
  and the bearing of the target is \<open>\<pi>/2\<close>.
\<close>

theorem C9_isMovingTowardsTarget_failing_input:
  "isMovingTowardsTarget (updateState (point 0 0) (point 100 0)) (point 0 100) (pi / 8)
   \<and> isMoving (updateState (point 0 0) (point 100 0)) 10
   \<and> \<bar>anglemod (direction (updateState (point 0 0) (point 100 0))
          - directionTo (updateState (point 0 0) (point 100 0)) (point 0 100))\<bar> = pi / 2
   \<and> \<not> isMovingToward (Ball_update (point 0 0) (point 100 0)) (point 0 100) (pi / 8)"
proof -
  let ?b = "updateState (point 0 0) (point 100 0)"
  have s: "speed ?b = 100" by (simp add: updateState_def point_def plength_def)
  have d: "direction ?b = 0" by (simp add: updateState_def point_def pangle_def atan2_def)
  have t: "directionTo ?b (point 0 100) = pi / 2"
    by (simp add: directionTo_def updateState_def point_def psub_def pangle_def atan2_def)
  have a: "anglemod (- (pi / 2)) = - (pi / 2)"
    by (rule anglemod_small) simp
  have 1: "isMovingTowardsTarget ?b (point 0 100) (pi / 8)"
    by (simp add: isMovingTowardsTarget_code s)
  have 2: "isMoving ?b 10" by (simp add: isMoving_def s)
  have 3: "\<bar>anglemod (direction ?b - directionTo ?b (point 0 100))\<bar> = pi / 2"
    by (simp add: d t a)
  have v: "pangle (ball_velocity (Ball_update (point 0 0) (point 100 0))) = 0"
    by (simp add: Ball_update_def point_def pangle_def atan2_def)
  have w: "pangle (psub (point 0 100) (current_pos (Ball_update (point 0 0) (point 100 0)))) = pi / 2"
    by (simp add: Ball_update_def point_def psub_def pangle_def atan2_def)
  have "\<bar>anglemod (pangle (ball_velocity (Ball_update (point 0 0) (point 100 0)))
      - pangle (psub (point 0 100) (current_pos (Ball_update (point 0 0) (point 100 0)))))\<bar> = pi / 2"
    unfolding v w by (simp add: a)
  then have 4: "\<not> isMovingToward (Ball_update (point 0 0) (point 100 0)) (point 0 100) (pi / 8)"
    unfolding isMovingToward_Ball using pi_gt_zero by linarith
  from 1 2 3 4 show ?thesis by blast
qed

section \<open>Possession\<close>

lemma anglemod_shift:
  assumes "\<bar>a - 2 * pi * of_int n\<bar> < pi"
  shows "anglemod a = a - 2 * pi * of_int n"
proof -
  have "\<bar>a - 2 * pi * of_int n\<bar> / (2 * pi) < pi / (2 * pi)"
    using assms pi_gt_zero by (intro divide_strict_right_mono) auto
  moreover have "\<bar>a - 2 * pi * of_int n\<bar> / (2 * pi) = \<bar>a / (2 * pi) - of_int n\<bar>"
  proof -
    have "\<bar>a - 2 * pi * of_int n\<bar> / (2 * pi) = \<bar>(a - 2 * pi * of_int n) / (2 * pi)\<bar>"
      using pi_gt_zero by simp
    also have "(a - 2 * pi * of_int n) / (2 * pi) = a / (2 * pi) - of_int n"
      using pi_gt_zero by (simp add: field_simps)
    finally show ?thesis .
  qed
  ultimately have "\<bar>a / (2 * pi) - of_int n\<bar> < 1 / 2"
    using pi_gt_zero by simp
  then have "rint (a / (2 * pi)) = of_int n" by (rule rint_unique)
  then show ?thesis by (simp add: anglemod_def M_2PI_def)
qed

lemma anglemod_less_iff:
  assumes "c \<le> pi"
  shows "\<bar>anglemod a\<bar> < c \<longleftrightarrow> (\<exists>n::int. \<bar>a - 2 * pi * of_int n\<bar> < c)"
proof
  assume l: "\<bar>anglemod a\<bar> < c"
  obtain n :: int where "rint (a / (2 * pi)) = of_int n"
    using rint_is_int by blast
  then have "anglemod a = a - 2 * pi * of_int n"
    by (simp add: anglemod_def M_2PI_def)
  with l show "\<exists>n::int. \<bar>a - 2 * pi * of_int n\<bar> < c" by auto
next
  assume "\<exists>n::int. \<bar>a - 2 * pi * of_int n\<bar> < c"
  then obtain n :: int where n: "\<bar>a - 2 * pi * of_int n\<bar> < c" by blast
  with assms have "\<bar>a - 2 * pi * of_int n\<bar> < pi" by simp
  then have "anglemod a = a - 2 * pi * of_int n" by (rule anglemod_shift)
  with n show "\<bar>anglemod a\<bar> < c" by simp
qed

lemma bearing_steep: "pi / 4 < arctan (1000 / 30)"
proof -
  have "arctan 1 < arctan (1000 / 30)" by (rule arctan_less_iff [THEN iffD2]) simp
  then show ?thesis by (simp add: arctan_one)
qed

lemma anglemod_bearing_steep: "\<bar>anglemod (arctan (1000 / 30) - 0)\<bar> = arctan (1000 / 30)"
proof -
  have b: "- (pi / 2) < arctan (1000 / 30)" "arctan (1000 / 30) < pi / 2"
    by (rule arctan_lbound, rule arctan_ubound)
  have pos: "0 < arctan (1000 / 30)" using bearing_steep pi_gt_zero by linarith
  have "\<bar>arctan (1000 / 30)\<bar> < pi" using b pi_gt_zero by linarith
  then have "anglemod (arctan (1000 / 30)) = arctan (1000 / 30)" by (rule anglemod_small)
  then show ?thesis using pos by simp
qed

lemma bearing_ahead: "pangle (psub (point 30 0) (point 0 0)) = 0"
  by (simp add: pangle_def psub_def point_def atan2_def)

lemma bearing_side: "pangle (psub (point 30 1000) (point 0 0)) = arctan (1000 / 30)"
  by (simp add: pangle_def psub_def point_def atan2_def)

lemma dist_ahead: "plength (psub (point 30 0) (point 0 0)) = 30"
  by (simp add: plength_def psub_def point_def)

text \<open>
  Claim C6. The possession test holds exactly when the distance between entity and ball
  is below the control radius (50 for opponents, \<open>get_ball_threshold\<close> for the field
  players) and the angle between the entity's heading and the bearing of the ball, taken
  modulo full turns, is below \<open>\<pi>/4\<close>. An entity at the origin facing 0 possesses a ball
  at \<open>(30, 0)\<close> and does not possess a ball at \<open>(30, 1000)\<close>.
\<close>

theorem C6_possession_test:
  "(OppPlayers_hasBall ball pos ori \<longleftrightarrow>
      plength (psub ball pos) < 50 \<and> \<bar>anglemod (pangle (psub ball pos) - ori)\<bar> < pi / 4)
   \<and> (OppPlayers_hasBall ball pos ori \<longleftrightarrow>
      plength (psub ball pos) < 50
      \<and> (\<exists>n::int. \<bar>pangle (psub ball pos) - ori - 2 * pi * of_int n\<bar> < pi / 4))
   \<and> (Players_hasBall thr ball pos ori \<longleftrightarrow>
      plength (psub ball pos) < thr \<and> \<bar>anglemod (pangle (psub ball pos) - ori)\<bar> < pi / 4)
   \<and> (Players_hasBall thr ball pos ori \<longleftrightarrow>
      plength (psub ball pos) < thr
      \<and> (\<exists>n::int. \<bar>pangle (psub ball pos) - ori - 2 * pi * of_int n\<bar> < pi / 4))
   \<and> OppPlayers_hasBall (point 30 0) (point 0 0) 0
   \<and> \<not> OppPlayers_hasBall (point 30 1000) (point 0 0) 0
   \<and> (30 < thr \<longrightarrow> Players_hasBall thr (point 30 0) (point 0 0) 0)
   \<and> \<not> Players_hasBall thr (point 30 1000) (point 0 0) 0"
proof -
  have c: "pi / 4 \<le> pi" using pi_gt_zero by simp
  have o1: "OppPlayers_hasBall ball pos ori \<longleftrightarrow>
      plength (psub ball pos) < 50 \<and> \<bar>anglemod (pangle (psub ball pos) - ori)\<bar> < pi / 4"
    for ball pos ori
    by (simp add: OppPlayers_hasBall_def OPP_BALL_CONTROL_THRESHOLD_def Let_def)
  have p1: "Players_hasBall thr ball pos ori \<longleftrightarrow>
      plength (psub ball pos) < thr \<and> \<bar>anglemod (pangle (psub ball pos) - ori)\<bar> < pi / 4"
    for ball pos ori
    by (simp add: Players_hasBall_def Let_def)
  have o2: "OppPlayers_hasBall ball pos ori \<longleftrightarrow>
      plength (psub ball pos) < 50
      \<and> (\<exists>n::int. \<bar>pangle (psub ball pos) - ori - 2 * pi * of_int n\<bar> < pi / 4)"
    unfolding o1 anglemod_less_iff [OF c] by (rule refl)
  have p2: "Players_hasBall thr ball pos ori \<longleftrightarrow>
      plength (psub ball pos) < thr
      \<and> (\<exists>n::int. \<bar>pangle (psub ball pos) - ori - 2 * pi * of_int n\<bar> < pi / 4)"
    unfolding p1 anglemod_less_iff [OF c] by (rule refl)
  have z: "anglemod (0 - 0) = 0" using anglemod_small [of 0] by simp
  have steep: "\<not> \<bar>anglemod (arctan (1000 / 30) - 0)\<bar> < pi / 4"
    unfolding anglemod_bearing_steep using bearing_steep by simp
  have e1: "OppPlayers_hasBall (point 30 0) (point 0 0) 0"
    unfolding o1 bearing_ahead dist_ahead z by simp
  have e2: "\<not> OppPlayers_hasBall (point 30 1000) (point 0 0) 0"
    unfolding o1 bearing_side using steep by blast
  have e3: "30 < thr \<longrightarrow> Players_hasBall thr (point 30 0) (point 0 0) 0"
    unfolding p1 bearing_ahead dist_ahead z by simp
  have e4: "\<not> Players_hasBall thr (point 30 1000) (point 0 0) 0"
    unfolding p1 bearing_side using steep by blast
  from o1 o2 p1 p2 e1 e2 e3 e4 show ?thesis by blast
qed

theorem C6_possession_test_witness:
  "(30::real) < 50 \<and> Players_hasBall 50 (point 30 0) (point 0 0) 0
   \<and> plength (psub (point 30 0) (point 0 0)) < 50
   \<and> \<bar>anglemod (pangle (psub (point 30 0) (point 0 0)) - 0)\<bar> < pi / 4"
proof -
  have h: "(30::real) < 50" by simp
  note w = C6_possession_test [of "point 30 0" "point 0 0" 0 50]
  from w h have p: "Players_hasBall 50 (point 30 0) (point 0 0) 0" by blast
  from w p have "plength (psub (point 30 0) (point 0 0)) < 50
      \<and> \<bar>anglemod (pangle (psub (point 30 0) (point 0 0)) - 0)\<bar> < pi / 4"
    by blast
  with h p show ?thesis by blast
qed

section \<open>Tactic selection\<close>

lemma selectLoop_no_candidate:
  assumes "\<forall>t \<in> set tactics. getType t \<noteq> ty"
  shows "selectLoop tactics ty best_score best_tactic = Inr best_tactic"
  using assms by (induction tactics) simp_all

lemma first_best_shift:
  assumes fb: "first_best rest ty bs i"
    and head: "getType t = ty \<longrightarrow> the (tactic_score t) < the (tactic_score (rest ! i))"
  shows "first_best (t # rest) ty bs (Suc i)"
  unfolding first_best_def
proof (intro conjI allI impI)
  show "Suc i < length (t # rest)" using fb by (simp add: first_best_def)
  show "getType ((t # rest) ! Suc i) = ty" using fb by (simp add: first_best_def)
  show "bs < the (tactic_score ((t # rest) ! Suc i))" using fb by (simp add: first_best_def)
next
  fix j assume j: "j < length (t # rest)" "getType ((t # rest) ! j) = ty"
  show "the (tactic_score ((t # rest) ! j)) \<le> the (tactic_score ((t # rest) ! Suc i))"
  proof (cases j)
    case 0
    then show ?thesis using j head by simp
  next
    case (Suc m)
    then have "m < length rest" "getType (rest ! m) = ty" using j by simp_all
    then have "the (tactic_score (rest ! m)) \<le> the (tactic_score (rest ! i))"
      using fb unfolding first_best_def by blast
    then show ?thesis using Suc by simp
  qed
next
  fix j assume j: "j < Suc i" "getType ((t # rest) ! j) = ty"
  show "the (tactic_score ((t # rest) ! j)) < the (tactic_score ((t # rest) ! Suc i))"
  proof (cases j)
    case 0
    then show ?thesis using j head by simp
  next
    case (Suc m)
    then have "m < i" "getType (rest ! m) = ty" using j by simp_all
    then have "the (tactic_score (rest ! m)) < the (tactic_score (rest ! i))"
      using fb unfolding first_best_def by blast
    then show ?thesis using Suc by simp
  qed
qed

lemma first_best_head:
  assumes ty: "getType t = ty" and gt: "bs < the (tactic_score t)"
    and rest: "\<forall>u \<in> set rest. getType u = ty \<longrightarrow> the (tactic_score u) \<le> the (tactic_score t)"
  shows "first_best (t # rest) ty bs 0"
  unfolding first_best_def
proof (intro conjI allI impI)
  show "0 < length (t # rest)" by simp
  show "getType ((t # rest) ! 0) = ty" using ty by simp
  show "bs < the (tactic_score ((t # rest) ! 0))" using gt by simp
next
  fix j assume j: "j < length (t # rest)" "getType ((t # rest) ! j) = ty"
  show "the (tactic_score ((t # rest) ! j)) \<le> the (tactic_score ((t # rest) ! 0))"
  proof (cases j)
    case 0
    then show ?thesis by simp
  next
    case (Suc m)
    then have "rest ! m \<in> set rest" "getType (rest ! m) = ty" using j by simp_all
    then have "the (tactic_score (rest ! m)) \<le> the (tactic_score t)"
      using rest by blast
    then show ?thesis using Suc by simp
  qed
next
  fix j :: nat assume "j < 0"
  then show "the (tactic_score ((t # rest) ! j)) < the (tactic_score ((t # rest) ! 0))"
    by simp
qed

lemma first_best_weaken:
  assumes "first_best tactics ty bs i" and "bs' \<le> bs"
  shows "first_best tactics ty bs' i"
  using assms unfolding first_best_def by simp

lemma loop_post_keep:
  assumes "\<forall>t \<in> set tactics. getType t = ty \<longrightarrow> the (tactic_score t) \<le> bs"
  shows "loop_post tactics ty bs bt bt"
  unfolding loop_post_def using assms by (intro disjI1 conjI refl)

lemma loop_post_pick:
  assumes "first_best tactics ty bs i"
  shows "loop_post tactics ty bs bt (Some (tactics ! i))"
  unfolding loop_post_def using assms by (intro disjI2 exI [of _ i] conjI refl)

lemma loop_post_cases:
  assumes "loop_post tactics ty bs bt r"
  obtains (keep) "r = bt" "\<forall>t \<in> set tactics. getType t = ty \<longrightarrow> the (tactic_score t) \<le> bs"
    | (pick) i where "first_best tactics ty bs i" "r = Some (tactics ! i)"
proof -
  from assms have "(r = bt \<and> (\<forall>t \<in> set tactics. getType t = ty \<longrightarrow> the (tactic_score t) \<le> bs))
     \<or> (\<exists>i. first_best tactics ty bs i \<and> r = Some (tactics ! i))"
    by (simp only: loop_post_def)
  then show thesis
  proof (elim disjE conjE exE)
    assume "r = bt" "\<forall>t \<in> set tactics. getType t = ty \<longrightarrow> the (tactic_score t) \<le> bs"
    then show thesis by (rule keep)
  next
    fix i assume "first_best tactics ty bs i" "r = Some (tactics ! i)"
    then show thesis by (rule pick)
  qed
qed

lemma loop_post_skip:
  assumes post: "loop_post rest ty bs bt r"
    and head: "getType t = ty \<longrightarrow> the (tactic_score t) \<le> bs"
  shows "loop_post (t # rest) ty bs bt r"
  using post
proof (cases rule: loop_post_cases)
  case keep
  have "\<forall>u \<in> set (t # rest). getType u = ty \<longrightarrow> the (tactic_score u) \<le> bs"
    using keep(2) head by simp
  then have "loop_post (t # rest) ty bs bt bt" by (rule loop_post_keep)
  then show ?thesis by (simp only: keep(1))
next
  case (pick i)
  have "bs < the (tactic_score (rest ! i))"
    using pick(1) by (simp add: first_best_def)
  with head have "getType t = ty \<longrightarrow> the (tactic_score t) < the (tactic_score (rest ! i))"
    by linarith
  with pick(1) have "first_best (t # rest) ty bs (Suc i)" by (rule first_best_shift)
  then have "loop_post (t # rest) ty bs bt (Some ((t # rest) ! Suc i))" by (rule loop_post_pick)
  then show ?thesis by (simp add: pick(2))
qed

lemma loop_post_take:
  assumes post: "loop_post rest ty (the (tactic_score t)) (Some t) r"
    and ty: "getType t = ty" and gt: "bs < the (tactic_score t)"
  shows "loop_post (t # rest) ty bs bt r"
  using post
proof (cases rule: loop_post_cases)
  case keep
  have "first_best (t # rest) ty bs 0" using ty gt keep(2) by (rule first_best_head)
  then have "loop_post (t # rest) ty bs bt (Some ((t # rest) ! 0))" by (rule loop_post_pick)
  then show ?thesis by (simp add: keep(1))
next
  case (pick i)
  have "the (tactic_score t) < the (tactic_score (rest ! i))"
    using pick(1) by (simp add: first_best_def)
  then have "getType t = ty \<longrightarrow> the (tactic_score t) < the (tactic_score (rest ! i))"
    by simp
  with pick(1) have "first_best (t # rest) ty (the (tactic_score t)) (Suc i)"
    by (rule first_best_shift)
  then have "first_best (t # rest) ty bs (Suc i)"
    by (rule first_best_weaken) (use gt in simp)
  then have "loop_post (t # rest) ty bs bt (Some ((t # rest) ! Suc i))" by (rule loop_post_pick)
  then show ?thesis by (simp add: pick(2))
qed

lemma selectLoop_result:
  assumes "\<forall>t \<in> set tactics. getType t = ty \<longrightarrow> tactic_score t \<noteq> None"
  shows "\<exists>r. selectLoop tactics ty bs bt = Inr r \<and> loop_post tactics ty bs bt r"
  using assms
proof (induction tactics arbitrary: bs bt)
  case Nil
  have "loop_post [] ty bs bt bt" by (rule loop_post_keep) simp
  then show ?case by simp
next
  case (Cons t rest)
  have ok: "\<forall>u \<in> set rest. getType u = ty \<longrightarrow> tactic_score u \<noteq> None"
    using Cons.prems by simp
  show ?case
  proof (cases "getType t = ty")
    case False
    from Cons.IH [OF ok, of bs bt] obtain r where
      r: "selectLoop rest ty bs bt = Inr r" and p: "loop_post rest ty bs bt r"
      by (elim exE conjE)
    have sel: "selectLoop (t # rest) ty bs bt = Inr r" using False r by simp
    have "loop_post (t # rest) ty bs bt r" using p False by (intro loop_post_skip) simp_all
    with sel show ?thesis by (intro exI [of _ r] conjI)
  next
    case True
    then have "tactic_score t \<noteq> None" using Cons.prems by simp
    then obtain ev where ev: "evaluate t = Inr ev"
      by (cases "evaluate t") (simp_all add: tactic_score_def)
    then have sct: "the (tactic_score t) = score ev" by (simp add: tactic_score_def)
    show ?thesis
    proof (cases "score ev > bs")
      case gt: True
      from Cons.IH [OF ok, of "score ev" "Some t"] obtain r where
        r: "selectLoop rest ty (score ev) (Some t) = Inr r"
        and p: "loop_post rest ty (score ev) (Some t) r"
        by (elim exE conjE)
      have sel: "selectLoop (t # rest) ty bs bt = Inr r" using True ev gt r by simp
      have "loop_post (t # rest) ty bs bt r"
        using p True gt by (intro loop_post_take) (simp_all add: sct)
      with sel show ?thesis by (intro exI [of _ r] conjI)
    next
      case le: False
      from Cons.IH [OF ok, of bs bt] obtain r where
        r: "selectLoop rest ty bs bt = Inr r" and p: "loop_post rest ty bs bt r"
        by (elim exE conjE)
      have sel: "selectLoop (t # rest) ty bs bt = Inr r" using True ev le r by simp
      have "loop_post (t # rest) ty bs bt r"
        using p le by (intro loop_post_skip) (simp_all add: sct)
      with sel show ?thesis by (intro exI [of _ r] conjI)
    qed
  qed
qed

lemma selectBestTactic_best:
  assumes ok: "\<forall>t \<in> set tactics. getType t = ty \<longrightarrow> tactic_score t \<noteq> None"
    and some: "\<exists>t \<in> set tactics. getType t = ty \<and> - 1 < the (tactic_score t)"
  shows "\<exists>i. first_best tactics ty (- 1) i \<and> selectBestTactic tactics ty = Inr (Some (tactics ! i))"
proof -
  from selectLoop_result [OF ok, of "- 1" None] obtain r where
    r: "selectLoop tactics ty (- 1) None = Inr r" and p: "loop_post tactics ty (- 1) None r"
    by (elim exE conjE)
  from p show ?thesis
  proof (cases rule: loop_post_cases)
    case keep
    from some obtain t where "t \<in> set tactics" "getType t = ty" "- 1 < the (tactic_score t)"
      by blast
    moreover from this keep(2) have "the (tactic_score t) \<le> - 1" by blast
    ultimately show ?thesis by simp
  next
    case (pick i)
    then show ?thesis using r by (intro exI [of _ i]) (simp add: selectBestTactic_def)
  qed
qed

lemma scenario_tactic_simps:
  "getType (scenario_tactic name ty s) = ty"
  "getName (scenario_tactic name ty s) = name"
  "evaluate (scenario_tactic name ty s) = Inr \<lparr>score = s, description = []\<rparr>"
  "tactic_score (scenario_tactic name ty s) = Some s"
  by (simp_all add: scenario_tactic_def tactic_score_def)

text \<open>
  Claim C3, as stated, fails: a catalog that is not empty but holds no tactic of the
  requested category yields the null pointer, not a tactic of that category.
\<close>

theorem C3_selectBestTactic_counterexample:
  "[scenario_tactic ''DirectAttack'' ATTACK 0.8] \<noteq> []
   \<and> selectBestTactic [scenario_tactic ''DirectAttack'' ATTACK 0.8] DEFENSE = Inr None"
  by (simp add: selectBestTactic_def scenario_tactic_simps)

text \<open>
  Claim C3, amended. When the catalog holds at least one tactic of the requested category
  whose score is above \<open>-1\<close> (every score in \<open>[0, 1]\<close> is) and the evaluations of that
  category return, \<open>selectBestTactic\<close> returns a registered tactic of that category whose
  score is the maximum among the tactics of the category, and every tactic of the category
  registered before it has a strictly smaller score: on a tie the earliest registered wins.
\<close>

theorem C3_selectBestTactic_amended:
  assumes "\<forall>t \<in> set tactics. getType t = ty \<longrightarrow> tactic_score t \<noteq> None"
    and "\<exists>t \<in> set tactics. getType t = ty \<and> - 1 < the (tactic_score t)"
  shows "\<exists>i < length tactics.
      selectBestTactic tactics ty = Inr (Some (tactics ! i))
      \<and> getType (tactics ! i) = ty
      \<and> (\<forall>j < length tactics. getType (tactics ! j) = ty \<longrightarrow>
            the (tactic_score (tactics ! j)) \<le> the (tactic_score (tactics ! i)))
      \<and> (\<forall>j < i. getType (tactics ! j) = ty \<longrightarrow>
            the (tactic_score (tactics ! j)) < the (tactic_score (tactics ! i)))"
proof -
  from selectBestTactic_best [OF assms] obtain i where
    fb: "first_best tactics ty (- 1) i"
    and sel: "selectBestTactic tactics ty = Inr (Some (tactics ! i))"
    by (elim exE conjE)
  from fb have "i < length tactics" "getType (tactics ! i) = ty"
    "\<forall>j < length tactics. getType (tactics ! j) = ty \<longrightarrow>
            the (tactic_score (tactics ! j)) \<le> the (tactic_score (tactics ! i))"
    "\<forall>j < i. getType (tactics ! j) = ty \<longrightarrow>
            the (tactic_score (tactics ! j)) < the (tactic_score (tactics ! i))"
    by (simp_all add: first_best_def)
  with sel show ?thesis by (intro exI [of _ i] conjI)
qed

text \<open>Two defense tactics that both score 0.8: the one registered first is selected.\<close>

theorem C3_selectBestTactic_witness:
  "tactic_score (scenario_tactic ''ManMarking'' DEFENSE 0.8) = Some 0.8
   \<and> tactic_score (scenario_tactic ''ZoneDefense'' DEFENSE 0.8) = Some 0.8
   \<and> selectBestTactic
        (registerTactic (registerTactic [] (scenario_tactic ''ManMarking'' DEFENSE 0.8))
          (scenario_tactic ''ZoneDefense'' DEFENSE 0.8)) DEFENSE
      = Inr (Some (scenario_tactic ''ManMarking'' DEFENSE 0.8))"
proof -
  let ?a = "scenario_tactic ''ManMarking'' DEFENSE 0.8"
  let ?b = "scenario_tactic ''ZoneDefense'' DEFENSE 0.8"
  have cat: "registerTactic (registerTactic [] ?a) ?b = [?a, ?b]"
    by (simp add: registerTactic_def)
  have h1: "\<forall>t \<in> set [?a, ?b]. getType t = DEFENSE \<longrightarrow> tactic_score t \<noteq> None"
    by (simp add: scenario_tactic_simps del: not_None_eq)
  have h2: "\<exists>t \<in> set [?a, ?b]. getType t = DEFENSE \<and> - 1 < the (tactic_score t)"
    by (simp add: scenario_tactic_simps)
  from C3_selectBestTactic_amended [OF h1 h2] obtain i where
    i: "i < length [?a, ?b]"
    and sel: "selectBestTactic [?a, ?b] DEFENSE = Inr (Some ([?a, ?b] ! i))"
    and before: "\<forall>j < i. getType ([?a, ?b] ! j) = DEFENSE \<longrightarrow>
            the (tactic_score ([?a, ?b] ! j)) < the (tactic_score ([?a, ?b] ! i))"
    by (elim exE conjE)
  have "i = 0"
  proof (rule ccontr)
    assume "i \<noteq> 0"
    with i have i1: "i = 1" by simp
    from before have "getType ([?a, ?b] ! 0) = DEFENSE \<longrightarrow>
        the (tactic_score ([?a, ?b] ! 0)) < the (tactic_score ([?a, ?b] ! i))"
      using i1 by simp
    then show False by (simp add: i1 scenario_tactic_simps)
  qed
  with sel have "selectBestTactic [?a, ?b] DEFENSE = Inr (Some ?a)" by simp
  then show ?thesis by (simp only: cat scenario_tactic_simps)
qed

lemma selectBestTactic_no_candidate:
  assumes "\<forall>t \<in> set tactics. getType t \<noteq> ty"
  shows "selectBestTactic tactics ty = Inr None"
  unfolding selectBestTactic_def using assms by (rule selectLoop_no_candidate)

section \<open>Tactic scores\<close>

lemma DirectAttackTactic_raw_bounds:
  "0 \<le> DirectAttackTactic_raw w" "DirectAttackTactic_raw w \<le> 10"
  by (simp_all add: DirectAttackTactic_raw_def Let_def)

lemma passing_lane_loop_bounds:
  "s \<le> passing_lane_loop w c ids s \<and> passing_lane_loop w c ids s \<le> s + 2.5"
  by (induction ids) (simp_all add: Let_def)

lemma PassAndShootTactic_raw_bounds:
  "0 \<le> PassAndShootTactic_raw w" "PassAndShootTactic_raw w \<le> 9"
proof -
  define s2 :: real where "s2 =
     (if count_in_opponent_half w (our_getPlayerIds w) 0 \<ge> 2
      then (if isInOpponentHalf (ball_tools w) then 0.0 + 2.0 else 0.0) + 3.0
      else if count_in_opponent_half w (our_getPlayerIds w) 0 = 1
      then (if isInOpponentHalf (ball_tools w) then 0.0 + 2.0 else 0.0) + 1.0
      else (if isInOpponentHalf (ball_tools w) then 0.0 + 2.0 else 0.0))"
  define s3 where "s3 =
     (if getClosestPlayerToBall w \<ge> 0
      then passing_lane_loop w (getClosestPlayerToBall w) (our_getPlayerIds w) s2 else s2)"
  have b2: "0 \<le> s2" "s2 \<le> 5" by (simp_all add: s2_def)
  have "s2 \<le> s3 \<and> s3 \<le> s2 + 2.5"
    using passing_lane_loop_bounds [of s2 w "getClosestPlayerToBall w" "our_getPlayerIds w"]
    by (simp add: s3_def)
  with b2 have b3: "0 \<le> s3" "s3 \<le> 7.5" by simp_all
  have raw: "PassAndShootTactic_raw w =
      (if int (length (getThreatPlayers w)) < 2 then s3 + 1.5 else s3)"
    by (simp add: PassAndShootTactic_raw_def Let_def s3_def s2_def)
  show "0 \<le> PassAndShootTactic_raw w" "PassAndShootTactic_raw w \<le> 9"
    using b3 by (simp_all add: raw)
qed

lemma WingAttackTactic_raw_bounds:
  "0 \<le> WingAttackTactic_raw w" "WingAttackTactic_raw w \<le> 7"
  by (simp_all add: WingAttackTactic_raw_def Let_def)

lemma ManMarkingTactic_raw_bounds:
  "0 \<le> ManMarkingTactic_raw w" "ManMarkingTactic_raw w \<le> 7"
  by (simp_all add: ManMarkingTactic_raw_def Let_def)

lemma ZoneDefenseTactic_raw_bounds:
  "0 \<le> ZoneDefenseTactic_raw w" "ZoneDefenseTactic_raw w \<le> 7.5"
  by (simp_all add: ZoneDefenseTactic_raw_def Let_def)

lemma RetreatDefenseTactic_raw_bounds:
  "0 \<le> RetreatDefenseTactic_raw w" "RetreatDefenseTactic_raw w \<le> 6"
  by (simp_all add: RetreatDefenseTactic_raw_def Let_def)

lemma special_scores:
  "KickoffTactic_evaluate w \<in> {0, 0.8, 1}"
  "FreeKickTactic_evaluate w \<in> {0, 0.8, 1}"
  "CornerKickTactic_evaluate w \<in> {0, 0.8, 1}"
  by (simp_all add: KickoffTactic_evaluate_def FreeKickTactic_evaluate_def
      CornerKickTactic_evaluate_def Let_def)

lemma transition_scores:
  "CounterAttackTactic_evaluate w \<in> {0, 0.4, 0.8}"
  "QuickDefenseTactic_evaluate w \<in> {0, 0.5, 0.9}"
  by (simp_all add: CounterAttackTactic_evaluate_def QuickDefenseTactic_evaluate_def Let_def)

lemma scenario_view_ball:
  "position (ball_tools scenario_view) = point 2900 0"
  "isInOpponentHalf (ball_tools scenario_view)"
  by (simp_all add: scenario_view_def updateState_def isInOpponentHalf_def point_def)

lemma scenario_direct_raw: "DirectAttackTactic_raw scenario_view = 10"
proof -
  have "plength (psub (point 2900 0) (point 3025 0)) = 125"
    by (simp add: plength_def psub_def point_def)
  moreover have "getClosestPlayerToBall scenario_view = 1"
    "distanceToBall scenario_view 1 = 30" "FIELD_LENGTH_H scenario_view = 3025"
    "evaluateDefensivePosition scenario_view = 3"
    by (simp_all add: scenario_view_def)
  ultimately show ?thesis
    by (simp add: DirectAttackTactic_raw_def Let_def scenario_view_ball)
qed

lemma scenario_pass_raw: "PassAndShootTactic_raw scenario_view = 9"
proof -
  have v: "getClosestPlayerToBall scenario_view = 1"
    "our_getPlayerIds scenario_view = [1, 2]"
    "opp_getPlayerIds scenario_view = []"
    "getThreatPlayers scenario_view = []"
    "our_isInOpponentHalf scenario_view 1" "our_isInOpponentHalf scenario_view 2"
    by (simp_all add: scenario_view_def)
  show ?thesis
    by (simp add: PassAndShootTactic_raw_def Let_def scenario_view_ball v)
qed

text \<open>
  Claim C8, as stated, fails: the pass-and-shoot tactic can reach the raw score 9 and no
  more, and at raw score 9 its evaluation is \<open>0.9\<close>, not \<open>9 / 9\<close>.
\<close>

theorem C8_normalisation_counterexample:
  "PassAndShootTactic_raw scenario_view = 9
   \<and> PassAndShootTactic_evaluate scenario_view = 9 / 10
   \<and> PassAndShootTactic_evaluate scenario_view \<noteq> PassAndShootTactic_raw scenario_view / 9"
  by (simp add: PassAndShootTactic_evaluate_def scenario_pass_raw)

text \<open>
  Claim C8, amended. For every tactic of the catalog and every world view the score
  returned by \<open>evaluate()\<close> lies in \<open>[0, 1]\<close>. For the attack and defense tactics it is the
  raw weighted sum divided by the constant 10; 10 is the maximum the raw sum can reach
  for the direct attack only (9 for pass-and-shoot, 7 for the wing attack and man
  marking, 7.5 for the zone defense, 6 for the retreat defense). The special-situation
  tactics return 1, 0.8 or 0 and the transition tactics 0.8, 0.4 or 0 and 0.9, 0.5 or 0.
\<close>

theorem C8_scores_amended:
  "(0 \<le> DirectAttackTactic_evaluate w \<and> DirectAttackTactic_evaluate w \<le> 1
      \<and> DirectAttackTactic_evaluate w = DirectAttackTactic_raw w / 10
      \<and> DirectAttackTactic_raw w \<le> 10 \<and> DirectAttackTactic_raw scenario_view = 10)
   \<and> (0 \<le> PassAndShootTactic_evaluate w \<and> PassAndShootTactic_evaluate w \<le> 1
      \<and> PassAndShootTactic_evaluate w = PassAndShootTactic_raw w / 10
      \<and> PassAndShootTactic_raw w \<le> 9 \<and> PassAndShootTactic_raw scenario_view = 9)
   \<and> (0 \<le> WingAttackTactic_evaluate w \<and> WingAttackTactic_evaluate w \<le> 1
      \<and> WingAttackTactic_evaluate w = WingAttackTactic_raw w / 10
      \<and> WingAttackTactic_raw w \<le> 7)
   \<and> (0 \<le> ManMarkingTactic_evaluate w \<and> ManMarkingTactic_evaluate w \<le> 1
      \<and> ManMarkingTactic_evaluate w = ManMarkingTactic_raw w / 10
      \<and> ManMarkingTactic_raw w \<le> 7)
   \<and> (0 \<le> ZoneDefenseTactic_evaluate w \<and> ZoneDefenseTactic_evaluate w \<le> 1
      \<and> ZoneDefenseTactic_evaluate w = ZoneDefenseTactic_raw w / 10
      \<and> ZoneDefenseTactic_raw w \<le> 7.5)
   \<and> (0 \<le> RetreatDefenseTactic_evaluate w \<and> RetreatDefenseTactic_evaluate w \<le> 1
      \<and> RetreatDefenseTactic_evaluate w = RetreatDefenseTactic_raw w / 10
      \<and> RetreatDefenseTactic_raw w \<le> 6)
   \<and> KickoffTactic_evaluate w \<in> {0, 0.8, 1}
   \<and> FreeKickTactic_evaluate w \<in> {0, 0.8, 1}
   \<and> CornerKickTactic_evaluate w \<in> {0, 0.8, 1}
   \<and> CounterAttackTactic_evaluate w \<in> {0, 0.4, 0.8}
   \<and> QuickDefenseTactic_evaluate w \<in> {0, 0.5, 0.9}"
proof (intro conjI)
  show "0 \<le> DirectAttackTactic_evaluate w" "DirectAttackTactic_evaluate w \<le> 1"
    using DirectAttackTactic_raw_bounds [of w] by (simp_all add: DirectAttackTactic_evaluate_def)
  show "0 \<le> PassAndShootTactic_evaluate w" "PassAndShootTactic_evaluate w \<le> 1"
    using PassAndShootTactic_raw_bounds [of w] by (simp_all add: PassAndShootTactic_evaluate_def)
  show "0 \<le> WingAttackTactic_evaluate w" "WingAttackTactic_evaluate w \<le> 1"
    using WingAttackTactic_raw_bounds [of w] by (simp_all add: WingAttackTactic_evaluate_def)
  show "0 \<le> ManMarkingTactic_evaluate w" "ManMarkingTactic_evaluate w \<le> 1"
    using ManMarkingTactic_raw_bounds [of w] by (simp_all add: ManMarkingTactic_evaluate_def)
  show "0 \<le> ZoneDefenseTactic_evaluate w" "ZoneDefenseTactic_evaluate w \<le> 1"
    using ZoneDefenseTactic_raw_bounds [of w] by (simp_all add: ZoneDefenseTactic_evaluate_def)
  show "0 \<le> RetreatDefenseTactic_evaluate w" "RetreatDefenseTactic_evaluate w \<le> 1"
    using RetreatDefenseTactic_raw_bounds [of w] by (simp_all add: RetreatDefenseTactic_evaluate_def)
  show "DirectAttackTactic_evaluate w = DirectAttackTactic_raw w / 10"
    "PassAndShootTactic_evaluate w = PassAndShootTactic_raw w / 10"
    "WingAttackTactic_evaluate w = WingAttackTactic_raw w / 10"
    "ManMarkingTactic_evaluate w = ManMarkingTactic_raw w / 10"
    "ZoneDefenseTactic_evaluate w = ZoneDefenseTactic_raw w / 10"
    "RetreatDefenseTactic_evaluate w = RetreatDefenseTactic_raw w / 10"
    by (simp_all add: DirectAttackTactic_evaluate_def PassAndShootTactic_evaluate_def
        WingAttackTactic_evaluate_def ManMarkingTactic_evaluate_def
        ZoneDefenseTactic_evaluate_def RetreatDefenseTactic_evaluate_def)
  show "DirectAttackTactic_raw w \<le> 10" by (rule DirectAttackTactic_raw_bounds)
  show "PassAndShootTactic_raw w \<le> 9" by (rule PassAndShootTactic_raw_bounds)
  show "WingAttackTactic_raw w \<le> 7" by (rule WingAttackTactic_raw_bounds)
  show "ManMarkingTactic_raw w \<le> 7" by (rule ManMarkingTactic_raw_bounds)
  show "ZoneDefenseTactic_raw w \<le> 7.5" by (rule ZoneDefenseTactic_raw_bounds)
  show "RetreatDefenseTactic_raw w \<le> 6" by (rule RetreatDefenseTactic_raw_bounds)
  show "DirectAttackTactic_raw scenario_view = 10" by (rule scenario_direct_raw)
  show "PassAndShootTactic_raw scenario_view = 9" by (rule scenario_pass_raw)
  show "KickoffTactic_evaluate w \<in> {0, 0.8, 1}" "FreeKickTactic_evaluate w \<in> {0, 0.8, 1}"
    "CornerKickTactic_evaluate w \<in> {0, 0.8, 1}"
    by (rule special_scores)+
  show "CounterAttackTactic_evaluate w \<in> {0, 0.4, 0.8}"
    "QuickDefenseTactic_evaluate w \<in> {0, 0.5, 0.9}"
    by (rule transition_scores)+
qed

theorem C8_scores_witness:
  "DirectAttackTactic_evaluate scenario_view = 1
   \<and> PassAndShootTactic_evaluate scenario_view = 9 / 10
   \<and> PassAndShootTactic_evaluate scenario_view \<le> 1"
proof -
  note w = C8_scores_amended [of scenario_view]
  from w have "DirectAttackTactic_evaluate scenario_view = DirectAttackTactic_raw scenario_view / 10"
    "DirectAttackTactic_raw scenario_view = 10"
    "PassAndShootTactic_evaluate scenario_view = PassAndShootTactic_raw scenario_view / 10"
    "PassAndShootTactic_raw scenario_view = 9"
    "PassAndShootTactic_evaluate scenario_view \<le> 1"
    by blast+
  then show ?thesis by simp
qed

section \<open>Message bus\<close>

lemma freshest_unique:
  assumes "freshest rid ty shm n i" and "freshest rid ty shm n k"
  shows "i = k"
proof (rule ccontr)
  assume ne: "i \<noteq> k"
  have i: "i < n" "matches rid ty (shm ! i)"
    and k: "k < n" "matches rid ty (shm ! k)"
    using assms by (simp_all add: freshest_def)
  have ik: "timestamp (shm ! k) \<le> timestamp (shm ! i)"
    and ki: "timestamp (shm ! i) \<le> timestamp (shm ! k)"
    using assms i k by (simp_all add: freshest_def)
  show False
  proof (cases "i < k")
    case True
    then have "timestamp (shm ! i) < timestamp (shm ! k)"
      using assms(2) i(2) by (simp add: freshest_def)
    with ik show False by simp
  next
    case False
    with ne have "k < i" by simp
    then have "timestamp (shm ! k) < timestamp (shm ! i)"
      using assms(1) k(2) by (simp add: freshest_def)
    with ki show False by simp
  qed
qed

lemma freshest_first:
  assumes m: "matches rid ty (shm ! n)" and t: "- 1 < timestamp (shm ! n)"
    and below: "\<forall>j < n. matches rid ty (shm ! j) \<longrightarrow> timestamp (shm ! j) < timestamp (shm ! n)"
  shows "freshest rid ty shm (Suc n) n"
  unfolding freshest_def
proof (intro conjI allI impI)
  show "n < Suc n" by simp
  show "matches rid ty (shm ! n)" by (rule m)
  show "- 1 < timestamp (shm ! n)" by (rule t)
next
  fix j assume j: "j < Suc n" "matches rid ty (shm ! j)"
  show "timestamp (shm ! j) \<le> timestamp (shm ! n)"
  proof (cases "j = n")
    case True
    then show ?thesis by simp
  next
    case False
    with j have "j < n" by simp
    with below j(2) have "timestamp (shm ! j) < timestamp (shm ! n)" by blast
    then show ?thesis by simp
  qed
next
  fix j assume "j < n" "matches rid ty (shm ! j)"
  with below show "timestamp (shm ! j) < timestamp (shm ! n)" by blast
qed

lemma freshest_extend:
  assumes f: "freshest rid ty shm n i"
    and last: "matches rid ty (shm ! n) \<longrightarrow> timestamp (shm ! n) \<le> timestamp (shm ! i)"
  shows "freshest rid ty shm (Suc n) i"
  unfolding freshest_def
proof (intro conjI allI impI)
  show "i < Suc n" using f by (simp add: freshest_def)
  show "matches rid ty (shm ! i)" using f by (simp add: freshest_def)
  show "- 1 < timestamp (shm ! i)" using f by (simp add: freshest_def)
next
  fix j assume j: "j < Suc n" "matches rid ty (shm ! j)"
  show "timestamp (shm ! j) \<le> timestamp (shm ! i)"
  proof (cases "j = n")
    case True
    with j(2) last show ?thesis by simp
  next
    case False
    with j have "j < n" by simp
    with f j(2) show ?thesis unfolding freshest_def by blast
  qed
next
  fix j assume "j < i" "matches rid ty (shm ! j)"
  with f show "timestamp (shm ! j) < timestamp (shm ! i)" unfolding freshest_def by blast
qed

lemma scan_post_step:
  assumes "scan_post rid ty shm n acc"
  shows "scan_post rid ty shm (Suc n) (receive_step rid ty shm n acc)"
proof -
  from assms have "(acc = (- 1, Message_default)
        \<and> (\<forall>j < n. matches rid ty (shm ! j) \<longrightarrow> timestamp (shm ! j) \<le> - 1))
     \<or> (\<exists>i. freshest rid ty shm n i \<and> acc = (timestamp (shm ! i), shm ! i))"
    by (simp only: scan_post_def)
  then show ?thesis
  proof (elim disjE conjE exE)
    assume acc: "acc = (- 1, Message_default)"
      and none: "\<forall>j < n. matches rid ty (shm ! j) \<longrightarrow> timestamp (shm ! j) \<le> - 1"
    show ?thesis
    proof (cases "matches rid ty (shm ! n) \<and> - 1 < timestamp (shm ! n)")
      case True
      then have step: "receive_step rid ty shm n acc = (timestamp (shm ! n), shm ! n)"
        by (simp add: receive_step_def acc matches_def)
      have "\<forall>j < n. matches rid ty (shm ! j) \<longrightarrow> timestamp (shm ! j) < timestamp (shm ! n)"
      proof (intro allI impI)
        fix j assume "j < n" "matches rid ty (shm ! j)"
        with none have "timestamp (shm ! j) \<le> - 1" by blast
        with True show "timestamp (shm ! j) < timestamp (shm ! n)" by simp
      qed
      with True have "freshest rid ty shm (Suc n) n" by (intro freshest_first) simp_all
      then show ?thesis unfolding scan_post_def step by (intro disjI2 exI [of _ n] conjI refl)
    next
      case False
      then have step: "receive_step rid ty shm n acc = acc"
        by (auto simp: receive_step_def acc matches_def)
      have "\<forall>j < Suc n. matches rid ty (shm ! j) \<longrightarrow> timestamp (shm ! j) \<le> - 1"
      proof (intro allI impI)
        fix j assume j: "j < Suc n" "matches rid ty (shm ! j)"
        show "timestamp (shm ! j) \<le> - 1"
        proof (cases "j = n")
          case True
          with False j(2) show ?thesis by simp
        next
          case False
          with j have "j < n" by simp
          with none j(2) show ?thesis by blast
        qed
      qed
      then show ?thesis unfolding scan_post_def step using acc by (intro disjI1 conjI)
    qed
  next
    fix i
    assume f: "freshest rid ty shm n i" and acc: "acc = (timestamp (shm ! i), shm ! i)"
    show ?thesis
    proof (cases "matches rid ty (shm ! n) \<and> timestamp (shm ! i) < timestamp (shm ! n)")
      case True
      then have step: "receive_step rid ty shm n acc = (timestamp (shm ! n), shm ! n)"
        by (simp add: receive_step_def acc matches_def)
      have ti: "- 1 < timestamp (shm ! i)" using f by (simp add: freshest_def)
      have "\<forall>j < n. matches rid ty (shm ! j) \<longrightarrow> timestamp (shm ! j) < timestamp (shm ! n)"
      proof (intro allI impI)
        fix j assume "j < n" "matches rid ty (shm ! j)"
        with f have "timestamp (shm ! j) \<le> timestamp (shm ! i)" unfolding freshest_def by blast
        with True show "timestamp (shm ! j) < timestamp (shm ! n)" by simp
      qed
      moreover have "- 1 < timestamp (shm ! n)" using True ti by simp
      ultimately have "freshest rid ty shm (Suc n) n" using True by (intro freshest_first) simp_all
      then show ?thesis unfolding scan_post_def step by (intro disjI2 exI [of _ n] conjI refl)
    next
      case False
      then have step: "receive_step rid ty shm n acc = acc"
        by (auto simp: receive_step_def acc matches_def)
      from False have "matches rid ty (shm ! n) \<longrightarrow> timestamp (shm ! n) \<le> timestamp (shm ! i)"
        by auto
      with f have "freshest rid ty shm (Suc n) i" by (rule freshest_extend)
      then show ?thesis unfolding scan_post_def step using acc
        by (intro disjI2 exI [of _ i] conjI)
    qed
  qed
qed

lemma scan_post_fold:
  "scan_post rid ty shm n (fold (receive_step rid ty shm) [0..<n] (- 1, Message_default))"
proof (induction n)
  case 0
  show ?case by (simp add: scan_post_def)
next
  case (Suc n)
  then show ?case by (simp add: scan_post_step)
qed

lemma receiveMessage_scan:
  assumes "is_initialized c" "shared_memory_mapped c" "acquired"
  shows "scan_post (robot_id c) ty shm MAX_MESSAGES
           (fold (receive_step (robot_id c) ty shm) [0..<MAX_MESSAGES] (- 1, Message_default))
     \<and> receiveMessage c acquired shm ty
         = snd (fold (receive_step (robot_id c) ty shm) [0..<MAX_MESSAGES] (- 1, Message_default))"
  using assms by (simp add: scan_post_fold receiveMessage_def)

lemma receiveMessage_freshest:
  assumes init: "is_initialized c" "shared_memory_mapped c" "acquired"
    and f: "freshest (robot_id c) ty shm MAX_MESSAGES i"
  shows "receiveMessage c acquired shm ty = shm ! i"
proof -
  let ?acc = "fold (receive_step (robot_id c) ty shm) [0..<MAX_MESSAGES] (- 1, Message_default)"
  from receiveMessage_scan [OF init] have
    post: "scan_post (robot_id c) ty shm MAX_MESSAGES ?acc"
    and r: "receiveMessage c acquired shm ty = snd ?acc"
    by blast+
  from post have "(?acc = (- 1, Message_default)
        \<and> (\<forall>j < MAX_MESSAGES. matches (robot_id c) ty (shm ! j) \<longrightarrow> timestamp (shm ! j) \<le> - 1))
     \<or> (\<exists>k. freshest (robot_id c) ty shm MAX_MESSAGES k \<and> ?acc = (timestamp (shm ! k), shm ! k))"
    by (simp only: scan_post_def)
  then show ?thesis
  proof (elim disjE conjE exE)
    assume "\<forall>j < MAX_MESSAGES. matches (robot_id c) ty (shm ! j) \<longrightarrow> timestamp (shm ! j) \<le> - 1"
    moreover have "i < MAX_MESSAGES" "matches (robot_id c) ty (shm ! i)" "- 1 < timestamp (shm ! i)"
      using f by (simp_all add: freshest_def)
    ultimately have False by force
    then show ?thesis ..
  next
    fix k
    assume k: "freshest (robot_id c) ty shm MAX_MESSAGES k"
      and acc: "?acc = (timestamp (shm ! k), shm ! k)"
    from f k have "i = k" by (rule freshest_unique)
    with acc r show ?thesis by simp
  qed
qed

lemma receiveMessage_none:
  assumes init: "is_initialized c" "shared_memory_mapped c" "acquired"
    and none: "\<forall>j < MAX_MESSAGES. matches (robot_id c) ty (shm ! j) \<longrightarrow> timestamp (shm ! j) \<le> - 1"
  shows "receiveMessage c acquired shm ty = Message_default"
proof -
  let ?acc = "fold (receive_step (robot_id c) ty shm) [0..<MAX_MESSAGES] (- 1, Message_default)"
  from receiveMessage_scan [OF init] have
    post: "scan_post (robot_id c) ty shm MAX_MESSAGES ?acc"
    and r: "receiveMessage c acquired shm ty = snd ?acc"
    by blast+
  from post have "(?acc = (- 1, Message_default)
        \<and> (\<forall>j < MAX_MESSAGES. matches (robot_id c) ty (shm ! j) \<longrightarrow> timestamp (shm ! j) \<le> - 1))
     \<or> (\<exists>k. freshest (robot_id c) ty shm MAX_MESSAGES k \<and> ?acc = (timestamp (shm ! k), shm ! k))"
    by (simp only: scan_post_def)
  then show ?thesis
  proof (elim disjE conjE exE)
    assume "?acc = (- 1, Message_default)"
    with r show ?thesis by simp
  next
    fix k
    assume k: "freshest (robot_id c) ty shm MAX_MESSAGES k"
    then have "k < MAX_MESSAGES" "matches (robot_id c) ty (shm ! k)" "- 1 < timestamp (shm ! k)"
      by (simp_all add: freshest_def)
    with none have False by force
    then show ?thesis ..
  qed
qed

lemma receiveMessage_cases:
  assumes init: "is_initialized c" "shared_memory_mapped c" "acquired"
  shows "(receiveMessage c acquired shm ty = Message_default
           \<and> (\<forall>j < MAX_MESSAGES. matches (robot_id c) ty (shm ! j) \<longrightarrow> timestamp (shm ! j) \<le> - 1))
     \<or> (\<exists>i. freshest (robot_id c) ty shm MAX_MESSAGES i \<and> receiveMessage c acquired shm ty = shm ! i)"
proof (cases "\<forall>j < MAX_MESSAGES. matches (robot_id c) ty (shm ! j) \<longrightarrow> timestamp (shm ! j) \<le> - 1")
  case True
  with receiveMessage_none [OF init True] show ?thesis by blast
next
  case False
  let ?acc = "fold (receive_step (robot_id c) ty shm) [0..<MAX_MESSAGES] (- 1, Message_default)"
  from receiveMessage_scan [OF init] have
    post: "scan_post (robot_id c) ty shm MAX_MESSAGES ?acc"
    by blast
  from post have "(?acc = (- 1, Message_default)
        \<and> (\<forall>j < MAX_MESSAGES. matches (robot_id c) ty (shm ! j) \<longrightarrow> timestamp (shm ! j) \<le> - 1))
     \<or> (\<exists>k. freshest (robot_id c) ty shm MAX_MESSAGES k \<and> ?acc = (timestamp (shm ! k), shm ! k))"
    by (simp only: scan_post_def)
  with False obtain k where k: "freshest (robot_id c) ty shm MAX_MESSAGES k" by blast
  from receiveMessage_freshest [OF init k] k show ?thesis by blast
qed

lemma int_wrap_id: "INT_MIN \<le> x \<Longrightarrow> x \<le> INT_MAX \<Longrightarrow> int_wrap x = x"
  by (simp add: int_wrap_def INT_MIN_def INT_MAX_def)

lemma int_wrap_range: "INT_MIN \<le> int_wrap x \<and> int_wrap x \<le> INT_MAX"
proof -
  have "0 \<le> (x + 2147483648) mod 4294967296" "(x + 2147483648) mod 4294967296 < 4294967296"
    by simp_all
  then show ?thesis by (simp add: int_wrap_def INT_MIN_def INT_MAX_def)
qed

lemma slot_free_in_window:
  assumes "INT_MIN + 10 \<le> current_cycle c" and "current_cycle c \<le> INT_MAX"
  shows "slot_free c m \<longleftrightarrow> msg_type m = NONE \<or> timestamp m < current_cycle c - 10"
proof -
  have "int_wrap (current_cycle c - 10) = current_cycle c - 10"
    using assms by (intro int_wrap_id) (simp_all add: INT_MAX_def)
  then show ?thesis by (simp add: slot_free_def)
qed

lemma slot_free_below_window:
  assumes "INT_MIN \<le> current_cycle c" and "current_cycle c < INT_MIN + 10"
  shows "slot_free c m \<longleftrightarrow> msg_type m = NONE \<or> timestamp m < current_cycle c - 10 + 4294967296"
proof -
  have "(current_cycle c - 10 + 2147483648) mod 4294967296
      = (current_cycle c - 10 + 2147483648 + 4294967296) mod 4294967296"
    by (simp only: mod_add_self2)
  also have "\<dots> = current_cycle c - 10 + 2147483648 + 4294967296"
    using assms by (intro mod_pos_pos_trivial) (simp_all add: INT_MIN_def)
  finally have "(current_cycle c - 10 + 2147483648) mod 4294967296
      = current_cycle c - 10 + 2147483648 + 4294967296" .
  then have "int_wrap (current_cycle c - 10) = current_cycle c - 10 + 4294967296"
    by (simp add: int_wrap_def)
  then show ?thesis by (simp add: slot_free_def)
qed

lemma sendMessage_find:
  "sendMessage c acquired shm receiver ty pos ori dat =
     (if \<not> is_initialized c \<or> \<not> shared_memory_mapped c then (False, shm)
      else if acquired then
        (case find (\<lambda>i. slot_free c (shm ! i)) [0..<MAX_MESSAGES] of
           Some i \<Rightarrow> (True, shm[i := sent_message c receiver ty pos ori dat])
         | None \<Rightarrow> (False, shm))
      else (False, shm))"
  by (simp add: sendMessage_def slot_free_def sent_message_def split: option.split)

lemma sendMessage_keeps:
  assumes "\<not> slot_free c (shm ! k)"
  shows "snd (sendMessage c acquired shm receiver ty pos ori dat) ! k = shm ! k"
proof (cases "find (\<lambda>i. slot_free c (shm ! i)) [0..<MAX_MESSAGES]")
  case None
  then show ?thesis by (simp add: sendMessage_find)
next
  case (Some i)
  then have "slot_free c (shm ! i)"
    by (auto simp: find_Some_iff)
  with assms have "i \<noteq> k" by auto
  with Some show ?thesis by (simp add: sendMessage_find)
qed

lemma find_upt_first:
  assumes "i < n" "P i" "\<forall>j < i. \<not> P j"
  shows "find P [0..<n] = Some i"
  unfolding find_Some_iff
proof (intro exI [of _ i] conjI allI impI)
  show "i < length [0..<n]" using assms(1) by simp
  show "P ([0..<n] ! i)" using assms(1,2) by simp
  show "i = [0..<n] ! i" using assms(1) by simp
next
  fix j assume "j < i"
  then show "\<not> P ([0..<n] ! j)" using assms(1,3) by simp
qed

lemma find_upt_none:
  assumes "\<forall>j < n. \<not> P j"
  shows "find P [0..<n] = None"
  using assms by (simp add: find_None_iff)

lemma sendMessage_stores:
  assumes "is_initialized c" "shared_memory_mapped c" "acquired"
    and "i < MAX_MESSAGES"
    and "slot_free c (shm ! i)"
    and "\<forall>j < i. \<not> slot_free c (shm ! j)"
  shows "sendMessage c acquired shm receiver ty pos ori dat =
     (True, shm[i := \<lparr>sender_id = robot_id c, receiver_id = receiver, msg_type = ty,
                      timestamp = current_cycle c, msg_position = pos,
                      msg_orientation = ori, data = stored_data dat\<rparr>])"
proof -
  have "find (\<lambda>i. slot_free c (shm ! i)) [0..<MAX_MESSAGES] = Some i"
    using assms(4-6) by (rule find_upt_first)
  then show ?thesis using assms(1-3) by (simp add: sendMessage_find sent_message_def)
qed

lemma sendMessage_full:
  assumes "\<forall>j < MAX_MESSAGES. \<not> slot_free c (shm ! j)"
  shows "sendMessage c acquired shm receiver ty pos ori dat = (False, shm)"
proof -
  have "find (\<lambda>i. slot_free c (shm ! i)) [0..<MAX_MESSAGES] = None"
    using assms by (rule find_upt_none)
  then show ?thesis by (simp add: sendMessage_find)
qed

lemma run_sends_keeps:
  assumes "\<forall>s \<in> set calls. \<not> slot_free (caller s) (shm ! k)"
  shows "run_sends calls shm ! k = shm ! k"
  using assms
proof (induction calls arbitrary: shm)
  case Nil
  show ?case by (simp add: run_sends_def)
next
  case (Cons s calls)
  have "\<not> slot_free (caller s) (shm ! k)"
    using Cons.prems by simp
  then have keep: "do_send s shm ! k = shm ! k"
    unfolding do_send_def by (rule sendMessage_keeps)
  have "run_sends calls (do_send s shm) ! k = do_send s shm ! k"
  proof (rule Cons.IH)
    show "\<forall>s' \<in> set calls. \<not> slot_free (caller s') (do_send s shm ! k)"
      using Cons.prems by (simp add: keep)
  qed
  then show ?case by (simp add: run_sends_def keep)
qed

lemma send_then_receive:
  assumes rc: "is_initialized c" "shared_memory_mapped c" "acquired"
    and sd: "is_initialized s" "shared_memory_mapped s"
    and len: "length shm = MAX_MESSAGES"
    and i: "i < MAX_MESSAGES" "slot_free s (shm ! i)" "\<forall>j < i. \<not> slot_free s (shm ! j)"
    and filter: "ty = NONE \<or> ty = ty'"
    and cyc: "- 1 < current_cycle s"
    and before: "\<forall>j < i. matches (robot_id c) ty (shm ! j)
        \<longrightarrow> timestamp (shm ! j) < current_cycle s"
    and others: "\<forall>j < MAX_MESSAGES. matches (robot_id c) ty (shm ! j)
        \<longrightarrow> j = i \<or> timestamp (shm ! j) \<le> current_cycle s"
  shows "receiveMessage c acquired
           (snd (sendMessage s True shm (robot_id c) ty' pos ori dat)) ty
         = sent_message s (robot_id c) ty' pos ori dat"
proof -
  let ?m = "sent_message s (robot_id c) ty' pos ori dat"
  have sent: "sendMessage s True shm (robot_id c) ty' pos ori dat = (True, shm[i := ?m])"
    using sendMessage_stores [OF sd TrueI i] by (simp add: sent_message_def)
  have m: "matches (robot_id c) ty ?m" "timestamp ?m = current_cycle s"
    using filter by (auto simp: matches_def sent_message_def)
  have at: "shm[i := ?m] ! i = ?m"
    using i(1) len by simp
  have other: "shm[i := ?m] ! j = shm ! j" if "j \<noteq> i" for j
    using that by simp
  have "freshest (robot_id c) ty (shm[i := ?m]) MAX_MESSAGES i"
    unfolding freshest_def
  proof (intro conjI allI impI)
    show "i < MAX_MESSAGES" by (rule i(1))
    show "matches (robot_id c) ty (shm[i := ?m] ! i)" by (simp only: at m)
    show "- 1 < timestamp (shm[i := ?m] ! i)" using cyc by (simp only: at m)
  next
    fix j assume j: "j < MAX_MESSAGES" "matches (robot_id c) ty (shm[i := ?m] ! j)"
    show "timestamp (shm[i := ?m] ! j) \<le> timestamp (shm[i := ?m] ! i)"
    proof (cases "j = i")
      case True
      then show ?thesis by simp
    next
      case False
      with j(2) have "matches (robot_id c) ty (shm ! j)"
        by (simp add: other)
      with j(1) others False have "timestamp (shm ! j) \<le> current_cycle s"
        by blast
      with False show ?thesis by (simp add: other at m)
    qed
  next
    fix j assume j: "j < i" "matches (robot_id c) ty (shm[i := ?m] ! j)"
    then have "matches (robot_id c) ty (shm ! j)"
      by (simp add: other)
    with j(1) before have "timestamp (shm ! j) < current_cycle s"
      by blast
    with j(1) show "timestamp (shm[i := ?m] ! j) < timestamp (shm[i := ?m] ! i)"
      by (simp add: other at m)
  qed
  from receiveMessage_freshest [OF rc this] show ?thesis
    by (simp add: sent at)
qed

text \<open>
  Below \<open>INT_MIN + 10\<close> the stale-slot test wraps: in cycle \<open>INT_MIN + 1\<close> a slot written in
  that very cycle is taken again by the next \<open>sendMessage\<close>.
\<close>

lemma sendMessage_wraps_below_window:
  "sendMessage (scenario_comm 1 (INT_MIN + 1)) True
      (scenario_empty_table[0 := sent_message (scenario_comm 1 (INT_MIN + 1)) 3
          PASS_INTENTION (point 50 50) 0 []])
      4 BALL_POSSESSION (point 10 10) 0 []
   = (True, scenario_empty_table[0 := sent_message (scenario_comm 1 (INT_MIN + 1)) 4
          BALL_POSSESSION (point 10 10) 0 []])"
proof -
  let ?c = "scenario_comm 1 (INT_MIN + 1)"
  let ?shm = "scenario_empty_table[0 := sent_message ?c 3 PASS_INTENTION (point 50 50) 0 []]"
  have "slot_free ?c (?shm ! 0)"
    by (simp add: slot_free_def int_wrap_def INT_MIN_def scenario_empty_table_def
        MAX_MESSAGES_def sent_message_def scenario_comm_def)
  then have "sendMessage ?c True ?shm 4 BALL_POSSESSION (point 10 10) 0 [] =
      (True, ?shm[0 := \<lparr>sender_id = robot_id ?c, receiver_id = 4, msg_type = BALL_POSSESSION,
                      timestamp = current_cycle ?c, msg_position = point 10 10,
                      msg_orientation = 0, data = stored_data []\<rparr>])"
    by (intro sendMessage_stores) (simp_all add: scenario_comm_def MAX_MESSAGES_def)
  then show ?thesis by (simp add: sent_message_def)
qed

lemma receiveMessage_addressed:
  assumes init: "is_initialized c" "shared_memory_mapped c" "acquired"
  shows "receiveMessage c acquired shm ty = Message_default
     \<or> (\<exists>i < MAX_MESSAGES. receiveMessage c acquired shm ty = shm ! i
            \<and> receiver_id (shm ! i) = robot_id c
            \<and> (ty = NONE \<or> msg_type (shm ! i) = ty))"
  using receiveMessage_cases [OF init, where ty = ty and shm = shm]
proof (elim disjE conjE exE)
  assume "receiveMessage c acquired shm ty = Message_default"
  then show ?thesis by (rule disjI1)
next
  fix i
  assume f: "freshest (robot_id c) ty shm MAX_MESSAGES i"
    and r: "receiveMessage c acquired shm ty = shm ! i"
  from f have "i < MAX_MESSAGES" "receiver_id (shm ! i) = robot_id c"
    "ty = NONE \<or> msg_type (shm ! i) = ty"
    by (simp_all add: freshest_def matches_def)
  with r have "\<exists>i < MAX_MESSAGES. receiveMessage c acquired shm ty = shm ! i
            \<and> receiver_id (shm ! i) = robot_id c
            \<and> (ty = NONE \<or> msg_type (shm ! i) = ty)"
    by blast
  then show ?thesis by (rule disjI2)
qed

lemma receiveMessage_unavailable:
  "\<not> is_initialized c \<or> \<not> shared_memory_mapped c \<or> \<not> acquired
     \<Longrightarrow> receiveMessage c acquired shm ty = Message_default"
  by (auto simp: receiveMessage_def)

lemma scenario_comm_simps:
  "robot_id (scenario_comm rid cycle) = rid"
  "current_cycle (scenario_comm rid cycle) = cycle"
  "is_initialized (scenario_comm rid cycle)"
  "shared_memory_mapped (scenario_comm rid cycle)"
  by (simp_all add: scenario_comm_def)

lemma scenario_table1_eq: "scenario_table1 = scenario_empty_table[0 := scenario_first]"
proof -
  have "sendMessage (scenario_comm 1 5) True scenario_empty_table 3 PASS_INTENTION
            (point 50 50) 0 [] =
      (True, scenario_empty_table[0 := \<lparr>sender_id = robot_id (scenario_comm 1 5), receiver_id = 3,
          msg_type = PASS_INTENTION, timestamp = current_cycle (scenario_comm 1 5),
          msg_position = point 50 50, msg_orientation = 0, data = stored_data []\<rparr>])"
    by (rule sendMessage_stores)
      (simp_all add: scenario_comm_simps scenario_empty_table_def MAX_MESSAGES_def zero_slot_def
        slot_free_def)
  then show ?thesis
    by (simp add: scenario_table1_def scenario_first_def scenario_comm_simps stored_data_def)
qed

lemma scenario_table1_nth:
  "j < MAX_MESSAGES \<Longrightarrow> scenario_table1 ! j = (if j = 0 then scenario_first else zero_slot)"
  by (simp add: scenario_table1_eq scenario_empty_table_def nth_list_update)

lemma scenario_table2_eq: "scenario_table2 = scenario_table1[1 := scenario_second]"
proof -
  have "sendMessage (scenario_comm 2 6) True scenario_table1 3 PASS_INTENTION
            (point 60 60) 0 [] =
      (True, scenario_table1[1 := \<lparr>sender_id = robot_id (scenario_comm 2 6), receiver_id = 3,
          msg_type = PASS_INTENTION, timestamp = current_cycle (scenario_comm 2 6),
          msg_position = point 60 60, msg_orientation = 0, data = stored_data []\<rparr>])"
  proof (rule sendMessage_stores)
    show "(1::nat) < MAX_MESSAGES" by (simp add: MAX_MESSAGES_def)
    show "slot_free (scenario_comm 2 6) (scenario_table1 ! 1)"
      by (simp add: scenario_table1_nth MAX_MESSAGES_def zero_slot_def slot_free_def)
    show "\<forall>j < 1. \<not> slot_free (scenario_comm 2 6) (scenario_table1 ! j)"
      by (simp add: scenario_table1_nth MAX_MESSAGES_def scenario_first_def scenario_comm_simps
          slot_free_def int_wrap_def)
  qed (simp_all add: scenario_comm_simps)
  then show ?thesis
    by (simp add: scenario_table2_def scenario_second_def scenario_comm_simps stored_data_def)
qed

lemma scenario_table2_nth:
  "j < MAX_MESSAGES \<Longrightarrow>
     scenario_table2 ! j = (if j = 0 then scenario_first else if j = 1 then scenario_second else zero_slot)"
  by (simp add: scenario_table2_eq scenario_table1_eq scenario_empty_table_def nth_list_update)

lemma scenario_matches:
  "matches 3 ty scenario_first \<longleftrightarrow> ty = NONE \<or> ty = PASS_INTENTION"
  "matches 3 ty scenario_second \<longleftrightarrow> ty = NONE \<or> ty = PASS_INTENTION"
  "\<not> matches 3 ty zero_slot"
  "\<not> matches 4 ty scenario_first"
  "\<not> matches 4 ty zero_slot"
  "timestamp scenario_first = 5" "timestamp scenario_second = 6"
  by (auto simp: matches_def scenario_first_def scenario_second_def zero_slot_def)

lemma scenario_second_freshest:
  assumes "ty = NONE \<or> ty = PASS_INTENTION"
  shows "freshest 3 ty scenario_table2 MAX_MESSAGES 1"
  unfolding freshest_def
proof (intro conjI allI impI)
  show "1 < MAX_MESSAGES" by (simp add: MAX_MESSAGES_def)
  show "matches 3 ty (scenario_table2 ! 1)"
    using assms by (simp add: scenario_table2_nth MAX_MESSAGES_def scenario_matches)
  show "- 1 < timestamp (scenario_table2 ! 1)"
    by (simp add: scenario_table2_nth MAX_MESSAGES_def scenario_matches)
next
  fix j assume "j < MAX_MESSAGES" "matches 3 ty (scenario_table2 ! j)"
  then show "timestamp (scenario_table2 ! j) \<le> timestamp (scenario_table2 ! 1)"
    by (simp add: scenario_table2_nth MAX_MESSAGES_def scenario_matches split: if_splits)
next
  fix j :: nat assume "j < 1" "matches 3 ty (scenario_table2 ! j)"
  then show "timestamp (scenario_table2 ! j) < timestamp (scenario_table2 ! 1)"
    by (simp add: scenario_table2_nth MAX_MESSAGES_def scenario_matches)
qed

lemma scenario_receive_shadowed:
  "receiveMessage (scenario_comm 3 6) True scenario_table2 NONE = scenario_second"
  "receiveMessage (scenario_comm 3 6) True scenario_table2 PASS_INTENTION = scenario_second"
proof -
  have "receiveMessage (scenario_comm 3 6) True scenario_table2 ty = scenario_table2 ! 1"
    if "ty = NONE \<or> ty = PASS_INTENTION" for ty
  proof (rule receiveMessage_freshest)
    show "freshest (robot_id (scenario_comm 3 6)) ty scenario_table2 MAX_MESSAGES 1"
      using that by (simp only: scenario_comm_simps scenario_second_freshest)
  qed (simp_all add: scenario_comm_simps)
  then show "receiveMessage (scenario_comm 3 6) True scenario_table2 NONE = scenario_second"
    "receiveMessage (scenario_comm 3 6) True scenario_table2 PASS_INTENTION = scenario_second"
    by (simp_all add: scenario_table2_nth MAX_MESSAGES_def)
qed

lemma scenario_receive_other_filter:
  assumes "ty \<noteq> NONE" "ty \<noteq> PASS_INTENTION"
  shows "receiveMessage (scenario_comm 3 6) True scenario_table2 ty = Message_default"
proof (rule receiveMessage_none)
  show "\<forall>j < MAX_MESSAGES. matches (robot_id (scenario_comm 3 6)) ty (scenario_table2 ! j)
      \<longrightarrow> timestamp (scenario_table2 ! j) \<le> - 1"
    using assms by (simp add: scenario_comm_simps scenario_table2_nth scenario_matches)
qed (simp_all add: scenario_comm_simps)

lemma scenario_later_table:
  "run_sends [scenario_later_call] scenario_table1 =
     scenario_table1[1 := sent_message (scenario_comm 2 6) 4 BALL_POSSESSION (point 10 10) 0 []]"
proof -
  have "sendMessage (scenario_comm 2 6) True scenario_table1 4 BALL_POSSESSION
            (point 10 10) 0 [] =
      (True, scenario_table1[1 := \<lparr>sender_id = robot_id (scenario_comm 2 6), receiver_id = 4,
          msg_type = BALL_POSSESSION, timestamp = current_cycle (scenario_comm 2 6),
          msg_position = point 10 10, msg_orientation = 0, data = stored_data []\<rparr>])"
  proof (rule sendMessage_stores)
    show "(1::nat) < MAX_MESSAGES" by (simp add: MAX_MESSAGES_def)
    show "slot_free (scenario_comm 2 6) (scenario_table1 ! 1)"
      by (simp add: scenario_table1_nth MAX_MESSAGES_def zero_slot_def slot_free_def)
    show "\<forall>j < 1. \<not> slot_free (scenario_comm 2 6) (scenario_table1 ! j)"
      by (simp add: scenario_table1_nth MAX_MESSAGES_def scenario_first_def scenario_comm_simps
          slot_free_def int_wrap_def)
  qed (simp_all add: scenario_comm_simps)
  then show ?thesis
    by (simp add: run_sends_def do_send_def scenario_later_call_def sent_message_def)
qed

lemma scenario_later_nth:
  "j < MAX_MESSAGES \<Longrightarrow>
     run_sends [scenario_later_call] scenario_table1 ! j =
       (if j = 0 then scenario_first
        else if j = 1 then sent_message (scenario_comm 2 6) 4 BALL_POSSESSION (point 10 10) 0 []
        else zero_slot)"
  unfolding scenario_later_table
  by (simp add: scenario_table1_eq scenario_empty_table_def nth_list_update)

lemma scenario_later_freshest:
  "freshest 3 PASS_INTENTION (run_sends [scenario_later_call] scenario_table1) MAX_MESSAGES 0"
  unfolding freshest_def
proof (intro conjI allI impI)
  show "0 < MAX_MESSAGES" by (simp add: MAX_MESSAGES_def)
  show "matches 3 PASS_INTENTION (run_sends [scenario_later_call] scenario_table1 ! 0)"
    by (simp add: scenario_later_nth MAX_MESSAGES_def scenario_matches)
  show "- 1 < timestamp (run_sends [scenario_later_call] scenario_table1 ! 0)"
    by (simp add: scenario_later_nth MAX_MESSAGES_def scenario_matches)
next
  fix j
  assume "j < MAX_MESSAGES"
    "matches 3 PASS_INTENTION (run_sends [scenario_later_call] scenario_table1 ! j)"
  then show "timestamp (run_sends [scenario_later_call] scenario_table1 ! j)
      \<le> timestamp (run_sends [scenario_later_call] scenario_table1 ! 0)"
    by (simp add: scenario_later_nth MAX_MESSAGES_def scenario_matches matches_def
        sent_message_def zero_slot_def split: if_splits)
next
  fix j :: nat assume "j < 0"
  then show "timestamp (run_sends [scenario_later_call] scenario_table1 ! j)
      < timestamp (run_sends [scenario_later_call] scenario_table1 ! 0)" by simp
qed

text \<open>
  Claim C4, as stated, fails: a message sent to robot 3 whose slot has not been
  overwritten and whose age is one cycle is returned by no \<open>receiveMessage\<close> call of
  robot 3, whatever the filter, once a fresher message of the same type addressed to
  robot 3 is in the table.
\<close>

theorem C4_shadowed_message_counterexample:
  "scenario_table2 ! 0 = scenario_first
   \<and> receiver_id scenario_first = 3 \<and> msg_type scenario_first \<noteq> NONE
   \<and> current_cycle (scenario_comm 3 6) - timestamp scenario_first \<le> 10
   \<and> receiveMessage (scenario_comm 3 6) True scenario_table2 NONE \<noteq> scenario_first
   \<and> receiveMessage (scenario_comm 3 6) True scenario_table2 BALL_POSSESSION \<noteq> scenario_first
   \<and> receiveMessage (scenario_comm 3 6) True scenario_table2 PASS_INTENTION \<noteq> scenario_first
   \<and> receiveMessage (scenario_comm 3 6) True scenario_table2 PASS_EXECUTION \<noteq> scenario_first
   \<and> receiveMessage (scenario_comm 3 6) True scenario_table2 POSITION_EXCHANGE \<noteq> scenario_first
   \<and> receiveMessage (scenario_comm 3 6) True scenario_table2 ATTACK_STRATEGY \<noteq> scenario_first
   \<and> receiveMessage (scenario_comm 3 6) True scenario_table2 DEFENSE_STRATEGY \<noteq> scenario_first
   \<and> receiveMessage (scenario_comm 3 6) True scenario_table2 EMERGENCY \<noteq> scenario_first"
proof -
  have ne: "scenario_second \<noteq> scenario_first" "Message_default \<noteq> scenario_first"
    by (simp_all add: scenario_second_def scenario_first_def Message_default_def)
  have "scenario_table2 ! 0 = scenario_first"
    by (simp add: scenario_table2_nth MAX_MESSAGES_def)
  moreover have "receiver_id scenario_first = 3" "msg_type scenario_first \<noteq> NONE"
    "current_cycle (scenario_comm 3 6) - timestamp scenario_first \<le> 10"
    by (simp_all add: scenario_first_def scenario_comm_simps)
  ultimately show ?thesis
    by (simp add: scenario_receive_shadowed scenario_receive_other_filter ne)
qed

text \<open>
  Claim C4, amended. For an initialised caller that obtains the mutex, each
  \<open>receiveMessage(typeFilter)\<close> call returns either the default NONE sentinel or a copy of
  a slot addressed to the caller that matches the filter (any type when the filter is
  NONE): the sentinel when no matching slot addressed to the caller has a timestamp
  above \<open>-1\<close>, and otherwise the lowest-indexed of the matching slots of greatest
  timestamp. So a message addressed to another agent is never returned.

  \<open>sendMessage\<close> of an initialised process that obtains the mutex writes its message,
  stamped with the sender's cycle count, into the first free slot and reports success,
  and leaves the table as it is and reports failure when no slot is free. A
  \<open>receiveMessage\<close> call of the receiver on the table after the send returns that message
  when the filter admits its type, the cycle count is not negative, no matching slot
  before it has a timestamp at or above the cycle count and no matching slot after it one
  above the cycle count.

  A slot is left untouched by every later \<open>sendMessage\<close> of a process for which it is not
  free, and the message in it is returned to its receiver whenever it is that freshest
  matching slot; \<open>receiveMessage\<close> itself applies no age limit. For a cycle count from
  \<open>INT_MIN + 10\<close> to \<open>INT_MAX\<close> a slot is free when its type is NONE or its timestamp is more
  than 10 below the cycle count; for a cycle count below \<open>INT_MIN + 10\<close> the 32-bit
  subtraction wraps and the slot is free when its type is NONE or its timestamp is below
  the cycle count minus 10 plus \<open>2^32\<close>.
\<close>

theorem C4_message_bus_amended:
  assumes "is_initialized c" and "shared_memory_mapped c" and "acquired"
  shows "(receiveMessage c acquired shm ty = Message_default
           \<or> (\<exists>i < MAX_MESSAGES. receiveMessage c acquired shm ty = shm ! i
                 \<and> receiver_id (shm ! i) = robot_id c
                 \<and> (ty = NONE \<or> msg_type (shm ! i) = ty)))
     \<and> (\<forall>m. receiver_id m \<noteq> robot_id c \<and> m \<noteq> Message_default
            \<longrightarrow> receiveMessage c acquired shm ty \<noteq> m)
     \<and> ((\<forall>j < MAX_MESSAGES. matches (robot_id c) ty (shm ! j) \<longrightarrow> timestamp (shm ! j) \<le> - 1)
            \<longrightarrow> receiveMessage c acquired shm ty = Message_default)
     \<and> ((\<exists>j < MAX_MESSAGES. matches (robot_id c) ty (shm ! j) \<and> - 1 < timestamp (shm ! j))
            \<longrightarrow> (\<exists>i. freshest (robot_id c) ty shm MAX_MESSAGES i))
     \<and> (\<forall>i. freshest (robot_id c) ty shm MAX_MESSAGES i
            \<longrightarrow> receiveMessage c acquired shm ty = shm ! i)
     \<and> (\<forall>sender receiver ty' pos ori dat i.
            is_initialized sender \<and> shared_memory_mapped sender
            \<and> i < MAX_MESSAGES \<and> slot_free sender (shm ! i)
            \<and> (\<forall>j < i. \<not> slot_free sender (shm ! j))
            \<longrightarrow> sendMessage sender True shm receiver ty' pos ori dat
                  = (True, shm[i := sent_message sender receiver ty' pos ori dat]))
     \<and> (\<forall>sender receiver ty' pos ori dat.
            (\<forall>j < MAX_MESSAGES. \<not> slot_free sender (shm ! j))
            \<longrightarrow> sendMessage sender True shm receiver ty' pos ori dat = (False, shm))
     \<and> (\<forall>sender ty' pos ori dat i.
            is_initialized sender \<and> shared_memory_mapped sender
            \<and> length shm = MAX_MESSAGES
            \<and> i < MAX_MESSAGES \<and> slot_free sender (shm ! i)
            \<and> (\<forall>j < i. \<not> slot_free sender (shm ! j))
            \<and> (ty = NONE \<or> ty = ty') \<and> - 1 < current_cycle sender
            \<and> (\<forall>j < i. matches (robot_id c) ty (shm ! j)
                   \<longrightarrow> timestamp (shm ! j) < current_cycle sender)
            \<and> (\<forall>j < MAX_MESSAGES. matches (robot_id c) ty (shm ! j)
                   \<longrightarrow> j = i \<or> timestamp (shm ! j) \<le> current_cycle sender)
            \<longrightarrow> receiveMessage c acquired
                   (snd (sendMessage sender True shm (robot_id c) ty' pos ori dat)) ty
                  = sent_message sender (robot_id c) ty' pos ori dat)
     \<and> (\<forall>k (calls :: SendCall list).
            (\<forall>s \<in> set calls. \<not> slot_free (caller s) (shm ! k))
            \<longrightarrow> run_sends calls shm ! k = shm ! k)
     \<and> (\<forall>k (calls :: SendCall list).
            (\<forall>s \<in> set calls. \<not> slot_free (caller s) (shm ! k))
            \<and> freshest (robot_id c) ty (run_sends calls shm) MAX_MESSAGES k
            \<longrightarrow> receiveMessage c acquired (run_sends calls shm) ty = shm ! k)
     \<and> (\<forall>sender m. INT_MIN + 10 \<le> current_cycle sender \<and> current_cycle sender \<le> INT_MAX
            \<longrightarrow> (slot_free sender m
                   \<longleftrightarrow> msg_type m = NONE \<or> timestamp m < current_cycle sender - 10))
     \<and> (\<forall>sender m. INT_MIN \<le> current_cycle sender \<and> current_cycle sender < INT_MIN + 10
            \<longrightarrow> (slot_free sender m
                   \<longleftrightarrow> msg_type m = NONE
                       \<or> timestamp m < current_cycle sender - 10 + 4294967296))"
proof -
  have a: "receiveMessage c acquired shm ty = Message_default
           \<or> (\<exists>i < MAX_MESSAGES. receiveMessage c acquired shm ty = shm ! i
                 \<and> receiver_id (shm ! i) = robot_id c
                 \<and> (ty = NONE \<or> msg_type (shm ! i) = ty))"
    by (rule receiveMessage_addressed [OF assms])
  have b: "\<forall>m. receiver_id m \<noteq> robot_id c \<and> m \<noteq> Message_default
            \<longrightarrow> receiveMessage c acquired shm ty \<noteq> m"
    using a by auto
  have c3: "(\<forall>j < MAX_MESSAGES. matches (robot_id c) ty (shm ! j) \<longrightarrow> timestamp (shm ! j) \<le> - 1)
            \<longrightarrow> receiveMessage c acquired shm ty = Message_default"
    using receiveMessage_none [OF assms] by blast
  have c4: "(\<exists>j < MAX_MESSAGES. matches (robot_id c) ty (shm ! j) \<and> - 1 < timestamp (shm ! j))
            \<longrightarrow> (\<exists>i. freshest (robot_id c) ty shm MAX_MESSAGES i)"
  proof
    assume e: "\<exists>j < MAX_MESSAGES. matches (robot_id c) ty (shm ! j) \<and> - 1 < timestamp (shm ! j)"
    from receiveMessage_cases [OF assms, where ty = ty and shm = shm]
    show "\<exists>i. freshest (robot_id c) ty shm MAX_MESSAGES i"
    proof (elim disjE conjE exE)
      assume "\<forall>j < MAX_MESSAGES. matches (robot_id c) ty (shm ! j) \<longrightarrow> timestamp (shm ! j) \<le> - 1"
      with e have False by force
      then show ?thesis ..
    next
      fix i assume "freshest (robot_id c) ty shm MAX_MESSAGES i"
      then show ?thesis by (rule exI)
    qed
  qed
  have c5: "\<forall>i. freshest (robot_id c) ty shm MAX_MESSAGES i
            \<longrightarrow> receiveMessage c acquired shm ty = shm ! i"
    using receiveMessage_freshest [OF assms] by blast
  have c6: "\<forall>sender receiver ty' pos ori dat i.
            is_initialized sender \<and> shared_memory_mapped sender
            \<and> i < MAX_MESSAGES \<and> slot_free sender (shm ! i)
            \<and> (\<forall>j < i. \<not> slot_free sender (shm ! j))
            \<longrightarrow> sendMessage sender True shm receiver ty' pos ori dat
                  = (True, shm[i := sent_message sender receiver ty' pos ori dat])"
  proof (intro allI impI, elim conjE)
    fix sender receiver ty' pos ori dat i
    assume "is_initialized sender" "shared_memory_mapped sender" "i < MAX_MESSAGES"
      "slot_free sender (shm ! i)" "\<forall>j < i. \<not> slot_free sender (shm ! j)"
    then have "find (\<lambda>i. slot_free sender (shm ! i)) [0..<MAX_MESSAGES] = Some i"
      by (intro find_upt_first)
    then show "sendMessage sender True shm receiver ty' pos ori dat
        = (True, shm[i := sent_message sender receiver ty' pos ori dat])"
      using \<open>is_initialized sender\<close> \<open>shared_memory_mapped sender\<close>
      by (simp add: sendMessage_find)
  qed
  have c7: "\<forall>sender receiver ty' pos ori dat.
            (\<forall>j < MAX_MESSAGES. \<not> slot_free sender (shm ! j))
            \<longrightarrow> sendMessage sender True shm receiver ty' pos ori dat = (False, shm)"
    using sendMessage_full by blast
  have c8: "\<forall>sender ty' pos ori dat i.
            is_initialized sender \<and> shared_memory_mapped sender
            \<and> length shm = MAX_MESSAGES
            \<and> i < MAX_MESSAGES \<and> slot_free sender (shm ! i)
            \<and> (\<forall>j < i. \<not> slot_free sender (shm ! j))
            \<and> (ty = NONE \<or> ty = ty') \<and> - 1 < current_cycle sender
            \<and> (\<forall>j < i. matches (robot_id c) ty (shm ! j)
                   \<longrightarrow> timestamp (shm ! j) < current_cycle sender)
            \<and> (\<forall>j < MAX_MESSAGES. matches (robot_id c) ty (shm ! j)
                   \<longrightarrow> j = i \<or> timestamp (shm ! j) \<le> current_cycle sender)
            \<longrightarrow> receiveMessage c acquired
                   (snd (sendMessage sender True shm (robot_id c) ty' pos ori dat)) ty
                  = sent_message sender (robot_id c) ty' pos ori dat"
  proof (intro allI impI, elim conjE)
    fix sender ty' pos ori dat i
    assume "is_initialized sender" "shared_memory_mapped sender"
      "length shm = MAX_MESSAGES" "i < MAX_MESSAGES" "slot_free sender (shm ! i)"
      "\<forall>j < i. \<not> slot_free sender (shm ! j)" "ty = NONE \<or> ty = ty'"
      "- 1 < current_cycle sender"
      "\<forall>j < i. matches (robot_id c) ty (shm ! j) \<longrightarrow> timestamp (shm ! j) < current_cycle sender"
      "\<forall>j < MAX_MESSAGES. matches (robot_id c) ty (shm ! j)
          \<longrightarrow> j = i \<or> timestamp (shm ! j) \<le> current_cycle sender"
    then show "receiveMessage c acquired
        (snd (sendMessage sender True shm (robot_id c) ty' pos ori dat)) ty
        = sent_message sender (robot_id c) ty' pos ori dat"
      by (rule send_then_receive [OF assms])
  qed
  have c9: "\<forall>k (calls :: SendCall list).
            (\<forall>s \<in> set calls. \<not> slot_free (caller s) (shm ! k))
            \<longrightarrow> run_sends calls shm ! k = shm ! k"
    using run_sends_keeps by blast
  have c10: "\<forall>k (calls :: SendCall list).
            (\<forall>s \<in> set calls. \<not> slot_free (caller s) (shm ! k))
            \<and> freshest (robot_id c) ty (run_sends calls shm) MAX_MESSAGES k
            \<longrightarrow> receiveMessage c acquired (run_sends calls shm) ty = shm ! k"
  proof (intro allI impI, elim conjE)
    fix k and calls :: "SendCall list"
    assume keep: "\<forall>s \<in> set calls. \<not> slot_free (caller s) (shm ! k)"
      and f: "freshest (robot_id c) ty (run_sends calls shm) MAX_MESSAGES k"
    from keep have "run_sends calls shm ! k = shm ! k"
      by (rule run_sends_keeps)
    moreover from f have "receiveMessage c acquired (run_sends calls shm) ty
        = run_sends calls shm ! k"
      by (rule receiveMessage_freshest [OF assms])
    ultimately show "receiveMessage c acquired (run_sends calls shm) ty = shm ! k"
      by simp
  qed
  have c11: "\<forall>sender m. INT_MIN + 10 \<le> current_cycle sender \<and> current_cycle sender \<le> INT_MAX
            \<longrightarrow> (slot_free sender m
                   \<longleftrightarrow> msg_type m = NONE \<or> timestamp m < current_cycle sender - 10)"
    using slot_free_in_window by blast
  have c12: "\<forall>sender m. INT_MIN \<le> current_cycle sender \<and> current_cycle sender < INT_MIN + 10
            \<longrightarrow> (slot_free sender m
                   \<longleftrightarrow> msg_type m = NONE
                       \<or> timestamp m < current_cycle sender - 10 + 4294967296)"
    using slot_free_below_window by blast
  from a b c3 c4 c5 c6 c7 c8 c9 c10 c11 c12 show ?thesis
    by (intro conjI)
qed

text \<open>
  The example of the specification: \<open>send(receiver = 3, PASS_INTENTION, (50, 50))\<close> by
  robot 1 in cycle 5 stores the message in slot 0, robot 3 then receives that message
  with the filter PASS_INTENTION and robot 4 receives the sentinel; a later send of
  robot 2 to robot 4 in cycle 6 leaves slot 0 as it is, and robot 3 still receives the
  message.
\<close>

theorem C4_message_bus_witness:
  "sendMessage (scenario_comm 1 5) True scenario_empty_table 3 PASS_INTENTION (point 50 50) 0 []
     = (True, scenario_empty_table[0 := scenario_first])
   \<and> receiveMessage (scenario_comm 3 5) True scenario_table1 PASS_INTENTION = scenario_first
   \<and> receiveMessage (scenario_comm 4 5) True scenario_table1 PASS_INTENTION = Message_default
   \<and> run_sends [scenario_later_call] scenario_table1 ! 0 = scenario_first
   \<and> receiveMessage (scenario_comm 3 6) True (run_sends [scenario_later_call] scenario_table1)
        PASS_INTENTION = scenario_first"
proof -
  have i3: "is_initialized (scenario_comm 3 5)" "shared_memory_mapped (scenario_comm 3 5)"
    and i4: "is_initialized (scenario_comm 4 5)" "shared_memory_mapped (scenario_comm 4 5)"
    and i6: "is_initialized (scenario_comm 3 6)" "shared_memory_mapped (scenario_comm 3 6)"
    and i1: "is_initialized (scenario_comm 1 5)" "shared_memory_mapped (scenario_comm 1 5)"
    by (simp_all add: scenario_comm_simps)
  note empty = C4_message_bus_amended [OF i3 TrueI,
      where shm = scenario_empty_table and ty = PASS_INTENTION]
  have free0: "slot_free (scenario_comm 1 5) (scenario_empty_table ! 0)"
    by (simp add: slot_free_def scenario_empty_table_def MAX_MESSAGES_def zero_slot_def)
  have first: "sent_message (scenario_comm 1 5) 3 PASS_INTENTION (point 50 50) 0 []
      = scenario_first"
    by (simp add: sent_message_def scenario_first_def scenario_comm_simps stored_data_def)
  have zero: "0 < MAX_MESSAGES" by (simp add: MAX_MESSAGES_def)
  have none_before: "\<forall>j < (0::nat). \<not> slot_free (scenario_comm 1 5) (scenario_empty_table ! j)"
    by simp
  from empty [THEN conjunct2, THEN conjunct2, THEN conjunct2, THEN conjunct2, THEN conjunct2, THEN conjunct1, rule_format,
      of "scenario_comm 1 5" 0 3 PASS_INTENTION "point 50 50" 0 "[]"]
    i1 zero free0 none_before
  have "sendMessage (scenario_comm 1 5) True scenario_empty_table 3 PASS_INTENTION
      (point 50 50) 0 []
      = (True, scenario_empty_table[0 := sent_message (scenario_comm 1 5) 3 PASS_INTENTION
          (point 50 50) 0 []])"
    by blast
  then have stored: "sendMessage (scenario_comm 1 5) True scenario_empty_table 3 PASS_INTENTION
      (point 50 50) 0 [] = (True, scenario_empty_table[0 := scenario_first])"
    by (simp only: first)
  have len: "length scenario_empty_table = MAX_MESSAGES"
    by (simp add: scenario_empty_table_def)
  have cyc: "- 1 < current_cycle (scenario_comm 1 5)"
    by (simp add: scenario_comm_simps)
  have no_match: "\<not> matches (robot_id (scenario_comm 3 5)) PASS_INTENTION
      (scenario_empty_table ! j)" if "j < MAX_MESSAGES" for j
    using that by (simp add: scenario_empty_table_def scenario_comm_simps scenario_matches)
  have before: "\<forall>j < (0::nat). matches (robot_id (scenario_comm 3 5)) PASS_INTENTION
      (scenario_empty_table ! j)
      \<longrightarrow> timestamp (scenario_empty_table ! j) < current_cycle (scenario_comm 1 5)"
    by simp
  have others: "\<forall>j < MAX_MESSAGES. matches (robot_id (scenario_comm 3 5)) PASS_INTENTION
      (scenario_empty_table ! j)
      \<longrightarrow> j = 0 \<or> timestamp (scenario_empty_table ! j) \<le> current_cycle (scenario_comm 1 5)"
    using no_match by blast
  from empty [THEN conjunct2, THEN conjunct2, THEN conjunct2, THEN conjunct2, THEN conjunct2, THEN conjunct2, THEN conjunct2, THEN conjunct1, rule_format,
      of "scenario_comm 1 5" 0 PASS_INTENTION "point 50 50" 0 "[]"]
    i1 len zero free0 none_before cyc before others
  have "receiveMessage (scenario_comm 3 5) True
      (snd (sendMessage (scenario_comm 1 5) True scenario_empty_table
              (robot_id (scenario_comm 3 5)) PASS_INTENTION (point 50 50) 0 []))
      PASS_INTENTION
      = sent_message (scenario_comm 1 5) (robot_id (scenario_comm 3 5)) PASS_INTENTION
          (point 50 50) 0 []"
    by blast
  then have r3: "receiveMessage (scenario_comm 3 5) True scenario_table1 PASS_INTENTION
      = scenario_first"
    by (simp add: scenario_comm_simps scenario_table1_def first)
  have n: "\<forall>j < MAX_MESSAGES. matches (robot_id (scenario_comm 4 5)) PASS_INTENTION
      (scenario_table1 ! j) \<longrightarrow> timestamp (scenario_table1 ! j) \<le> - 1"
    by (simp add: scenario_comm_simps scenario_table1_nth scenario_matches)
  from C4_message_bus_amended [OF i4 TrueI,
      where shm = scenario_table1 and ty = PASS_INTENTION, THEN conjunct2, THEN conjunct2, THEN conjunct1] n
  have r4: "receiveMessage (scenario_comm 4 5) True scenario_table1 PASS_INTENTION
      = Message_default"
    by blast
  note later = C4_message_bus_amended [OF i6 TrueI,
      where shm = scenario_table1 and ty = PASS_INTENTION]
  have kept: "\<forall>s \<in> set [scenario_later_call]. \<not> slot_free (caller s) (scenario_table1 ! 0)"
    by (simp add: scenario_later_call_def slot_free_def scenario_table1_nth MAX_MESSAGES_def
        scenario_first_def scenario_comm_simps int_wrap_def)
  from later [THEN conjunct2, THEN conjunct2, THEN conjunct2, THEN conjunct2, THEN conjunct2, THEN conjunct2, THEN conjunct2, THEN conjunct2, THEN conjunct1, rule_format, of "[scenario_later_call]" 0] kept
  have "run_sends [scenario_later_call] scenario_table1 ! 0 = scenario_table1 ! 0"
    by blast
  then have k0: "run_sends [scenario_later_call] scenario_table1 ! 0 = scenario_first"
    by (simp add: scenario_table1_nth MAX_MESSAGES_def)
  have f: "freshest (robot_id (scenario_comm 3 6)) PASS_INTENTION
      (run_sends [scenario_later_call] scenario_table1) MAX_MESSAGES 0"
    unfolding scenario_comm_simps by (rule scenario_later_freshest)
  from later [THEN conjunct2, THEN conjunct2, THEN conjunct2, THEN conjunct2, THEN conjunct2, THEN conjunct2, THEN conjunct2, THEN conjunct2, THEN conjunct2, THEN conjunct1, rule_format, of "[scenario_later_call]" 0] kept f
  have "receiveMessage (scenario_comm 3 6) True (run_sends [scenario_later_call] scenario_table1)
      PASS_INTENTION = scenario_table1 ! 0"
    by blast
  then have r6: "receiveMessage (scenario_comm 3 6) True
      (run_sends [scenario_later_call] scenario_table1) PASS_INTENTION = scenario_first"
    by (simp add: scenario_table1_nth MAX_MESSAGES_def)
  from stored r3 r4 k0 r6 show ?thesis by (intro conjI)
qed

section \<open>Faults in the decision loop\<close>

lemma selectLoop_throws:
  assumes "selectLoop tactics ty bs bt = Inl e"
  shows "\<exists>t \<in> set tactics. evaluate t = Inl e"
  using assms
proof (induction tactics arbitrary: bs bt)
  case Nil
  then show ?case by simp
next
  case (Cons t rest)
  show ?case
  proof (cases "getType t = ty")
    case False
    with Cons.prems have "selectLoop rest ty bs bt = Inl e" by simp
    from Cons.IH [OF this] show ?thesis by auto
  next
    case True
    show ?thesis
    proof (cases "evaluate t")
      case (Inl e')
      with True Cons.prems have "e' = e" by simp
      with Inl show ?thesis by simp
    next
      case (Inr ev)
      show ?thesis
      proof (cases "score ev > bs")
        case gt: True
        with True Inr Cons.prems have "selectLoop rest ty (score ev) (Some t) = Inl e" by simp
        from Cons.IH [OF this] show ?thesis by auto
      next
        case False
        with True Inr Cons.prems have "selectLoop rest ty bs bt = Inl e" by simp
        from Cons.IH [OF this] show ?thesis by auto
      qed
    qed
  qed
qed

lemma selectLoop_member:
  assumes "selectLoop tactics ty bs bt = Inr (Some t)"
  shows "t \<in> set tactics \<or> bt = Some t"
  using assms
proof (induction tactics arbitrary: bs bt)
  case Nil
  then show ?case by simp
next
  case (Cons u rest)
  show ?case
  proof (cases "getType u = ty")
    case False
    with Cons.prems have "selectLoop rest ty bs bt = Inr (Some t)" by simp
    from Cons.IH [OF this] show ?thesis by auto
  next
    case True
    show ?thesis
    proof (cases "evaluate u")
      case (Inl e')
      with True Cons.prems show ?thesis by simp
    next
      case (Inr ev)
      show ?thesis
      proof (cases "score ev > bs")
        case gt: True
        with True Inr Cons.prems have "selectLoop rest ty (score ev) (Some u) = Inr (Some t)" by simp
        from Cons.IH [OF this] show ?thesis by auto
      next
        case False
        with True Inr Cons.prems have "selectLoop rest ty bs bt = Inr (Some t)" by simp
        from Cons.IH [OF this] show ?thesis by auto
      qed
    qed
  qed
qed

lemma selectBestTactic_throws:
  "selectBestTactic tactics ty = Inl e \<Longrightarrow> \<exists>t \<in> set tactics. evaluate t = Inl e"
  unfolding selectBestTactic_def by (rule selectLoop_throws)

lemma selectBestTactic_member:
  "selectBestTactic tactics ty = Inr (Some t) \<Longrightarrow> t \<in> set tactics"
  unfolding selectBestTactic_def by (drule selectLoop_member) simp

lemma getTacticByName_member:
  "getTacticByName tactics name = Some t \<Longrightarrow> t \<in> set tactics"
  by (induction tactics) (auto split: if_splits)

lemma above_threshold_throws:
  "above_threshold x thr = Inl e \<Longrightarrow> \<exists>t. x = Some t \<and> evaluate t = Inl e"
  by (auto simp: above_threshold_def split: option.splits sum.splits)

lemma above_threshold_some:
  "above_threshold x thr = Inr (Some t) \<Longrightarrow> x = Some t"
  by (auto simp: above_threshold_def split: option.splits sum.splits if_splits)

lemma thrown_by_evaluate:
  "t \<in> set tactics \<Longrightarrow> evaluate t = Inl e \<Longrightarrow> thrown_by tactics self_id e"
  unfolding thrown_by_def by blast

lemma thrown_by_execute:
  "t \<in> set tactics \<Longrightarrow> execute t self_id = Inl e \<Longrightarrow> thrown_by tactics self_id e"
  unfolding thrown_by_def by blast

lemma select_above_throws:
  assumes "select_above tactics ty thr = Inl e"
  shows "thrown_by tactics self_id e"
proof (cases "selectBestTactic tactics ty")
  case (Inl e')
  with assms have "selectBestTactic tactics ty = Inl e" by (simp add: select_above_def)
  then obtain t where "t \<in> set tactics" "evaluate t = Inl e"
    using selectBestTactic_throws by blast
  then show ?thesis by (rule thrown_by_evaluate)
next
  case (Inr best)
  with assms have "above_threshold best thr = Inl e" by (simp add: select_above_def)
  then obtain t where t: "best = Some t" "evaluate t = Inl e"
    using above_threshold_throws by blast
  with Inr have "t \<in> set tactics" by (simp add: selectBestTactic_member)
  then show ?thesis using t(2) by (rule thrown_by_evaluate)
qed

lemma select_above_member:
  assumes "select_above tactics ty thr = Inr (Some t)"
  shows "t \<in> set tactics"
proof (cases "selectBestTactic tactics ty")
  case (Inl e')
  with assms show ?thesis by (simp add: select_above_def)
next
  case (Inr best)
  with assms have "above_threshold best thr = Inr (Some t)" by (simp add: select_above_def)
  then have "best = Some t" by (rule above_threshold_some)
  with Inr show ?thesis by (simp add: selectBestTactic_member)
qed

lemma plan_tactics2_throws:
  assumes "plan_tactics2 v tactics self_id ball_pos player_pos = Inl e"
  shows "thrown_by tactics self_id e"
proof (cases "select_above tactics SPECIAL_SITUATION 0.5")
  case (Inl e')
  with assms have "select_above tactics SPECIAL_SITUATION 0.5 = Inl e"
    by (simp add: plan_tactics2_def)
  then show ?thesis by (rule select_above_throws)
next
  case s: (Inr special)
  show ?thesis
  proof (cases special)
    case (Some t)
    with s assms have "execute t self_id = Inl e" by (simp add: plan_tactics2_def)
    moreover from s Some have "t \<in> set tactics" by (simp add: select_above_member)
    ultimately show ?thesis by (intro thrown_by_execute)
  next
    case None
    show ?thesis
    proof (cases "select_above tactics TRANSITION 0.7")
      case (Inl e')
      with s None assms have "select_above tactics TRANSITION 0.7 = Inl e"
        by (simp add: plan_tactics2_def)
      then show ?thesis by (rule select_above_throws)
    next
      case tr: (Inr transition)
      show ?thesis
      proof (cases transition)
        case (Some t)
        with s None tr assms have "execute t self_id = Inl e" by (simp add: plan_tactics2_def)
        moreover from tr Some have "t \<in> set tactics" by (simp add: select_above_member)
        ultimately show ?thesis by (intro thrown_by_execute)
      next
        case n2: None
        let ?ty = "if isInOurHalf (ball_tools v) then DEFENSE else ATTACK"
        show ?thesis
        proof (cases "selectBestTactic tactics ?ty")
          case (Inl e')
          with s None tr n2 assms have "selectBestTactic tactics ?ty = Inl e"
            by (simp add: plan_tactics2_def Let_def)
          then obtain t where "t \<in> set tactics" "evaluate t = Inl e"
            using selectBestTactic_throws by blast
          then show ?thesis by (rule thrown_by_evaluate)
        next
          case b: (Inr best)
          show ?thesis
          proof (cases best)
            case None
            with s \<open>special = None\<close> tr n2 b assms show ?thesis
              by (simp add: plan_tactics2_def Let_def)
          next
            case (Some t)
            with s \<open>special = None\<close> tr n2 b assms have "execute t self_id = Inl e"
              by (simp add: plan_tactics2_def Let_def)
            moreover from b Some have "t \<in> set tactics" by (simp add: selectBestTactic_member)
            ultimately show ?thesis by (intro thrown_by_execute)
          qed
        qed
      qed
    qed
  qed
qed

lemma plan_tactics1_throws:
  assumes "plan_tactics1 v tactics self_id ball_pos player_pos = Inl e"
  shows "thrown_by tactics self_id e"
proof -
  let ?counter = "if isInOurHalf (ball_tools v) \<and> px (velocity (ball_tools v)) > 50
            then above_threshold (getTacticByName tactics ''Counter Attack Tactic'') 0.6
            else Inr None"
  let ?attack = "if isInOpponentHalf (ball_tools v) then select_above tactics ATTACK 0.5
            else Inr None"
  show ?thesis
  proof (cases ?counter)
    case (Inl e')
    with assms have c: "?counter = Inl e" by (simp add: plan_tactics1_def)
    then have "above_threshold (getTacticByName tactics ''Counter Attack Tactic'') 0.6 = Inl e"
      by (simp split: if_splits)
    then obtain t where "getTacticByName tactics ''Counter Attack Tactic'' = Some t"
      "evaluate t = Inl e"
      using above_threshold_throws by blast
    then show ?thesis by (intro thrown_by_evaluate getTacticByName_member)
  next
    case c: (Inr counter)
    show ?thesis
    proof (cases counter)
      case (Some t)
      with c assms have "execute t self_id = Inl e" by (simp add: plan_tactics1_def)
      moreover from c Some have "above_threshold (getTacticByName tactics ''Counter Attack Tactic'') 0.6
          = Inr (Some t)"
        by (simp split: if_splits)
      then have "getTacticByName tactics ''Counter Attack Tactic'' = Some t"
        by (rule above_threshold_some)
      then have "t \<in> set tactics" by (rule getTacticByName_member)
      ultimately show ?thesis by (intro thrown_by_execute)
    next
      case None
      show ?thesis
      proof (cases ?attack)
        case (Inl e')
        with c None assms have "?attack = Inl e" by (simp add: plan_tactics1_def)
        then have "select_above tactics ATTACK 0.5 = Inl e" by (simp split: if_splits)
        then show ?thesis by (rule select_above_throws)
      next
        case a: (Inr attack)
        show ?thesis
        proof (cases attack)
          case (Some t)
          with c None a assms have "execute t self_id = Inl e" by (simp add: plan_tactics1_def)
          moreover from a Some have "select_above tactics ATTACK 0.5 = Inr (Some t)"
            by (simp split: if_splits)
          then have "t \<in> set tactics" by (rule select_above_member)
          ultimately show ?thesis by (intro thrown_by_execute)
        next
          case n2: None
          with c None a assms show ?thesis by (simp add: plan_tactics1_def)
        qed
      qed
    qed
  qed
qed

lemma plan_try2_throws:
  assumes "fst (plan_try2 v tactics comm lock shm self_id) = Inl e"
  shows "thrown_by tactics self_id e"
proof -
  from assms have "plan_tactics2 v tactics self_id (position (ball_tools v))
      (our_getPosition v self_id) = Inl e"
    by (simp add: plan_try2_def Let_def split: if_splits)
  then show ?thesis by (rule plan_tactics2_throws)
qed

lemma plan_try1_throws:
  assumes "fst (plan_try1 v tactics comm lock shm self_id) = Inl e"
  shows "thrown_by tactics self_id e"
proof -
  from assms have "plan_tactics1 v tactics self_id (position (ball_tools v))
      (our_getPosition v self_id) = Inl e"
    by (simp add: plan_try1_def Let_def split: if_splits)
  then show ?thesis by (rule plan_tactics1_throws)
qed

lemma sendMessage_no_lock: "sendMessage c False shm receiver ty pos ori dat = (False, shm)"
  by (simp add: sendMessage_def)

lemma broadcast_loop_no_lock:
  "snd (snd (broadcast_loop c (\<lambda>n. False) has_ball ball_pos is n shm)) = shm"
  by (induction "is" arbitrary: n) (simp_all add: sendMessage_no_lock Let_def)

lemma exchange_state_no_lock:
  "exchange_state v comm (\<lambda>n. False) shm self_id = (Message_default, shm)"
  by (simp add: exchange_state_def Let_def broadcastBallPossession_def broadcast_loop_no_lock
      receiveMessage_def)

lemma select_above_no_candidate:
  assumes "\<forall>t \<in> set tactics. getType t \<noteq> ty"
  shows "select_above tactics ty thr = Inr None"
  using selectBestTactic_no_candidate [OF assms]
  by (simp add: select_above_def above_threshold_def)

lemma plan_try2_tactics:
  assumes "play_mode v \<noteq> PM_STOP"
    and "receiver_id (fst (exchange_state v comm lock shm self_id)) \<noteq> self_id"
  shows "fst (plan_try2 v tactics comm lock shm self_id) =
     plan_tactics2 v tactics self_id (position (ball_tools v)) (our_getPosition v self_id)"
  using assms by (simp add: plan_try2_def Let_def)

lemma plan_try1_tactics:
  assumes "play_mode v \<noteq> PM_STOP"
    and "receiver_id (fst (exchange_state v comm lock shm self_id)) \<noteq> self_id"
  shows "fst (plan_try1 v tactics comm lock shm self_id) =
     plan_tactics1 v tactics self_id (position (ball_tools v)) (our_getPosition v self_id)"
  using assms by (simp add: plan_try1_def Let_def)

lemma plan_tactics2_default:
  assumes "select_above tactics SPECIAL_SITUATION 0.5 = Inr None"
    and "select_above tactics TRANSITION 0.7 = Inr None"
    and "\<forall>t \<in> set tactics. getType t \<noteq> (if isInOurHalf (ball_tools v) then DEFENSE else ATTACK)"
  shows "plan_tactics2 v tactics self_id ball_pos player_pos =
     Inr (default_behavior2 v self_id ball_pos player_pos)"
  using assms(1,2) selectBestTactic_no_candidate [OF assms(3)]
  by (simp add: plan_tactics2_def Let_def)

lemma plan_tactics1_basic:
  assumes "\<not> (isInOurHalf (ball_tools v) \<and> px (velocity (ball_tools v)) > 50)
      \<or> above_threshold (getTacticByName tactics ''Counter Attack Tactic'') 0.6 = Inr None"
    and "\<forall>t \<in> set tactics. getType t \<noteq> ATTACK"
  shows "plan_tactics1 v tactics self_id ball_pos player_pos =
     Inr (basic_behavior1 v self_id ball_pos player_pos)"
proof -
  have "(if isInOurHalf (ball_tools v) \<and> px (velocity (ball_tools v)) > 50
            then above_threshold (getTacticByName tactics ''Counter Attack Tactic'') 0.6
            else Inr None) = Inr None"
    using assms(1) by auto
  moreover have "(if isInOpponentHalf (ball_tools v) then select_above tactics ATTACK 0.5
            else Inr None) = Inr None"
    using select_above_no_candidate [OF assms(2)] by simp
  ultimately show ?thesis by (simp add: plan_tactics1_def)
qed

lemma scenario_plan_view_simps:
  "play_mode (scenario_plan_view b) = 99"
  "position (ball_tools (scenario_plan_view b)) = b"
  "our_getPosition (scenario_plan_view b) 1 = point 2870 0"
  "getOrientation (scenario_plan_view b) 1 = 0"
  "getClosestPlayerToBall (scenario_plan_view b) = 1"
  "canHoldBall (scenario_plan_view b) 1 = False"
  "createMoveTask (scenario_plan_view b) 1 p = scenario_task\<lparr>target_pos := p\<rparr>"
  "default_task (scenario_plan_view b) = scenario_task"
  "isInOurHalf (ball_tools (scenario_plan_view b)) \<longleftrightarrow> px b < 0"
  by (simp_all add: scenario_plan_view_def updateState_def isInOurHalf_def)

lemma scenario_throwing_tactic_simps:
  "getType (scenario_throwing_tactic name ty s e) = ty"
  "evaluate (scenario_throwing_tactic name ty s e) = Inr \<lparr>score = s, description = []\<rparr>"
  "execute (scenario_throwing_tactic name ty s e) r = Inl e"
  by (simp_all add: scenario_throwing_tactic_def)

lemma scenario_unevaluable_tactic_simps:
  "getType (scenario_unevaluable_tactic name ty e) = ty"
  "evaluate (scenario_unevaluable_tactic name ty e) = Inl e"
  by (simp_all add: scenario_unevaluable_tactic_def)

lemma raises_simps:
  "raises (Inl e)" "\<not> raises (Inr x)"
  by (simp_all add: raises_def)

lemma raises_iff: "raises r \<longleftrightarrow> (\<exists>e. r = Inl e)"
  by (cases r) (simp_all add: raises_def)

lemma selectLoop_raises:
  assumes "t \<in> set ts" and "getType t = ty" and "raises (evaluate t)"
  shows "raises (selectLoop ts ty bs bt)"
  using assms
proof (induction ts arbitrary: bs bt)
  case Nil
  then show ?case by simp
next
  case (Cons u rest)
  show ?case
  proof (cases "getType u = ty")
    case False
    with Cons.prems have "t \<in> set rest" by auto
    from Cons.IH [OF this Cons.prems(2,3)] False show ?thesis by simp
  next
    case True
    show ?thesis
    proof (cases "evaluate u")
      case (Inl e)
      with True show ?thesis by (simp add: raises_simps)
    next
      case (Inr ev)
      with Cons.prems have "t \<noteq> u" by (auto simp: raises_simps)
      with Cons.prems have "t \<in> set rest" by auto
      from Cons.IH [OF this Cons.prems(2,3)] True Inr show ?thesis by simp
    qed
  qed
qed

lemma selectBestTactic_raises:
  assumes "t \<in> set tactics" and "getType t = ty" and "raises (evaluate t)"
  shows "raises (selectBestTactic tactics ty)"
  unfolding selectBestTactic_def using assms by (rule selectLoop_raises)

lemma select_above_raises:
  assumes "t \<in> set tactics" and "getType t = ty" and "raises (evaluate t)"
  shows "raises (select_above tactics ty thr)"
proof -
  from selectBestTactic_raises [OF assms] obtain e where "selectBestTactic tactics ty = Inl e"
    by (auto simp: raises_iff)
  then show ?thesis by (simp add: select_above_def raises_simps)
qed

text \<open>
  The situations in which a call of \<open>evaluate()\<close> or \<open>execute()\<close> made by the tactic stages
  throws, stage by stage. Every tactic of the requested category is evaluated by
  \<open>selectBestTactic\<close>; the tactic a stage selects is executed.
\<close>

lemma plan_tactics2_raises:
  assumes "(\<exists>t \<in> set tactics. getType t = SPECIAL_SITUATION \<and> raises (evaluate t))
     \<or> (\<exists>t. select_above tactics SPECIAL_SITUATION 0.5 = Inr (Some t)
             \<and> raises (execute t self_id))
     \<or> (select_above tactics SPECIAL_SITUATION 0.5 = Inr None
         \<and> ((\<exists>t \<in> set tactics. getType t = TRANSITION \<and> raises (evaluate t))
           \<or> (\<exists>t. select_above tactics TRANSITION 0.7 = Inr (Some t)
                   \<and> raises (execute t self_id))
           \<or> (select_above tactics TRANSITION 0.7 = Inr None
               \<and> ((\<exists>t \<in> set tactics.
                       getType t = (if isInOurHalf (ball_tools v) then DEFENSE else ATTACK)
                       \<and> raises (evaluate t))
                 \<or> (\<exists>t. selectBestTactic tactics
                             (if isInOurHalf (ball_tools v) then DEFENSE else ATTACK)
                           = Inr (Some t)
                         \<and> raises (execute t self_id))))))"
  shows "raises (plan_tactics2 v tactics self_id ball_pos player_pos)"
proof -
  let ?ty = "if isInOurHalf (ball_tools v) then DEFENSE else ATTACK"
  from assms consider
      (a) t where "t \<in> set tactics" "getType t = SPECIAL_SITUATION" "raises (evaluate t)"
    | (b) t where "select_above tactics SPECIAL_SITUATION 0.5 = Inr (Some t)"
        "raises (execute t self_id)"
    | (c) t where "select_above tactics SPECIAL_SITUATION 0.5 = Inr None"
        "t \<in> set tactics" "getType t = TRANSITION" "raises (evaluate t)"
    | (d) t where "select_above tactics SPECIAL_SITUATION 0.5 = Inr None"
        "select_above tactics TRANSITION 0.7 = Inr (Some t)" "raises (execute t self_id)"
    | (e) t where "select_above tactics SPECIAL_SITUATION 0.5 = Inr None"
        "select_above tactics TRANSITION 0.7 = Inr None"
        "t \<in> set tactics" "getType t = ?ty" "raises (evaluate t)"
    | (f) t where "select_above tactics SPECIAL_SITUATION 0.5 = Inr None"
        "select_above tactics TRANSITION 0.7 = Inr None"
        "selectBestTactic tactics ?ty = Inr (Some t)" "raises (execute t self_id)"
    by blast
  then show ?thesis
  proof cases
    case a
    from select_above_raises [OF a] obtain e
      where "select_above tactics SPECIAL_SITUATION 0.5 = Inl e"
      by (auto simp: raises_iff)
    then show ?thesis by (simp add: plan_tactics2_def raises_simps)
  next
    case b
    then show ?thesis by (simp add: plan_tactics2_def)
  next
    case c
    from select_above_raises [OF c(2-4)] obtain e
      where "select_above tactics TRANSITION 0.7 = Inl e"
      by (auto simp: raises_iff)
    with c(1) show ?thesis by (simp add: plan_tactics2_def raises_simps)
  next
    case d
    then show ?thesis by (simp add: plan_tactics2_def)
  next
    case e
    from selectBestTactic_raises [OF e(3-5)] obtain x
      where "selectBestTactic tactics ?ty = Inl x"
      by (auto simp: raises_iff)
    with e(1,2) show ?thesis by (simp add: plan_tactics2_def raises_simps)
  next
    case f
    then show ?thesis by (simp add: plan_tactics2_def)
  qed
qed

lemma plan_tactics1_raises:
  assumes "(isInOurHalf (ball_tools v) \<and> px (velocity (ball_tools v)) > 50
         \<and> (\<exists>t. getTacticByName tactics ''Counter Attack Tactic'' = Some t
                 \<and> raises (evaluate t)))
     \<or> (\<exists>t. (if isInOurHalf (ball_tools v) \<and> px (velocity (ball_tools v)) > 50
              then above_threshold (getTacticByName tactics ''Counter Attack Tactic'') 0.6
              else Inr None) = Inr (Some t)
             \<and> raises (execute t self_id))
     \<or> ((if isInOurHalf (ball_tools v) \<and> px (velocity (ball_tools v)) > 50
          then above_threshold (getTacticByName tactics ''Counter Attack Tactic'') 0.6
          else Inr None) = Inr None
         \<and> isInOpponentHalf (ball_tools v)
         \<and> ((\<exists>t \<in> set tactics. getType t = ATTACK \<and> raises (evaluate t))
           \<or> (\<exists>t. select_above tactics ATTACK 0.5 = Inr (Some t)
                   \<and> raises (execute t self_id))))"
  shows "raises (plan_tactics1 v tactics self_id ball_pos player_pos)"
proof -
  let ?counter = "if isInOurHalf (ball_tools v) \<and> px (velocity (ball_tools v)) > 50
      then above_threshold (getTacticByName tactics ''Counter Attack Tactic'') 0.6
      else Inr None"
  from assms consider
      (a) t where "isInOurHalf (ball_tools v) \<and> px (velocity (ball_tools v)) > 50"
        "getTacticByName tactics ''Counter Attack Tactic'' = Some t" "raises (evaluate t)"
    | (b) t where "?counter = Inr (Some t)" "raises (execute t self_id)"
    | (c) t where "?counter = Inr None" "isInOpponentHalf (ball_tools v)"
        "t \<in> set tactics" "getType t = ATTACK" "raises (evaluate t)"
    | (d) t where "?counter = Inr None" "isInOpponentHalf (ball_tools v)"
        "select_above tactics ATTACK 0.5 = Inr (Some t)" "raises (execute t self_id)"
    by blast
  then show ?thesis
  proof cases
    case a
    from a(3) obtain e where "evaluate t = Inl e" by (auto simp: raises_iff)
    with a(2) have "above_threshold (getTacticByName tactics ''Counter Attack Tactic'') 0.6
        = Inl e"
      by (simp add: above_threshold_def)
    with a(1) have "?counter = Inl e" by simp
    then show ?thesis by (simp only: plan_tactics1_def sum.case raises_simps)
  next
    case b
    then show ?thesis by (simp only: plan_tactics1_def sum.case option.case)
  next
    case c
    from select_above_raises [OF c(3-5)] obtain e
      where "select_above tactics ATTACK 0.5 = Inl e"
      by (auto simp: raises_iff)
    with c(2) have "(if isInOpponentHalf (ball_tools v) then select_above tactics ATTACK 0.5
        else Inr None) = Inl e"
      by simp
    with c(1) show ?thesis by (simp only: plan_tactics1_def sum.case option.case raises_simps)
  next
    case d
    from d(2,3) have "(if isInOpponentHalf (ball_tools v) then select_above tactics ATTACK 0.5
        else Inr None) = Inr (Some t)"
      by simp
    with d(1,4) show ?thesis by (simp only: plan_tactics1_def sum.case option.case)
  qed
qed

lemma std_exception_of:
  assumes "throws_only_std tactics self_id" and "thrown_by tactics self_id e"
  shows "\<exists>what. e = StdException what"
proof (cases e)
  case (StdException what)
  then show ?thesis by blast
next
  case OtherThrow
  with assms show ?thesis by (auto simp: throws_only_std_def thrown_by_def)
qed

lemma player_plan2_caught:
  assumes "throws_only_std tactics self_id"
    and "raises (fst (plan_try2 v tactics comm lock shm self_id))"
  shows "fst (player_plan2 v tactics comm lock shm self_id) = Inr (hold_position v self_id)"
proof -
  from assms(2) obtain e where e: "fst (plan_try2 v tactics comm lock shm self_id) = Inl e"
    by (auto simp: raises_iff)
  then have "thrown_by tactics self_id e" by (rule plan_try2_throws)
  with assms(1) obtain what where "e = StdException what"
    using std_exception_of by blast
  with e show ?thesis by (simp add: player_plan2_def Let_def)
qed

lemma player_plan1_caught:
  assumes "throws_only_std tactics self_id"
    and "raises (fst (plan_try1 v tactics comm lock shm self_id))"
  shows "fst (player_plan1 v tactics comm lock shm self_id) = Inr (hold_position v self_id)"
proof -
  from assms(2) obtain e where e: "fst (plan_try1 v tactics comm lock shm self_id) = Inl e"
    by (auto simp: raises_iff)
  then have "thrown_by tactics self_id e" by (rule plan_try1_throws)
  with assms(1) obtain what where "e = StdException what"
    using std_exception_of by blast
  with e show ?thesis by (simp add: player_plan1_def Let_def)
qed

lemma player_plan2_passes:
  assumes "fst (plan_try2 v tactics comm lock shm self_id) = Inr task"
  shows "fst (player_plan2 v tactics comm lock shm self_id) = Inr task"
  using assms by (simp add: player_plan2_def Let_def)

lemma player_plan1_passes:
  assumes "fst (plan_try1 v tactics comm lock shm self_id) = Inr task"
  shows "fst (player_plan1 v tactics comm lock shm self_id) = Inr task"
  using assms by (simp add: player_plan1_def Let_def)

text \<open>
  Claim C5. The registered tactics throwing only \<open>std::exception\<close> objects, for every
  world state and robot id:

  \<^item> the decision function returns a command, in robot2.cpp and in robot1.cpp;
  \<^item> whenever the \<open>try\<close> block ends by a throw, the command is the hold-position command,
    whose target position and orientation are the agent's current ones, and otherwise
    it is the command of the \<open>try\<close> block;
  \<^item> in normal play with no pass addressed to the agent, a throw of \<open>evaluate()\<close> of a
    tactic of a category a stage asks for, or of \<open>execute()\<close> of the tactic a stage
    selects, ends the \<open>try\<close> block and so gives the hold-position command. The stages of
    robot2.cpp are special situation, transition, then defense or attack by the ball's
    half; those of robot1.cpp are the counter attack (ball in our half moving forward
    faster than 50) and the attack (ball in the opponent half).
\<close>

theorem C5_fault_becomes_hold_position:
  assumes "throws_only_std tactics self_id"
  shows "(\<exists>task. fst (player_plan2 v tactics comm lock shm self_id) = Inr task)
   \<and> (\<exists>task. fst (player_plan1 v tactics comm lock shm self_id) = Inr task)
   \<and> (raises (fst (plan_try2 v tactics comm lock shm self_id))
        \<longrightarrow> fst (player_plan2 v tactics comm lock shm self_id) = Inr (hold_position v self_id))
   \<and> (raises (fst (plan_try1 v tactics comm lock shm self_id))
        \<longrightarrow> fst (player_plan1 v tactics comm lock shm self_id) = Inr (hold_position v self_id))
   \<and> (\<forall>task. fst (plan_try2 v tactics comm lock shm self_id) = Inr task
        \<longrightarrow> fst (player_plan2 v tactics comm lock shm self_id) = Inr task)
   \<and> (\<forall>task. fst (plan_try1 v tactics comm lock shm self_id) = Inr task
        \<longrightarrow> fst (player_plan1 v tactics comm lock shm self_id) = Inr task)
   \<and> target_pos (hold_position v self_id) = our_getPosition v self_id
   \<and> orientate (hold_position v self_id) = getOrientation v self_id
   \<and> (play_mode v \<noteq> PM_STOP
       \<and> receiver_id (fst (exchange_state v comm lock shm self_id)) \<noteq> self_id
       \<and> ((\<exists>t \<in> set tactics. getType t = SPECIAL_SITUATION \<and> raises (evaluate t))
         \<or> (\<exists>t. select_above tactics SPECIAL_SITUATION 0.5 = Inr (Some t)
                 \<and> raises (execute t self_id))
         \<or> (select_above tactics SPECIAL_SITUATION 0.5 = Inr None
             \<and> ((\<exists>t \<in> set tactics. getType t = TRANSITION \<and> raises (evaluate t))
               \<or> (\<exists>t. select_above tactics TRANSITION 0.7 = Inr (Some t)
                       \<and> raises (execute t self_id))
               \<or> (select_above tactics TRANSITION 0.7 = Inr None
                   \<and> ((\<exists>t \<in> set tactics.
                           getType t = (if isInOurHalf (ball_tools v) then DEFENSE else ATTACK)
                           \<and> raises (evaluate t))
                     \<or> (\<exists>t. selectBestTactic tactics
                                 (if isInOurHalf (ball_tools v) then DEFENSE else ATTACK)
                               = Inr (Some t)
                             \<and> raises (execute t self_id)))))))
      \<longrightarrow> raises (fst (plan_try2 v tactics comm lock shm self_id))
          \<and> fst (player_plan2 v tactics comm lock shm self_id) = Inr (hold_position v self_id))
   \<and> (play_mode v \<noteq> PM_STOP
       \<and> receiver_id (fst (exchange_state v comm lock shm self_id)) \<noteq> self_id
       \<and> ((isInOurHalf (ball_tools v) \<and> px (velocity (ball_tools v)) > 50
             \<and> (\<exists>t. getTacticByName tactics ''Counter Attack Tactic'' = Some t
                     \<and> raises (evaluate t)))
         \<or> (\<exists>t. (if isInOurHalf (ball_tools v) \<and> px (velocity (ball_tools v)) > 50
                  then above_threshold (getTacticByName tactics ''Counter Attack Tactic'') 0.6
                  else Inr None) = Inr (Some t)
                 \<and> raises (execute t self_id))
         \<or> ((if isInOurHalf (ball_tools v) \<and> px (velocity (ball_tools v)) > 50
              then above_threshold (getTacticByName tactics ''Counter Attack Tactic'') 0.6
              else Inr None) = Inr None
             \<and> isInOpponentHalf (ball_tools v)
             \<and> ((\<exists>t \<in> set tactics. getType t = ATTACK \<and> raises (evaluate t))
               \<or> (\<exists>t. select_above tactics ATTACK 0.5 = Inr (Some t)
                       \<and> raises (execute t self_id)))))
      \<longrightarrow> raises (fst (plan_try1 v tactics comm lock shm self_id))
          \<and> fst (player_plan1 v tactics comm lock shm self_id) = Inr (hold_position v self_id))"
proof -
  let ?try2 = "fst (plan_try2 v tactics comm lock shm self_id)"
  let ?try1 = "fst (plan_try1 v tactics comm lock shm self_id)"
  let ?plan2 = "fst (player_plan2 v tactics comm lock shm self_id)"
  let ?plan1 = "fst (player_plan1 v tactics comm lock shm self_id)"
  have caught2: "raises ?try2 \<longrightarrow> ?plan2 = Inr (hold_position v self_id)"
    using player_plan2_caught [OF assms] by blast
  have caught1: "raises ?try1 \<longrightarrow> ?plan1 = Inr (hold_position v self_id)"
    using player_plan1_caught [OF assms] by blast
  have pass2: "\<forall>task. ?try2 = Inr task \<longrightarrow> ?plan2 = Inr task"
    using player_plan2_passes by blast
  have pass1: "\<forall>task. ?try1 = Inr task \<longrightarrow> ?plan1 = Inr task"
    using player_plan1_passes by blast
  have total2: "\<exists>task. ?plan2 = Inr task"
  proof (cases ?try2)
    case (Inl e)
    then have "raises ?try2" by (simp add: raises_simps)
    with caught2 show ?thesis by blast
  next
    case (Inr task)
    with pass2 show ?thesis by blast
  qed
  have total1: "\<exists>task. ?plan1 = Inr task"
  proof (cases ?try1)
    case (Inl e)
    then have "raises ?try1" by (simp add: raises_simps)
    with caught1 show ?thesis by blast
  next
    case (Inr task)
    with pass1 show ?thesis by blast
  qed
  have h: "target_pos (hold_position v self_id) = our_getPosition v self_id"
    "orientate (hold_position v self_id) = getOrientation v self_id"
    by (simp_all add: hold_position_def)
  have stages2: "raises ?try2 \<and> ?plan2 = Inr (hold_position v self_id)"
    if n: "play_mode v \<noteq> PM_STOP"
        "receiver_id (fst (exchange_state v comm lock shm self_id)) \<noteq> self_id"
      and d: "(\<exists>t \<in> set tactics. getType t = SPECIAL_SITUATION \<and> raises (evaluate t))
         \<or> (\<exists>t. select_above tactics SPECIAL_SITUATION 0.5 = Inr (Some t)
                 \<and> raises (execute t self_id))
         \<or> (select_above tactics SPECIAL_SITUATION 0.5 = Inr None
             \<and> ((\<exists>t \<in> set tactics. getType t = TRANSITION \<and> raises (evaluate t))
               \<or> (\<exists>t. select_above tactics TRANSITION 0.7 = Inr (Some t)
                       \<and> raises (execute t self_id))
               \<or> (select_above tactics TRANSITION 0.7 = Inr None
                   \<and> ((\<exists>t \<in> set tactics.
                           getType t = (if isInOurHalf (ball_tools v) then DEFENSE else ATTACK)
                           \<and> raises (evaluate t))
                     \<or> (\<exists>t. selectBestTactic tactics
                                 (if isInOurHalf (ball_tools v) then DEFENSE else ATTACK)
                               = Inr (Some t)
                             \<and> raises (execute t self_id))))))"
  proof -
    have "raises (plan_tactics2 v tactics self_id (position (ball_tools v))
        (our_getPosition v self_id))"
      using d by (rule plan_tactics2_raises)
    then have "raises ?try2" by (simp only: plan_try2_tactics [OF n])
    with caught2 show ?thesis by blast
  qed
  have stages1: "raises ?try1 \<and> ?plan1 = Inr (hold_position v self_id)"
    if n: "play_mode v \<noteq> PM_STOP"
        "receiver_id (fst (exchange_state v comm lock shm self_id)) \<noteq> self_id"
      and d: "(isInOurHalf (ball_tools v) \<and> px (velocity (ball_tools v)) > 50
             \<and> (\<exists>t. getTacticByName tactics ''Counter Attack Tactic'' = Some t
                     \<and> raises (evaluate t)))
         \<or> (\<exists>t. (if isInOurHalf (ball_tools v) \<and> px (velocity (ball_tools v)) > 50
                  then above_threshold (getTacticByName tactics ''Counter Attack Tactic'') 0.6
                  else Inr None) = Inr (Some t)
                 \<and> raises (execute t self_id))
         \<or> ((if isInOurHalf (ball_tools v) \<and> px (velocity (ball_tools v)) > 50
              then above_threshold (getTacticByName tactics ''Counter Attack Tactic'') 0.6
              else Inr None) = Inr None
             \<and> isInOpponentHalf (ball_tools v)
             \<and> ((\<exists>t \<in> set tactics. getType t = ATTACK \<and> raises (evaluate t))
               \<or> (\<exists>t. select_above tactics ATTACK 0.5 = Inr (Some t)
                       \<and> raises (execute t self_id))))"
  proof -
    have "raises (plan_tactics1 v tactics self_id (position (ball_tools v))
        (our_getPosition v self_id))"
      using d by (rule plan_tactics1_raises)
    then have "raises ?try1" by (simp only: plan_try1_tactics [OF n])
    with caught1 show ?thesis by blast
  qed
  show ?thesis
  proof (intro conjI)
    show "\<exists>task. ?plan2 = Inr task" by (rule total2)
    show "\<exists>task. ?plan1 = Inr task" by (rule total1)
    show "raises ?try2 \<longrightarrow> ?plan2 = Inr (hold_position v self_id)" by (rule caught2)
    show "raises ?try1 \<longrightarrow> ?plan1 = Inr (hold_position v self_id)" by (rule caught1)
    show "\<forall>task. ?try2 = Inr task \<longrightarrow> ?plan2 = Inr task" by (rule pass2)
    show "\<forall>task. ?try1 = Inr task \<longrightarrow> ?plan1 = Inr task" by (rule pass1)
    show "target_pos (hold_position v self_id) = our_getPosition v self_id" by (rule h(1))
    show "orientate (hold_position v self_id) = getOrientation v self_id" by (rule h(2))
  next
    show "play_mode v \<noteq> PM_STOP
       \<and> receiver_id (fst (exchange_state v comm lock shm self_id)) \<noteq> self_id
       \<and> ((\<exists>t \<in> set tactics. getType t = SPECIAL_SITUATION \<and> raises (evaluate t))
         \<or> (\<exists>t. select_above tactics SPECIAL_SITUATION 0.5 = Inr (Some t)
                 \<and> raises (execute t self_id))
         \<or> (select_above tactics SPECIAL_SITUATION 0.5 = Inr None
             \<and> ((\<exists>t \<in> set tactics. getType t = TRANSITION \<and> raises (evaluate t))
               \<or> (\<exists>t. select_above tactics TRANSITION 0.7 = Inr (Some t)
                       \<and> raises (execute t self_id))
               \<or> (select_above tactics TRANSITION 0.7 = Inr None
                   \<and> ((\<exists>t \<in> set tactics.
                           getType t = (if isInOurHalf (ball_tools v) then DEFENSE else ATTACK)
                           \<and> raises (evaluate t))
                     \<or> (\<exists>t. selectBestTactic tactics
                                 (if isInOurHalf (ball_tools v) then DEFENSE else ATTACK)
                               = Inr (Some t)
                             \<and> raises (execute t self_id)))))))
      \<longrightarrow> raises ?try2 \<and> ?plan2 = Inr (hold_position v self_id)"
      by (intro impI, elim conjE) (rule stages2, assumption+)
  next
    show "play_mode v \<noteq> PM_STOP
       \<and> receiver_id (fst (exchange_state v comm lock shm self_id)) \<noteq> self_id
       \<and> ((isInOurHalf (ball_tools v) \<and> px (velocity (ball_tools v)) > 50
             \<and> (\<exists>t. getTacticByName tactics ''Counter Attack Tactic'' = Some t
                     \<and> raises (evaluate t)))
         \<or> (\<exists>t. (if isInOurHalf (ball_tools v) \<and> px (velocity (ball_tools v)) > 50
                  then above_threshold (getTacticByName tactics ''Counter Attack Tactic'') 0.6
                  else Inr None) = Inr (Some t)
                 \<and> raises (execute t self_id))
         \<or> ((if isInOurHalf (ball_tools v) \<and> px (velocity (ball_tools v)) > 50
              then above_threshold (getTacticByName tactics ''Counter Attack Tactic'') 0.6
              else Inr None) = Inr None
             \<and> isInOpponentHalf (ball_tools v)
             \<and> ((\<exists>t \<in> set tactics. getType t = ATTACK \<and> raises (evaluate t))
               \<or> (\<exists>t. select_above tactics ATTACK 0.5 = Inr (Some t)
                       \<and> raises (execute t self_id)))))
      \<longrightarrow> raises ?try1 \<and> ?plan1 = Inr (hold_position v self_id)"
      by (intro impI, elim conjE) (rule stages1, assumption+)
  qed
qed

text \<open>
  Three runs with the ball in the opponent half, in normal play, no pass addressed to
  robot 1: the attack tactic selected by robot2.cpp throws \<open>std::bad_alloc\<close> from
  \<open>execute()\<close>; an attack tactic throws it from \<open>evaluate()\<close>, in robot2.cpp and in
  robot1.cpp. Each time robot 1 is told to stay at \<open>(2870, 0)\<close>.
\<close>

theorem C5_fault_becomes_hold_position_witness:
  "fst (player_plan2 (scenario_plan_view (point 2900 0))
      [scenario_throwing_tactic ''DirectAttack'' ATTACK 0.8 (StdException ''std::bad_alloc'')]
      (scenario_comm 1 5) (\<lambda>n. False) scenario_empty_table 1)
     = Inr (scenario_task\<lparr>target_pos := point 2870 0, orientate := 0\<rparr>)
   \<and> fst (player_plan2 (scenario_plan_view (point 2900 0))
      [scenario_unevaluable_tactic ''DirectAttack'' ATTACK (StdException ''std::bad_alloc'')]
      (scenario_comm 1 5) (\<lambda>n. False) scenario_empty_table 1)
     = Inr (scenario_task\<lparr>target_pos := point 2870 0, orientate := 0\<rparr>)
   \<and> fst (player_plan1 (scenario_plan_view (point 2900 0))
      [scenario_unevaluable_tactic ''DirectAttack'' ATTACK (StdException ''std::bad_alloc'')]
      (scenario_comm 1 5) (\<lambda>n. False) scenario_empty_table 1)
     = Inr (scenario_task\<lparr>target_pos := point 2870 0, orientate := 0\<rparr>)"
proof -
  let ?v = "scenario_plan_view (point 2900 0)"
  let ?t = "scenario_throwing_tactic ''DirectAttack'' ATTACK 0.8 (StdException ''std::bad_alloc'')"
  let ?u = "scenario_unevaluable_tactic ''DirectAttack'' ATTACK (StdException ''std::bad_alloc'')"
  have std_t: "throws_only_std [?t] 1"
    by (simp add: throws_only_std_def scenario_throwing_tactic_simps)
  have std_u: "throws_only_std [?u] 1"
    by (simp add: throws_only_std_def scenario_unevaluable_tactic_def)
  have mode: "play_mode ?v \<noteq> PM_STOP"
    by (simp add: scenario_plan_view_simps PM_STOP_def)
  have msg: "receiver_id (fst (exchange_state ?v (scenario_comm 1 5) (\<lambda>n. False)
      scenario_empty_table 1)) \<noteq> 1"
    by (simp add: exchange_state_no_lock Message_default_def)
  have half: "\<not> isInOurHalf (ball_tools ?v)" "isInOpponentHalf (ball_tools ?v)"
    by (simp_all add: scenario_plan_view_def updateState_def isInOurHalf_def
        isInOpponentHalf_def point_def)
  have hold: "hold_position ?v 1 = scenario_task\<lparr>target_pos := point 2870 0, orientate := 0\<rparr>"
    by (simp add: hold_position_def scenario_plan_view_simps)
  have special_t: "select_above [?t] SPECIAL_SITUATION 0.5 = Inr None"
    and transition_t: "select_above [?t] TRANSITION 0.7 = Inr None"
    by (simp_all add: select_above_no_candidate scenario_throwing_tactic_simps)
  have best_t: "selectBestTactic [?t]
      (if isInOurHalf (ball_tools ?v) then DEFENSE else ATTACK) = Inr (Some ?t)"
    using half(1) by (simp add: selectBestTactic_def scenario_throwing_tactic_simps)
  have exec_t: "raises (execute ?t 1)"
    by (simp add: scenario_throwing_tactic_simps raises_simps)
  from C5_fault_becomes_hold_position [OF std_t, where v = ?v and comm = "scenario_comm 1 5"
      and lock = "\<lambda>n. False" and shm = scenario_empty_table, THEN conjunct2, THEN conjunct2, THEN conjunct2, THEN conjunct2, THEN conjunct2, THEN conjunct2, THEN conjunct2, THEN conjunct2, THEN conjunct1]
    mode msg special_t transition_t best_t exec_t
  have r1: "fst (player_plan2 ?v [?t] (scenario_comm 1 5) (\<lambda>n. False) scenario_empty_table 1)
      = Inr (hold_position ?v 1)"
    by blast
  have special_u: "select_above [?u] SPECIAL_SITUATION 0.5 = Inr None"
    and transition_u: "select_above [?u] TRANSITION 0.7 = Inr None"
    by (simp_all add: select_above_no_candidate scenario_unevaluable_tactic_simps)
  have mem_u: "?u \<in> set [?u]" by simp
  have type_u: "getType ?u = (if isInOurHalf (ball_tools ?v) then DEFENSE else ATTACK)"
    "getType ?u = ATTACK"
    using half(1) by (simp_all add: scenario_unevaluable_tactic_simps)
  have eval_u: "raises (evaluate ?u)"
    by (simp add: scenario_unevaluable_tactic_simps raises_simps)
  from C5_fault_becomes_hold_position [OF std_u, where v = ?v and comm = "scenario_comm 1 5"
      and lock = "\<lambda>n. False" and shm = scenario_empty_table, THEN conjunct2, THEN conjunct2, THEN conjunct2, THEN conjunct2, THEN conjunct2, THEN conjunct2, THEN conjunct2, THEN conjunct2, THEN conjunct1]
    mode msg special_u transition_u mem_u type_u(1) eval_u
  have r2: "fst (player_plan2 ?v [?u] (scenario_comm 1 5) (\<lambda>n. False) scenario_empty_table 1)
      = Inr (hold_position ?v 1)"
    by blast
  have counter_u: "(if isInOurHalf (ball_tools ?v) \<and> px (velocity (ball_tools ?v)) > 50
      then above_threshold (getTacticByName [?u] ''Counter Attack Tactic'') 0.6
      else Inr None) = Inr None"
    using half(1) by simp
  from C5_fault_becomes_hold_position [OF std_u, where v = ?v and comm = "scenario_comm 1 5"
      and lock = "\<lambda>n. False" and shm = scenario_empty_table, THEN conjunct2, THEN conjunct2, THEN conjunct2, THEN conjunct2, THEN conjunct2, THEN conjunct2, THEN conjunct2, THEN conjunct2, THEN conjunct2]
    mode msg counter_u half(2) mem_u type_u(2) eval_u
  have r3: "fst (player_plan1 ?v [?u] (scenario_comm 1 5) (\<lambda>n. False) scenario_empty_table 1)
      = Inr (hold_position ?v 1)"
    by blast
  from r1 r2 r3 show ?thesis by (simp only: hold simp_thms)
qed

lemma scenario_robot1_catalog_types:
  "\<forall>t \<in> set scenario_robot1_catalog. getType t \<noteq> SPECIAL_SITUATION"
  "\<forall>t \<in> set scenario_robot1_catalog. getType t \<noteq> DEFENSE"
  by (simp_all add: scenario_robot1_catalog_def registerTactic_def scenario_tactic_def)

lemma scenario_robot1_catalog_transition:
  "select_above scenario_robot1_catalog TRANSITION 0.7 = Inr None"
  by (simp add: select_above_def above_threshold_def selectBestTactic_def
      scenario_robot1_catalog_def registerTactic_def scenario_tactic_def)

text \<open>
  Claim C10. Selecting the best tactic of a category returns the null result when the
  catalog holds no tactic of that category (in particular when it is empty), and so does
  the thresholded selection of the decision loop. The decision functions test the result
  before use: in robot2.cpp, in normal play with no pass addressed to the agent, when the
  special-situation and transition stages select nothing and the catalog holds no tactic
  of the category asked for (defense with the ball in our half, attack otherwise), the
  command is the one of the default heuristic; in robot1.cpp, when the counter-attack
  stage does not fire and the catalog holds no attack tactic, the command is the one of
  the basic heuristic.
\<close>

theorem C10_null_tactic_fallback:
  "((\<forall>t \<in> set tactics. getType t \<noteq> ty) \<longrightarrow> selectBestTactic tactics ty = Inr None)
   \<and> selectBestTactic [] ty = Inr None
   \<and> ((\<forall>t \<in> set tactics. getType t \<noteq> ty) \<longrightarrow> select_above tactics ty threshold = Inr None)
   \<and> (play_mode v \<noteq> PM_STOP
       \<and> receiver_id (fst (exchange_state v comm lock shm self_id)) \<noteq> self_id
       \<and> select_above tactics SPECIAL_SITUATION 0.5 = Inr None
       \<and> select_above tactics TRANSITION 0.7 = Inr None
       \<and> (\<forall>t \<in> set tactics.
             getType t \<noteq> (if isInOurHalf (ball_tools v) then DEFENSE else ATTACK))
      \<longrightarrow> fst (player_plan2 v tactics comm lock shm self_id) =
            Inr (default_behavior2 v self_id (position (ball_tools v))
                   (our_getPosition v self_id)))
   \<and> (play_mode v \<noteq> PM_STOP
       \<and> receiver_id (fst (exchange_state v comm lock shm self_id)) \<noteq> self_id
       \<and> (\<not> (isInOurHalf (ball_tools v) \<and> px (velocity (ball_tools v)) > 50)
            \<or> above_threshold (getTacticByName tactics ''Counter Attack Tactic'') 0.6
                 = Inr None)
       \<and> (\<forall>t \<in> set tactics. getType t \<noteq> ATTACK)
      \<longrightarrow> fst (player_plan1 v tactics comm lock shm self_id) =
            Inr (basic_behavior1 v self_id (position (ball_tools v))
                   (our_getPosition v self_id)))"
proof -
  have s1: "(\<forall>t \<in> set tactics. getType t \<noteq> ty) \<longrightarrow> selectBestTactic tactics ty = Inr None"
    using selectBestTactic_no_candidate by blast
  have s2: "selectBestTactic [] ty = Inr None"
    by (simp add: selectBestTactic_def)
  have s3: "(\<forall>t \<in> set tactics. getType t \<noteq> ty) \<longrightarrow> select_above tactics ty threshold = Inr None"
    using select_above_no_candidate by blast
  have r2: "fst (player_plan2 v tactics comm lock shm self_id) =
      Inr (default_behavior2 v self_id (position (ball_tools v)) (our_getPosition v self_id))"
    if "play_mode v \<noteq> PM_STOP"
      and "receiver_id (fst (exchange_state v comm lock shm self_id)) \<noteq> self_id"
      and "select_above tactics SPECIAL_SITUATION 0.5 = Inr None"
      and "select_above tactics TRANSITION 0.7 = Inr None"
      and "\<forall>t \<in> set tactics.
             getType t \<noteq> (if isInOurHalf (ball_tools v) then DEFENSE else ATTACK)"
  proof -
    have "fst (plan_try2 v tactics comm lock shm self_id) =
        Inr (default_behavior2 v self_id (position (ball_tools v)) (our_getPosition v self_id))"
      using plan_try2_tactics [OF that(1,2)] plan_tactics2_default [OF that(3,4,5)]
      by simp
    then show ?thesis by (simp add: player_plan2_def Let_def)
  qed
  have r1: "fst (player_plan1 v tactics comm lock shm self_id) =
      Inr (basic_behavior1 v self_id (position (ball_tools v)) (our_getPosition v self_id))"
    if "play_mode v \<noteq> PM_STOP"
      and "receiver_id (fst (exchange_state v comm lock shm self_id)) \<noteq> self_id"
      and "\<not> (isInOurHalf (ball_tools v) \<and> px (velocity (ball_tools v)) > 50)
            \<or> above_threshold (getTacticByName tactics ''Counter Attack Tactic'') 0.6
                 = Inr None"
      and "\<forall>t \<in> set tactics. getType t \<noteq> ATTACK"
  proof -
    have "fst (plan_try1 v tactics comm lock shm self_id) =
        Inr (basic_behavior1 v self_id (position (ball_tools v)) (our_getPosition v self_id))"
      using plan_try1_tactics [OF that(1,2)] plan_tactics1_basic [OF that(3,4)]
      by simp
    then show ?thesis by (simp add: player_plan1_def Let_def)
  qed
  from s1 s2 s3 r2 r1 show ?thesis by blast
qed

theorem C10_null_tactic_fallback_witness:
  "selectBestTactic scenario_robot1_catalog DEFENSE = Inr None
   \<and> fst (player_plan2 (scenario_plan_view (point (- 500) 0)) scenario_robot1_catalog
        (scenario_comm 1 5) (\<lambda>n. False) scenario_empty_table 1)
     = Inr (scenario_task\<lparr>target_pos := point (- 500) 0\<rparr>)"
proof -
  let ?v = "scenario_plan_view (point (- 500) 0)"
  note fallback = C10_null_tactic_fallback
    [where tactics = scenario_robot1_catalog and ty = DEFENSE and v = ?v
      and comm = "scenario_comm 1 5" and lock = "\<lambda>n. False"
      and shm = scenario_empty_table and self_id = 1 and threshold = "0.5"]
  have half: "isInOurHalf (ball_tools ?v)"
    by (simp add: scenario_plan_view_simps point_def)
  have mode: "play_mode ?v \<noteq> PM_STOP"
    by (simp add: scenario_plan_view_simps PM_STOP_def)
  have msg: "receiver_id (fst (exchange_state ?v (scenario_comm 1 5) (\<lambda>n. False)
      scenario_empty_table 1)) \<noteq> 1"
    by (simp add: exchange_state_no_lock Message_default_def)
  have special: "select_above scenario_robot1_catalog SPECIAL_SITUATION 0.5 = Inr None"
    by (rule select_above_no_candidate) (rule scenario_robot1_catalog_types)
  have category: "\<forall>t \<in> set scenario_robot1_catalog.
      getType t \<noteq> (if isInOurHalf (ball_tools ?v) then DEFENSE else ATTACK)"
    using half scenario_robot1_catalog_types(2) by simp
  from fallback scenario_robot1_catalog_types(2)
  have none: "selectBestTactic scenario_robot1_catalog DEFENSE = Inr None"
    by blast
  from fallback mode msg special scenario_robot1_catalog_transition category
  have "fst (player_plan2 ?v scenario_robot1_catalog (scenario_comm 1 5) (\<lambda>n. False)
      scenario_empty_table 1)
    = Inr (default_behavior2 ?v 1 (position (ball_tools ?v)) (our_getPosition ?v 1))"
    by blast
  moreover have "default_behavior2 ?v 1 (position (ball_tools ?v)) (our_getPosition ?v 1)
      = scenario_task\<lparr>target_pos := point (- 500) 0\<rparr>"
    by (simp add: default_behavior2_def scenario_plan_view_simps Let_def)
  ultimately show ?thesis using none by simp
qed

end
